(* ===== verification/Prelude.thy ===== *)
theory Prelude
  imports Main "HOL-Library.AList"
begin

text \<open>
  What every component of the model shares: the sum type as the result of a fallible Go
  function (\<open>Inl\<close> the error, \<open>Inr\<close> the value), the loop that stops at the first
  error, Go maps as association lists with one entry per key, and the named collections the
  component theories add their rewrite rules to.
\<close>

section \<open>Named collections\<close>

named_theorems go_string_simps \<open>evaluation of the string helpers\<close>
named_theorems step_defs \<open>the handlers of the pipeline, unfolded together\<close>
named_theorems inv_intros \<open>preservation of the store's invariant\<close>
named_theorems res_simps \<open>when a chain of fallible calls succeeds\<close>

section \<open>Fallible results\<close>

type_synonym ('e, 'a) res = "'e + 'a"

fun is_ok :: "'e + 'a \<Rightarrow> bool" where
  "is_ok (Inl _) = False"
| "is_ok (Inr _) = True"

lemma is_ok_iff: "is_ok r \<longleftrightarrow> (\<exists>v. r = Inr v)"
  by (cases r) auto

fun map_err :: "('e \<Rightarrow> 'f) \<Rightarrow> 'e + 'a \<Rightarrow> 'f + 'a" where
  "map_err f (Inl e) = Inl (f e)"
| "map_err f (Inr v) = Inr v"

lemma map_err_Inr [simp]: "map_err f r = Inr v \<longleftrightarrow> r = Inr v"
  by (cases r) auto

lemma case_Inr_eq_Inr [res_simps]:
  "(case x of Inl e \<Rightarrow> Inl (f e) | Inr r \<Rightarrow> g r) = Inr s \<longleftrightarrow> (\<exists>r. x = Inr r \<and> g r = Inr s)"
  by (auto split: sum.splits)

lemma case_Some_eq_Inr [res_simps]:
  "(case x of None \<Rightarrow> Inl e | Some y \<Rightarrow> h y) = Inr s \<longleftrightarrow> (\<exists>y. x = Some y \<and> h y = Inr s)"
  by (auto split: option.splits)

lemma if_Inl_eq_Inr [res_simps]:
  "(if b then Inl e else x) = Inr s \<longleftrightarrow> \<not> b \<and> x = Inr s"
  by simp

text \<open>
  A Go loop \<open>for _, x := range xs\<close> that appends the result of a fallible call and returns at
  the first error.
\<close>

fun traverse :: "('a \<Rightarrow> 'e + 'b) \<Rightarrow> 'a list \<Rightarrow> 'e + 'b list" where
  "traverse f [] = Inr []"
| "traverse f (x # xs) =
     (case f x of
        Inl e \<Rightarrow> Inl e
      | Inr y \<Rightarrow> (case traverse f xs of Inl e \<Rightarrow> Inl e | Inr ys \<Rightarrow> Inr (y # ys)))"

lemma traverse_cong [fundef_cong]:
  "xs = ys \<Longrightarrow> (\<And>x. x \<in> set ys \<Longrightarrow> f x = g x) \<Longrightarrow> traverse f xs = traverse g ys"
proof -
  assume "xs = ys" and eq: "\<And>x. x \<in> set ys \<Longrightarrow> f x = g x"
  moreover have "(\<forall>x \<in> set ys. f x = g x) \<Longrightarrow> traverse f ys = traverse g ys"
    by (induction ys) (simp_all split: sum.split)
  ultimately show ?thesis by blast
qed

lemma traverse_Cons_Inr:
  "traverse f (x # xs) = Inr ys \<longleftrightarrow>
     (\<exists>y ys'. ys = y # ys' \<and> f x = Inr y \<and> traverse f xs = Inr ys')"
  by (auto split: sum.splits)

lemma traverse_Inr_iff:
  "traverse f xs = Inr ys \<longleftrightarrow> list_all2 (\<lambda>x y. f x = Inr y) xs ys"
proof (induction xs arbitrary: ys)
  case Nil
  then show ?case by auto
next
  case (Cons x xs)
  show ?case
    by (cases ys) (auto simp: traverse_Cons_Inr Cons.IH simp del: traverse.simps)
qed

lemma traverse_Inr_length: "traverse f xs = Inr ys \<Longrightarrow> length ys = length xs"
  by (auto simp: traverse_Inr_iff dest: list_all2_lengthD)

lemma traverse_Inr_nth:
  "traverse f xs = Inr ys \<Longrightarrow> i < length xs \<Longrightarrow> f (xs ! i) = Inr (ys ! i)"
  by (auto simp: traverse_Inr_iff dest: list_all2_nthD)

lemma traverse_Inr_set:
  "traverse f xs = Inr ys \<Longrightarrow> y \<in> set ys \<Longrightarrow> \<exists>x \<in> set xs. f x = Inr y"
  by (force simp: traverse_Inr_iff in_set_conv_nth dest: list_all2_nthD2 list_all2_lengthD)

lemma traverse_ident: "(\<And>x. x \<in> set xs \<Longrightarrow> f x = Inr x) \<Longrightarrow> traverse f xs = Inr xs"
  by (induction xs) auto

lemma traverse_map: "(\<And>x. x \<in> set xs \<Longrightarrow> f x = Inr (g x)) \<Longrightarrow> traverse f xs = Inr (map g xs)"
  by (induction xs) auto

text \<open>The loop fails exactly when an element does, with the first failing element's error.\<close>

lemma traverse_Inl_first:
  assumes "traverse f xs = Inl e"
  shows "\<exists>ys x zs. xs = ys @ x # zs \<and> f x = Inl e \<and> (\<forall>y \<in> set ys. is_ok (f y))"
  using assms
proof (induction xs)
  case Nil
  then show ?case by simp
next
  case (Cons x xs)
  show ?case
  proof (cases "f x")
    case (Inl a)
    with Cons.prems have "x # xs = [] @ x # xs \<and> f x = Inl e" by simp
    then show ?thesis by (metis empty_iff empty_set)
  next
    case (Inr y)
    with Cons.prems have "traverse f xs = Inl e" by (auto split: sum.splits)
    from Cons.IH [OF this] obtain ys x' zs
      where "xs = ys @ x' # zs" "f x' = Inl e" "\<forall>y \<in> set ys. is_ok (f y)" by blast
    with Inr have "x # xs = (x # ys) @ x' # zs \<and> f x' = Inl e \<and> (\<forall>y \<in> set (x # ys). is_ok (f y))"
      by simp
    then show ?thesis by blast
  qed
qed

lemma traverse_Inl_intro:
  "f x = Inl e \<Longrightarrow> \<forall>y \<in> set ys. is_ok (f y) \<Longrightarrow> traverse f (ys @ x # zs) = Inl e"
  by (induction ys) (auto simp: is_ok_iff)

section \<open>Go maps\<close>

text \<open>
  A Go map is an association list with at most one entry per key; the order of the list is the
  (unspecified) order in which \<open>range\<close> visits the entries. A lookup is \<open>map_of\<close>, an assignment
  \<open>AList.update\<close>. Theorems about a loop over a map hold for every order of the list.
\<close>

type_synonym ('k, 'v) gomap = "('k \<times> 'v) list"

definition wf_map :: "('k, 'v) gomap \<Rightarrow> bool" where
  "wf_map m \<longleftrightarrow> distinct (map fst m)"

definition gm_get :: "('k, 'v) gomap \<Rightarrow> 'k \<Rightarrow> 'v option" where
  "gm_get m k = map_of m k"

definition gm_put :: "'k \<Rightarrow> 'v \<Rightarrow> ('k, 'v) gomap \<Rightarrow> ('k, 'v) gomap" where
  "gm_put k v m = AList.update k v m"

definition gm_has :: "('k, 'v) gomap \<Rightarrow> 'k \<Rightarrow> bool" where
  "gm_has m k \<longleftrightarrow> gm_get m k \<noteq> None"

lemma gm_get_empty [simp]: "gm_get [] k = None"
  by (simp add: gm_get_def)

lemma gm_get_put [simp]: "gm_get (gm_put k v m) k' = (if k' = k then Some v else gm_get m k')"
  by (simp add: gm_get_def gm_put_def update_conv')

lemma gm_has_put [simp]: "gm_has (gm_put k v m) k' \<longleftrightarrow> k' = k \<or> gm_has m k'"
  by (simp add: gm_has_def)

lemma gm_has_empty [simp]: "\<not> gm_has [] k"
  by (simp add: gm_has_def)

lemma wf_map_Nil [simp]: "wf_map []"
  by (simp add: wf_map_def)

lemma wf_map_put [simp]: "wf_map m \<Longrightarrow> wf_map (gm_put k v m)"
  by (simp add: wf_map_def gm_put_def distinct_update)

lemma gm_get_Some_in: "gm_get m k = Some v \<Longrightarrow> (k, v) \<in> set m"
  by (simp add: gm_get_def map_of_SomeD)

lemma gm_get_in: "wf_map m \<Longrightarrow> (k, v) \<in> set m \<Longrightarrow> gm_get m k = Some v"
  by (simp add: wf_map_def gm_get_def)

lemma gm_get_perm:
  "wf_map m \<Longrightarrow> wf_map m' \<Longrightarrow> set m = set m' \<Longrightarrow> gm_get m k = gm_get m' k"
  by (metis gm_get_def wf_map_def map_of_inject_set)

lemma gm_has_iff_key: "gm_has m k \<longleftrightarrow> k \<in> fst ` set m"
  by (simp add: gm_has_def gm_get_def map_of_eq_None_iff)

lemma gm_put_keys: "fst ` set (gm_put k v m) = insert k (fst ` set m)"
  by (simp add: gm_put_def dom_update)

lemma gm_put_vals: "snd ` set (gm_put k v m) \<subseteq> insert v (snd ` set m)"
proof (induction m)
  case Nil
  then show ?case by (simp add: gm_put_def)
next
  case (Cons p m)
  then show ?case by (cases p) (auto simp: gm_put_def)
qed

text \<open>A loop that writes one entry per visited entry, as \<open>result[k'] = v'\<close> does.\<close>

definition gm_of_list :: "('k \<times> 'v) list \<Rightarrow> ('k, 'v) gomap" where
  "gm_of_list kvs = fold (\<lambda>(k, v) m. gm_put k v m) kvs []"

lemma wf_map_fold_put: "wf_map m \<Longrightarrow> wf_map (fold (\<lambda>(k, v) m. gm_put k v m) kvs m)"
  by (induction kvs arbitrary: m) auto

lemma wf_map_gm_of_list [simp]: "wf_map (gm_of_list kvs)"
  by (simp add: gm_of_list_def wf_map_fold_put)

lemma gm_get_fold_put:
  "gm_get (fold (\<lambda>(k, v) m. gm_put k v m) kvs m) x =
     (case map_of (rev kvs) x of Some v \<Rightarrow> Some v | None \<Rightarrow> gm_get m x)"
  by (induction kvs arbitrary: m) (auto simp: map_add_def split: option.splits)

text \<open>Reading back: the last write of a key wins.\<close>

lemma gm_get_gm_of_list: "gm_get (gm_of_list kvs) x = map_of (rev kvs) x"
  by (simp add: gm_of_list_def gm_get_fold_put split: option.splits)

lemma gm_put_fresh: "k \<notin> fst ` set m \<Longrightarrow> gm_put k v m = m @ [(k, v)]"
  unfolding gm_put_def by (induction m) auto

lemma gm_of_list_fresh:
  "distinct (map fst kvs) \<Longrightarrow> fst ` set m \<inter> fst ` set kvs = {} \<Longrightarrow>
   fold (\<lambda>(k, v) m. gm_put k v m) kvs m = m @ kvs"
proof (induction kvs arbitrary: m)
  case Nil
  then show ?case by simp
next
  case (Cons p kvs)
  obtain k v where p: "p = (k, v)" by (cases p)
  from Cons.prems p have "gm_put k v m = m @ [(k, v)]"
    by (intro gm_put_fresh) auto
  moreover from Cons.prems p have "fst ` set (m @ [(k, v)]) \<inter> fst ` set kvs = {}"
    by auto
  ultimately show ?case using Cons p by simp
qed

lemma gm_of_list_distinct: "distinct (map fst kvs) \<Longrightarrow> gm_of_list kvs = kvs"
  by (simp add: gm_of_list_def gm_of_list_fresh)

lemma gm_get_gm_of_list_distinct:
  "distinct (map fst kvs) \<Longrightarrow> gm_get (gm_of_list kvs) x = map_of kvs x"
  by (simp add: gm_of_list_distinct gm_get_def)

lemma gm_of_list_vals: "snd ` set (gm_of_list kvs) \<subseteq> snd ` set kvs"
proof -
  have "snd ` set (fold (\<lambda>(k, v) m. gm_put k v m) kvs m) \<subseteq> snd ` set kvs \<union> snd ` set m" for m
  proof (induction kvs arbitrary: m)
    case Nil
    then show ?case by simp
  next
    case (Cons p kvs)
    obtain k v where p: "p = (k, v)" by (cases p)
    have "snd ` set (gm_put k v m) \<subseteq> insert v (snd ` set m)"
      by (rule gm_put_vals)
    with Cons.IH [of "gm_put k v m"] p show ?case by auto
  qed
  from this [of "[]"] show ?thesis by (simp add: gm_of_list_def)
qed

section \<open>Bytewise order on strings\<close>

text \<open>Go compares strings bytewise; \<open>sort.Strings\<close> orders the keys of a map by it.\<close>

fun str_less_eq :: "string \<Rightarrow> string \<Rightarrow> bool" where
  "str_less_eq [] _ = True"
| "str_less_eq (_ # _) [] = False"
| "str_less_eq (x # xs) (y # ys) =
     (let a = (of_char x :: nat); b = of_char y in a < b \<or> a = b \<and> str_less_eq xs ys)"

fun insert_entry :: "(string \<times> 'v) \<Rightarrow> (string \<times> 'v) list \<Rightarrow> (string \<times> 'v) list" where
  "insert_entry p [] = [p]"
| "insert_entry p (q # qs) =
     (if str_less_eq (fst p) (fst q) then p # q # qs else q # insert_entry p qs)"

definition sort_entries :: "(string \<times> 'v) list \<Rightarrow> (string \<times> 'v) list" where
  "sort_entries kvs = foldr insert_entry kvs []"

lemma set_insert_entry [simp]: "set (insert_entry p qs) = insert p (set qs)"
  by (induction qs) auto

lemma set_sort_entries [simp]: "set (sort_entries kvs) = set kvs"
  by (induction kvs) (auto simp: sort_entries_def)

lemma length_insert_entry [simp]: "length (insert_entry p qs) = Suc (length qs)"
  by (induction qs) auto

lemma length_sort_entries [simp]: "length (sort_entries kvs) = length kvs"
  by (induction kvs) (auto simp: sort_entries_def)

end
