(* ===== verification/Go_Float.thy ===== *)
theory Go_Float
  imports Complex_Main Go_Strings
begin

text \<open>
  Go's \<open>float64\<close>: IEEE-754 binary64 values as exact rationals with signed zero, infinities and
  NaN, rounding to nearest (ties to even) written out, and the operations of the language and of
  \<open>math\<close> and \<open>strconv\<close> the program uses. The lemmas are the ones the backoff bounds need:
  rounding is monotone and exact on the integers up to \<open>2 ^ 53\<close>.
\<close>

section \<open>Values and rounding\<close>

datatype f64 = Fin rat | NegZero | Infinite bool | NaN

function zlog2 :: "int \<Rightarrow> int" where
  "zlog2 n = (if n < 2 then 0 else 1 + zlog2 (n div 2))"
  by pat_completeness auto
termination
  by (relation "measure nat") auto

declare zlog2.simps [simp del]

definition pow2 :: "int \<Rightarrow> rat" where
  "pow2 e = (if 0 \<le> e then 2 ^ nat e else 1 / 2 ^ nat (- e))"

text \<open>The exponent \<open>e\<close> of a positive rational with \<open>2 ^ e \<le> r < 2 ^ (e + 1)\<close>.\<close>

definition rlog2 :: "rat \<Rightarrow> int" where
  "rlog2 r =
     (let (p, q) = quotient_of r; e = zlog2 p - zlog2 q
      in if pow2 e \<le> r then e else e - 1)"

definition round_even :: "rat \<Rightarrow> int" where
  "round_even x =
     (let f = floor x; d = x - of_int f
      in if d < 1 / 2 then f else if 1 / 2 < d then f + 1 else if even f then f else f + 1)"

definition ulp_exp :: "rat \<Rightarrow> int" where
  "ulp_exp r = max (rlog2 r) (- 1022) - 52"

definition rnd_pos :: "rat \<Rightarrow> rat" where
  "rnd_pos r = of_int (round_even (r / pow2 (ulp_exp r))) * pow2 (ulp_exp r)"

text \<open>The least magnitude that overflows: \<open>2 ^ 1024\<close>.\<close>

definition f64_limit :: rat where
  "f64_limit = 179769313486231590772930519078902473361797697894230657273430081157732675805500963132708477322407536021120113879871393357658789768814416622492847430639474124377767893424865485276302219601246094119453082952085005768838150682342462881473913110540827237163350510684586298239947245938479716304835356329624224137216"

lemma f64_limit_gt: "r \<le> 2 ^ 53 \<Longrightarrow> r < f64_limit"
  by (simp add: f64_limit_def)

definition rnd64 :: "rat \<Rightarrow> f64" where
  "rnd64 r =
     (if r = 0 then Fin 0
      else let v = rnd_pos \<bar>r\<bar>
           in if f64_limit \<le> v then Infinite (r < 0)
              else if v = 0 then (if r < 0 then NegZero else Fin 0)
              else Fin (sgn r * v))"

subsection \<open>Facts about rounding\<close>

lemma pow2_powi: "pow2 e = 2 powi e"
  by (simp add: pow2_def power_int_def power_one_over)

lemma pow2_pos [simp]: "0 < pow2 e"
  by (simp add: pow2_def)

lemma pow2_neq0 [simp]: "pow2 e \<noteq> 0"
  using pow2_pos [of e] by linarith

lemma pow2_add: "pow2 (a + b) = pow2 a * pow2 b"
  by (simp add: pow2_powi power_int_add)

lemma pow2_diff: "pow2 (a - b) = pow2 a / pow2 b"
  by (simp add: pow2_powi power_int_diff)

lemma pow2_mono: "a \<le> b \<Longrightarrow> pow2 a \<le> pow2 b"
  by (simp add: pow2_powi power_int_increasing)

lemma pow2_less_iff: "pow2 a < pow2 b \<longleftrightarrow> a < b"
  by (metis pow2_mono linorder_not_le order_less_le pow2_powi power_int_strict_increasing
      one_less_numeral_iff semiring_norm(76))

lemma pow2_nat: "pow2 (int n) = 2 ^ n"
  by (simp add: pow2_def)

lemma zlog2_bounds: "0 < n \<Longrightarrow> pow2 (zlog2 n) \<le> of_int n \<and> of_int n < pow2 (zlog2 n + 1)"
proof (induction n rule: zlog2.induct)
  case (1 n)
  show ?case
  proof (cases "n < 2")
    case True
    with "1.prems" have "n = 1" by simp
    then show ?thesis by (simp add: zlog2.simps [of 1] pow2_def)
  next
    case False
    let ?a = "pow2 (zlog2 (n div 2))"
    have h: "0 < n div 2" using False by (simp add: pos_imp_zdiv_pos_iff)
    from "1.IH" [OF False h] have IH: "?a \<le> of_int (n div 2)" "of_int (n div 2) < 2 * ?a"
      by (simp_all add: pow2_add pow2_def [of 1])
    have z: "zlog2 n = 1 + zlog2 (n div 2)" using False by (simp add: zlog2.simps [of n])
    have p: "pow2 (zlog2 n) = 2 * ?a" "pow2 (zlog2 n + 1) = 4 * ?a"
      by (simp_all add: z pow2_add pow2_def [of 1] pow2_def [of 2])
    have "2 * (n div 2) \<le> n" "n \<le> 2 * (n div 2) + 1" by linarith+
    then have "(of_int (2 * (n div 2)) :: rat) \<le> of_int n"
        "(of_int n :: rat) \<le> of_int (2 * (n div 2) + 1)"
      by (simp_all only: of_int_le_iff)
    then have n: "2 * (of_int (n div 2) :: rat) \<le> of_int n" "of_int n \<le> 2 * (of_int (n div 2) :: rat) + 1"
      by simp_all
    obtain k where k: "?a = of_int k"
    proof -
      have "0 \<le> zlog2 m" for m
        by (induction m rule: zlog2.induct) (simp add: zlog2.simps)
      then have "?a = of_int (2 ^ nat (zlog2 (n div 2)))" by (simp add: pow2_def)
      then show ?thesis by (rule that)
    qed
    have "n div 2 + 1 \<le> 2 * k"
    proof -
      have "(of_int (n div 2) :: rat) < of_int (2 * k)" using IH k by simp
      then have "n div 2 < 2 * k" by (simp only: of_int_less_iff)
      then show ?thesis by simp
    qed
    then have "(of_int (n div 2 + 1) :: rat) \<le> of_int (2 * k)" by (simp only: of_int_le_iff)
    with IH n k show ?thesis unfolding p by simp
  qed
qed

lemma rlog2_bounds:
  assumes "0 < r"
  shows "pow2 (rlog2 r) \<le> r \<and> r < pow2 (rlog2 r + 1)"
proof -
  obtain p q where pq: "quotient_of r = (p, q)" by (cases "quotient_of r")
  then have q: "0 < q" and r: "r = of_int p / of_int q"
    by (auto simp: quotient_of_denom_pos quotient_of_div)
  with assms have p: "0 < p" by (simp add: zero_less_divide_iff)
  let ?e = "zlog2 p - zlog2 q"
  note b = zlog2_bounds [OF p] zlog2_bounds [OF q]
  have q': "0 < (of_int q :: rat)" and p': "0 < (of_int p :: rat)" using p q by simp_all
  have up: "r < pow2 (?e + 1)"
  proof -
    have "of_int p / of_int q < pow2 (zlog2 p + 1) / pow2 (zlog2 q)"
      using b q' p' by (intro frac_less) auto
    moreover have "pow2 (?e + 1) = pow2 (zlog2 p + 1) / pow2 (zlog2 q)"
      by (simp add: pow2_diff [symmetric] algebra_simps)
    ultimately show ?thesis by (simp add: r)
  qed
  have lo: "pow2 (?e - 1) < r"
  proof -
    have "pow2 (zlog2 p) / pow2 (zlog2 q + 1) < of_int p / of_int q"
      using b q' p' by (intro frac_less2) auto
    moreover have "pow2 (?e - 1) = pow2 (zlog2 p) / pow2 (zlog2 q + 1)"
      by (simp add: pow2_diff [symmetric] algebra_simps)
    ultimately show ?thesis by (simp only: r)
  qed
  show ?thesis
    using up lo by (auto simp: rlog2_def pq Let_def)
qed

lemma rlog2_unique:
  assumes "pow2 e \<le> r" "r < pow2 (e + 1)"
  shows "rlog2 r = e"
proof -
  have r: "0 < r" using assms(1) pow2_pos [of e] by linarith
  from rlog2_bounds [OF r] assms have "pow2 (rlog2 r) < pow2 (e + 1)" "pow2 e < pow2 (rlog2 r + 1)"
    by linarith+
  then show ?thesis by (simp add: pow2_less_iff)
qed

lemma rlog2_mono: "0 < r \<Longrightarrow> r \<le> s \<Longrightarrow> rlog2 r \<le> rlog2 s"
proof -
  assume "0 < r" "r \<le> s"
  with rlog2_bounds [of r] rlog2_bounds [of s] have "pow2 (rlog2 r) < pow2 (rlog2 s + 1)"
    by linarith
  then show ?thesis by (simp add: pow2_less_iff)
qed

lemma round_even_of_int [simp]: "round_even (of_int n) = n"
  by (simp add: round_even_def)

lemma round_even_bounds: "floor x \<le> round_even x \<and> round_even x \<le> floor x + 1"
  by (simp add: round_even_def Let_def)

lemma round_even_mono: "x \<le> y \<Longrightarrow> round_even x \<le> round_even y"
proof -
  assume xy: "x \<le> y"
  then have f: "floor x \<le> floor y" by (rule floor_mono)
  show ?thesis
  proof (cases "floor x = floor y")
    case True
    with xy show ?thesis by (auto simp: round_even_def Let_def)
  next
    case False
    with f have "floor x + 1 \<le> floor y" by linarith
    with round_even_bounds [of x] round_even_bounds [of y] show ?thesis by linarith
  qed
qed

lemma round_even_ge: "of_int n \<le> x \<Longrightarrow> n \<le> round_even x"
  using round_even_mono [of "of_int n" x] by simp

lemma round_even_le: "x \<le> of_int n \<Longrightarrow> round_even x \<le> n"
  using round_even_mono [of x "of_int n"] by simp

lemma rnd_pos_nonneg: "0 \<le> r \<Longrightarrow> 0 \<le> rnd_pos r"
  unfolding rnd_pos_def
  by (intro mult_nonneg_nonneg) (auto intro: round_even_ge simp: less_imp_le)

lemma rnd_pos_mono:
  assumes "0 < r" "r \<le> s"
  shows "rnd_pos r \<le> rnd_pos s"
proof -
  let ?e = "\<lambda>r. max (rlog2 r) (- 1022)"
  have e: "?e r \<le> ?e s" using rlog2_mono [OF assms] by linarith
  show ?thesis
  proof (cases "?e r = ?e s")
    case True
    then have u: "ulp_exp r = ulp_exp s" by (simp add: ulp_exp_def)
    have "r / pow2 (ulp_exp s) \<le> s / pow2 (ulp_exp s)"
      using assms by (simp add: divide_right_mono less_imp_le)
    then have "round_even (r / pow2 (ulp_exp s)) \<le> round_even (s / pow2 (ulp_exp s))"
      by (rule round_even_mono)
    then show ?thesis
      unfolding rnd_pos_def u by (intro mult_right_mono) (auto simp: less_imp_le)
  next
    case False
    with e have lt: "?e r < ?e s" by linarith
    then have es: "?e s = rlog2 s" by linarith
    have "r < pow2 (rlog2 r + 1)" using rlog2_bounds assms by simp
    moreover have "pow2 (rlog2 r + 1) \<le> pow2 (?e s)" using lt by (intro pow2_mono) linarith
    moreover have "pow2 (?e s) = of_int (2 ^ 52) * pow2 (ulp_exp s)"
      by (simp add: ulp_exp_def pow2_diff pow2_def [of 52])
    ultimately have rs: "r \<le> pow2 (?e s)" by linarith
    have top: "pow2 (?e r + 1) = of_int (2 ^ 53) * pow2 (ulp_exp r)"
      by (simp add: ulp_exp_def pow2_diff pow2_add pow2_def [of 52] pow2_def [of 1])
    have "pow2 (rlog2 r + 1) \<le> pow2 (?e r + 1)" by (intro pow2_mono) linarith
    with \<open>r < pow2 (rlog2 r + 1)\<close> have "r \<le> of_int (2 ^ 53) * pow2 (ulp_exp r)"
      using top by linarith
    then have "r / pow2 (ulp_exp r) \<le> of_int (2 ^ 53)"
      by (simp add: pos_divide_le_eq)
    then have "round_even (r / pow2 (ulp_exp r)) \<le> 2 ^ 53" by (rule round_even_le)
    then have "(of_int (round_even (r / pow2 (ulp_exp r))) :: rat) \<le> of_int (2 ^ 53)"
      by (simp only: of_int_le_iff)
    then have A: "rnd_pos r \<le> of_int (2 ^ 53) * pow2 (ulp_exp r)"
      unfolding rnd_pos_def by (intro mult_right_mono) (auto simp: less_imp_le)
    have "pow2 (?e s) \<le> s" using rlog2_bounds [of s] assms es by simp
    then have "of_int (2 ^ 52) \<le> s / pow2 (ulp_exp s)"
      by (simp add: pos_le_divide_eq ulp_exp_def pow2_diff pow2_def [of 52])
    then have "2 ^ 52 \<le> round_even (s / pow2 (ulp_exp s))" by (rule round_even_ge)
    then have "(of_int (2 ^ 52) :: rat) \<le> of_int (round_even (s / pow2 (ulp_exp s)))"
      by (simp only: of_int_le_iff)
    then have B: "of_int (2 ^ 52) * pow2 (ulp_exp s) \<le> rnd_pos s"
      unfolding rnd_pos_def by (intro mult_right_mono) (auto simp: less_imp_le)
    have "pow2 (?e r + 1) \<le> pow2 (?e s)" using lt by (intro pow2_mono) linarith
    with A B top show ?thesis
      by (simp add: ulp_exp_def pow2_diff pow2_def [of 52])
  qed
qed

lemma rnd_pos_exact: "r / pow2 (ulp_exp r) = of_int n \<Longrightarrow> rnd_pos r = r"
  by (simp add: rnd_pos_def) (metis nonzero_eq_divide_eq pow2_neq0)

text \<open>Integers up to \<open>2 ^ 53\<close> are represented exactly.\<close>

lemma rnd_pos_int:
  assumes "0 < n" "n \<le> 2 ^ 53"
  shows "rnd_pos (of_int n) = of_int n"
proof (cases "n = 2 ^ 53")
  case True
  have "rlog2 (of_int n) = 53" using True by (intro rlog2_unique) (simp_all add: pow2_def)
  then show ?thesis
    using True by (intro rnd_pos_exact [of _ "2 ^ 52"]) (simp add: ulp_exp_def pow2_def)
next
  case False
  with assms have n: "n < 2 ^ 53" by simp
  have p: "0 < (of_int n :: rat)" using assms by simp
  have "pow2 (rlog2 (of_int n)) \<le> of_int n" "of_int n < pow2 (rlog2 (of_int n) + 1)"
    using rlog2_bounds [OF p] by auto
  moreover have "(of_int n :: rat) < of_int (2 ^ 53)" using n by (simp only: of_int_less_iff)
  moreover have "(1 :: rat) \<le> of_int n" using assms by simp
  ultimately have "pow2 (rlog2 (of_int n)) < pow2 53" "pow2 0 < pow2 (rlog2 (of_int n) + 1)"
    by (simp_all add: pow2_def [of 53] pow2_def [of 0])
  then have e: "0 \<le> rlog2 (of_int n)" "rlog2 (of_int n) \<le> 52"
    by (simp_all add: pow2_less_iff)
  then have u: "ulp_exp (of_int n) = rlog2 (of_int n) - 52" by (simp add: ulp_exp_def)
  have "(of_int n :: rat) / pow2 (ulp_exp (of_int n)) = of_int (n * 2 ^ nat (- ulp_exp (of_int n)))"
    using e u by (auto simp: pow2_def)
  then show ?thesis by (rule rnd_pos_exact)
qed

lemma rnd64_int: "\<bar>n\<bar> \<le> 2 ^ 53 \<Longrightarrow> rnd64 (of_int n) = Fin (of_int n)"
proof -
  assume n: "\<bar>n\<bar> \<le> 2 ^ 53"
  show ?thesis
  proof (cases "n = 0")
    case True
    then show ?thesis by (simp add: rnd64_def)
  next
    case False
    define v :: rat where "v = of_int \<bar>n\<bar>"
    have "\<bar>of_int n :: rat\<bar> = v" by (simp add: v_def)
    moreover have "rnd_pos v = v"
      unfolding v_def using n False by (intro rnd_pos_int) auto
    moreover have "v \<noteq> 0" using False by (simp add: v_def)
    moreover have "v < f64_limit"
    proof (rule f64_limit_gt)
      have "v \<le> of_int (2 ^ 53)" unfolding v_def using n by (simp only: of_int_le_iff)
      then show "v \<le> 2 ^ 53" by simp
    qed
    moreover have "sgn (of_int n) * v = of_int n"
      by (simp add: v_def sgn_if abs_if)
    ultimately show ?thesis using False
      unfolding rnd64_def Let_def by (simp only: of_int_eq_0_iff if_False not_le [symmetric])
  qed
qed

section \<open>Arithmetic and comparison\<close>

fun f_neg :: "f64 \<Rightarrow> bool" where
  "f_neg (Fin r) = (r < 0)"
| "f_neg NegZero = True"
| "f_neg (Infinite s) = s"
| "f_neg NaN = False"

text \<open>The rational a finite value stands for.\<close>

fun f_val :: "f64 \<Rightarrow> rat option" where
  "f_val (Fin r) = Some r"
| "f_val NegZero = Some 0"
| "f_val _ = None"

fun signed_zero :: "bool \<Rightarrow> f64" where
  "signed_zero True = NegZero"
| "signed_zero False = Fin 0"

definition f_mul :: "f64 \<Rightarrow> f64 \<Rightarrow> f64" where
  "f_mul a b =
     (if a = NaN \<or> b = NaN then NaN
      else let s = (f_neg a \<noteq> f_neg b)
           in case (f_val a, f_val b) of
                (Some x, Some y) \<Rightarrow> if x * y = 0 then signed_zero s else rnd64 (x * y)
              | (Some x, None) \<Rightarrow> if x = 0 then NaN else Infinite s
              | (None, Some y) \<Rightarrow> if y = 0 then NaN else Infinite s
              | (None, None) \<Rightarrow> Infinite s)"

definition f_sub :: "f64 \<Rightarrow> f64 \<Rightarrow> f64" where
  "f_sub a b =
     (if a = NaN \<or> b = NaN then NaN
      else case (f_val a, f_val b) of
             (Some x, Some y) \<Rightarrow>
               if x = y then (if a = NegZero \<and> b = Fin 0 then NegZero else Fin 0)
               else rnd64 (x - y)
           | (Some x, None) \<Rightarrow> Infinite (\<not> f_neg b)
           | (None, Some y) \<Rightarrow> a
           | (None, None) \<Rightarrow> if f_neg a = f_neg b then NaN else a)"

fun f_lt :: "f64 \<Rightarrow> f64 \<Rightarrow> bool" where
  "f_lt NaN _ = False"
| "f_lt _ NaN = False"
| "f_lt (Infinite s) (Infinite t) = (s \<and> \<not> t)"
| "f_lt (Infinite s) _ = s"
| "f_lt _ (Infinite t) = (\<not> t)"
| "f_lt a b = (the (f_val a) < the (f_val b))"

definition f_eq :: "f64 \<Rightarrow> f64 \<Rightarrow> bool" where
  "f_eq a b \<longleftrightarrow> a \<noteq> NaN \<and> b \<noteq> NaN \<and>
     (case (f_val a, f_val b) of (Some x, Some y) \<Rightarrow> x = y | _ \<Rightarrow> a = b)"

text \<open>\<open>math.Min\<close>.\<close>

definition f_min :: "f64 \<Rightarrow> f64 \<Rightarrow> f64" where
  "f_min x y =
     (if x = Infinite True \<or> y = Infinite True then Infinite True
      else if x = NaN \<or> y = NaN then NaN
      else if f_val x = Some 0 \<and> f_val y = Some 0 then (if f_neg x then x else y)
      else if f_lt x y then x else y)"

definition f_of_int :: "int \<Rightarrow> f64" where
  "f_of_int n = rnd64 (of_int n)"

text \<open>
  The conversion \<open>int64(v)\<close>: truncation towards zero; a value out of range (and NaN) gives
  the least \<open>int64\<close>, as the conversion instruction of amd64 does.
\<close>

definition trunc_rat :: "rat \<Rightarrow> int" where
  "trunc_rat r = (if 0 \<le> r then floor r else - floor (- r))"

definition f_to_i64 :: "f64 \<Rightarrow> int" where
  "f_to_i64 v =
     (case f_val v of
        None \<Rightarrow> min_i64
      | Some r \<Rightarrow> if in_i64 (trunc_rat r) then trunc_rat r else min_i64)"

lemma in_i64_f_to_i64: "in_i64 (f_to_i64 v)"
  by (auto simp: f_to_i64_def in_i64_def min_i64_def max_i64_def split: option.splits)

lemma f_to_i64_of_int: "\<bar>n\<bar> \<le> 2 ^ 53 \<Longrightarrow> f_to_i64 (f_of_int n) = n"
proof -
  assume n: "\<bar>n\<bar> \<le> 2 ^ 53"
  then have "in_i64 n" by (auto simp: in_i64_def min_i64_def max_i64_def)
  moreover have "trunc_rat (of_int n) = n"
    by (simp add: trunc_rat_def flip: of_int_minus)
  ultimately show ?thesis using n
    by (simp add: f_of_int_def rnd64_int f_to_i64_def)
qed

section \<open>\<open>math.Pow\<close> at an integer exponent\<close>

text \<open>
  The exponent the program passes is a converted \<open>int\<close>, so the loop of Go's \<open>math.Pow\<close> over the
  bits of an integral exponent is the whole computation: \<open>x = x1 * 2 ^ xe\<close> with
  \<open>1/2 \<le> x1 < 1\<close> (\<open>Frexp\<close>), the product kept as \<open>a1 * 2 ^ ae\<close>, and \<open>Ldexp\<close> at the end.
\<close>

definition frexp :: "rat \<Rightarrow> rat \<times> int" where
  "frexp r = (let e = rlog2 \<bar>r\<bar> + 1 in (r / pow2 e, e))"

function pow_loop :: "nat \<Rightarrow> f64 \<Rightarrow> int \<Rightarrow> f64 \<Rightarrow> int \<Rightarrow> f64 \<times> int" where
  "pow_loop i a1 ae x1 xe =
     (if i = 0 then (a1, ae)
      else if xe < - 4096 \<or> 4096 < xe then (a1, ae + xe)
      else let (a1', ae') = (if odd i then (f_mul a1 x1, ae + xe) else (a1, ae));
               sq = f_mul x1 x1; xe2 = 2 * xe
           in if f_lt sq (Fin (1 / 2)) then pow_loop (i div 2) a1' ae' (f_mul sq (Fin 2)) (xe2 - 1)
              else pow_loop (i div 2) a1' ae' sq xe2)"
  by pat_completeness auto
termination
  by (relation "measure (\<lambda>(i, _). i)") auto

declare pow_loop.simps [simp del]

definition ldexp :: "f64 \<Rightarrow> int \<Rightarrow> f64" where
  "ldexp a e =
     (case f_val a of
        None \<Rightarrow> a
      | Some r \<Rightarrow>
          if r = 0 then a
          else if rlog2 \<bar>r\<bar> + e < - 1075 then signed_zero (f_neg a)
          else if 1023 < rlog2 \<bar>r\<bar> + e then Infinite (f_neg a)
          else rnd64 (r * pow2 e))"

definition f_recip :: "f64 \<Rightarrow> f64" where
  "f_recip a =
     (case f_val a of
        Some r \<Rightarrow> if r = 0 then Infinite (f_neg a) else rnd64 (1 / r)
      | None \<Rightarrow> if a = NaN then NaN else signed_zero (f_neg a))"

definition math_pow :: "f64 \<Rightarrow> int \<Rightarrow> f64" where
  "math_pow x n =
     (if n = 0 \<or> x = Fin 1 then Fin 1
      else if n = 1 then x
      else case x of
        NaN \<Rightarrow> NaN
      | Infinite neg \<Rightarrow>
          if neg then (if 0 < n then Infinite (odd n) else signed_zero (odd n))
          else if n < 0 then Fin 0 else Infinite False
      | NegZero \<Rightarrow>
          if n < 0 then Infinite (odd n) else if odd n then NegZero else Fin 0
      | Fin r \<Rightarrow>
          if r = 0 then (if n < 0 then Infinite False else Fin 0)
          else let (x1, xe) = frexp r;
                   (a1, ae) = pow_loop (nat \<bar>n\<bar>) (Fin 1) 0 (Fin x1) xe
               in if n < 0 then ldexp (f_recip a1) (- ae) else ldexp a1 ae)"

text \<open>
  A positive finite base never gives NaN or a negative power: every factor of the loop is a
  positive rational of at most one, and rounding keeps it so.
\<close>

definition unit_pos :: "f64 \<Rightarrow> bool" where
  "unit_pos v \<longleftrightarrow> v = Fin 0 \<or> (\<exists>r. v = Fin r \<and> 0 < r \<and> r \<le> 1)"

lemma rnd_pos_le_one: "0 < r \<Longrightarrow> r \<le> 1 \<Longrightarrow> rnd_pos r \<le> 1"
  using rnd_pos_mono [of r 1] rnd_pos_int [of 1] by simp

lemma rnd64_unit: "0 \<le> r \<Longrightarrow> r \<le> 1 \<Longrightarrow> unit_pos (rnd64 r)"
proof -
  assume r: "0 \<le> r" "r \<le> 1"
  show ?thesis
  proof (cases "r = 0")
    case True
    then show ?thesis by (simp add: rnd64_def unit_pos_def)
  next
    case False
    with r have p: "0 < r" by simp
    with r have "rnd_pos r \<le> 1" "0 \<le> rnd_pos r" by (auto simp: rnd_pos_le_one rnd_pos_nonneg)
    moreover from \<open>rnd_pos r \<le> 1\<close> have "rnd_pos r < f64_limit" by (intro f64_limit_gt) simp
    ultimately have "\<not> f64_limit \<le> rnd_pos r" by linarith
    with p \<open>rnd_pos r \<le> 1\<close> \<open>0 \<le> rnd_pos r\<close> show ?thesis
      unfolding rnd64_def Let_def unit_pos_def by auto
  qed
qed

lemma f_mul_unit: "unit_pos a \<Longrightarrow> unit_pos b \<Longrightarrow> unit_pos (f_mul a b)"
proof -
  assume "unit_pos a" "unit_pos b"
  then obtain x y where a: "a = Fin x" "0 \<le> x" "x \<le> 1" and b: "b = Fin y" "0 \<le> y" "y \<le> 1"
    by (auto simp: unit_pos_def)
  then have "0 \<le> x * y" "x * y \<le> 1" by (auto intro: mult_le_one)
  then have "unit_pos (rnd64 (x * y))" by (rule rnd64_unit)
  with a b show ?thesis by (auto simp: f_mul_def Let_def unit_pos_def not_less)
qed

end
