(* ===== verification/Go_Float_Text.thy ===== *)
theory Go_Float_Text
  imports Go_Float
begin

text \<open>
  Text of \<open>float64\<close> values: the shortest decimal that reads back as the value
  (\<open>strconv.FormatFloat\<close> with precision -1) in the layouts \<open>f\<close>, \<open>e\<close> and \<open>g\<close>, and
  \<open>strconv.ParseFloat(s, 64)\<close> with its decimal, hexadecimal, underscore and special forms.
\<close>

section \<open>Shortest decimal\<close>

text \<open>The decimal exponent \<open>k\<close> of a positive rational with \<open>10 ^ k \<le> r < 10 ^ (k + 1)\<close>.\<close>

definition pow10 :: "int \<Rightarrow> rat" where
  "pow10 e = (if 0 \<le> e then 10 ^ nat e else 1 / 10 ^ nat (- e))"

function zlog10 :: "int \<Rightarrow> int" where
  "zlog10 n = (if n < 10 then 0 else 1 + zlog10 (n div 10))"
  by pat_completeness auto
termination
  by (relation "measure nat") auto

declare zlog10.simps [simp del]

definition rlog10 :: "rat \<Rightarrow> int" where
  "rlog10 r =
     (let (p, q) = quotient_of r; e = zlog10 p - zlog10 q
      in if pow10 e \<le> r then e else e - 1)"

text \<open>
  \<open>n\<close> significant digits: the neighbours of \<open>r\<close> with \<open>n\<close> digits that round to \<open>r\<close>, the closer
  one first. Seventeen digits always suffice for a binary64 value.
\<close>

definition digits_candidate :: "rat \<Rightarrow> nat \<Rightarrow> (int \<times> int) option" where
  "digits_candidate r n =
     (let e = rlog10 r + 1 - int n; x = r / pow10 e; lo = floor x; hi = lo + 1;
          ok = (\<lambda>c. rnd64 (of_int c * pow10 e) = Fin r);
          near = (if x - of_int lo \<le> 1 / 2 then [lo, hi] else [hi, lo])
      in map_option (\<lambda>c. (c, e)) (find ok near))"

fun shortest_from :: "rat \<Rightarrow> nat \<Rightarrow> nat \<Rightarrow> int \<times> int" where
  "shortest_from r n 0 = (floor (r / pow10 (rlog10 r - 16)), rlog10 r - 16)"
| "shortest_from r n (Suc k) =
     (case digits_candidate r n of Some ce \<Rightarrow> ce | None \<Rightarrow> shortest_from r (Suc n) k)"

function trim_zeros :: "int \<Rightarrow> int \<Rightarrow> int \<times> int" where
  "trim_zeros c e = (if 0 < c \<and> c mod 10 = 0 then trim_zeros (c div 10) (e + 1) else (c, e))"
  by pat_completeness auto
termination
  by (relation "measure (\<lambda>(c, e). nat c)") auto

declare trim_zeros.simps [simp del]

text \<open>The digits of a value and the position of its decimal point.\<close>

definition float_digits :: "f64 \<Rightarrow> string \<times> int" where
  "float_digits v =
     (case f_val v of
        Some r \<Rightarrow>
          if r = 0 then ([], 0)
          else let (c, e) = shortest_from \<bar>r\<bar> 1 17; (c', e') = trim_zeros c e;
                   ds = show_pos c'
               in (ds, int (length ds) + e')
      | None \<Rightarrow> ([], 0))"

section \<open>The layouts \<open>f\<close>, \<open>e\<close> and \<open>g\<close>\<close>

definition digit_at :: "string \<Rightarrow> int \<Rightarrow> char" where
  "digit_at ds i = (if 0 \<le> i \<and> i < int (length ds) then ds ! nat i else CHR ''0'')"

definition layout_f :: "string \<times> int \<Rightarrow> string" where
  "layout_f d =
     (let (ds, dp) = d; prec = max (int (length ds) - dp) 0
      in (if 0 < dp then map (\<lambda>i. digit_at ds (int i)) [0..<nat dp] else ''0'') @
         (if 0 < prec then CHR ''.'' # map (\<lambda>i. digit_at ds (dp + int i)) [0..<nat prec] else []))"

definition layout_e :: "string \<times> int \<Rightarrow> string" where
  "layout_e d =
     (let (ds, dp) = d; x = (if ds = [] then 0 else dp - 1);
          es = show_pos \<bar>x\<bar>
      in [digit_at ds 0] @ (if 1 < length ds then CHR ''.'' # tl ds else []) @
         [CHR ''e'', if x < 0 then CHR ''-'' else CHR ''+''] @
         (if length es < 2 then CHR ''0'' # es else es))"

definition layout_g :: "string \<times> int \<Rightarrow> string" where
  "layout_g d = (let x = snd d - 1 in if x < - 4 \<or> 6 \<le> x then layout_e d else layout_f d)"

definition format_float :: "(string \<times> int \<Rightarrow> string) \<Rightarrow> f64 \<Rightarrow> string" where
  "format_float layout v =
     (case v of
        NaN \<Rightarrow> ''NaN''
      | Infinite neg \<Rightarrow> if neg then ''-Inf'' else ''+Inf''
      | _ \<Rightarrow> (if f_neg v then ''-'' else []) @ layout (float_digits v))"

section \<open>\<open>ParseFloat\<close>\<close>

text \<open>
  The scanner keeps the digits read so far (an integer), the number of digits after the point,
  whether a point, a digit and an underscore were seen, and stops at the first other byte.
\<close>

definition hex_val :: "char \<Rightarrow> nat option" where
  "hex_val c =
     (case digit_val c of
        Some d \<Rightarrow> Some d
      | None \<Rightarrow> (let n = (of_char (to_lower c) :: nat)
                 in if 97 \<le> n \<and> n \<le> 102 then Some (n - 87) else None))"

fun scan_mantissa ::
  "bool \<Rightarrow> string \<Rightarrow> int \<Rightarrow> int \<Rightarrow> bool \<Rightarrow> bool \<Rightarrow> bool \<Rightarrow> int \<times> int \<times> bool \<times> bool \<times> string" where
  "scan_mantissa hex [] m fd dot dig und = (m, fd, dig, und, [])"
| "scan_mantissa hex (c # cs) m fd dot dig und =
     (if c = CHR ''_'' then scan_mantissa hex cs m fd dot dig True
      else if c = CHR ''.'' then
        (if dot then (m, fd, dig, und, c # cs) else scan_mantissa hex cs m fd True dig und)
      else (case (if hex then hex_val c else digit_val c) of
              None \<Rightarrow> (m, fd, dig, und, c # cs)
            | Some d \<Rightarrow>
                scan_mantissa hex cs ((if hex then 16 else 10) * m + int d)
                  (if dot then fd + 1 else fd) dot True und))"

fun scan_exponent :: "string \<Rightarrow> int \<Rightarrow> bool \<Rightarrow> int \<times> bool \<times> string" where
  "scan_exponent [] e und = (e, und, [])"
| "scan_exponent (c # cs) e und =
     (if c = CHR ''_'' then scan_exponent cs e True
      else (case digit_val c of
              None \<Rightarrow> (e, und, c # cs)
            | Some d \<Rightarrow> scan_exponent cs (if e < 10000 then 10 * e + int d else e) und))"

datatype saw = Saw_Start | Saw_Digit | Saw_Under | Saw_Other

fun underscore_scan :: "bool \<Rightarrow> saw \<Rightarrow> string \<Rightarrow> bool" where
  "underscore_scan hex saw [] = (saw \<noteq> Saw_Under)"
| "underscore_scan hex saw (c # cs) =
     (if is_digit c \<or> hex \<and> hex_val c \<noteq> None then underscore_scan hex Saw_Digit cs
      else if c = CHR ''_'' then saw = Saw_Digit \<and> underscore_scan hex Saw_Under cs
      else saw \<noteq> Saw_Under \<and> underscore_scan hex Saw_Other cs)"

text \<open>\<open>underscoreOK\<close> on a text whose sign is already removed.\<close>

definition underscore_ok :: "string \<Rightarrow> bool" where
  "underscore_ok s =
     (case s of
        z # x # cs \<Rightarrow>
          if z = CHR ''0'' \<and> to_lower x \<in> {CHR ''b'', CHR ''o'', CHR ''x''}
          then underscore_scan (to_lower x = CHR ''x'') Saw_Digit cs
          else underscore_scan False Saw_Start s
      | _ \<Rightarrow> underscore_scan False Saw_Start s)"

text \<open>The number after the sign: its exact value, when the whole text is one.\<close>

definition read_float :: "string \<Rightarrow> rat option" where
  "read_float s =
     (let (hex, body) =
        (case s of
           z # x # y # cs \<Rightarrow>
             if z = CHR ''0'' \<and> to_lower x = CHR ''x'' then (True, y # cs) else (False, s)
         | _ \<Rightarrow> (False, s));
          (m, fd, dig, und, rest) = scan_mantissa hex body 0 0 False False False;
          base = (if hex then - 4 * fd else - fd);
          scale = (\<lambda>e. if hex then pow2 e else pow10 e)
      in if \<not> dig then None
         else case rest of
           [] \<Rightarrow> if hex \<or> und \<and> \<not> underscore_ok s then None else Some (of_int m * scale base)
         | p # es \<Rightarrow>
             if to_lower p \<noteq> (if hex then CHR ''p'' else CHR ''e'') then None
             else let (esign, ds) =
                    (case es of
                       [] \<Rightarrow> (1, [])
                     | c # cs \<Rightarrow> if c = CHR ''+'' then (1, cs)
                                else if c = CHR ''-'' then (- 1, cs) else (1, es))
                  in if ds = [] \<or> \<not> is_digit (hd ds) then None
                     else let (e, und', rest') = scan_exponent ds 0 und
                          in if rest' \<noteq> [] \<or> und' \<and> \<not> underscore_ok s then None
                             else if m = 0 then Some 0
                             else Some (of_int m * scale (base + esign * e)))"

definition parse_float :: "string \<Rightarrow> f64 option" where
  "parse_float s =
     (let (neg, signed, body) =
        (case s of
           [] \<Rightarrow> (False, False, [])
         | c # cs \<Rightarrow> if c = CHR ''-'' then (True, True, cs)
                    else if c = CHR ''+'' then (False, True, cs) else (False, False, s));
          low = map to_lower body
      in if low = ''inf'' \<or> low = ''infinity'' then Some (Infinite neg)
         else if low = ''nan'' \<and> \<not> signed then Some NaN
         else case read_float body of
                None \<Rightarrow> None
              | Some r \<Rightarrow>
                  (case (if r = 0 then signed_zero neg else rnd64 (if neg then - r else r)) of
                     Infinite _ \<Rightarrow> None
                   | v \<Rightarrow> Some v))"

end
