(* ===== verification/Go_Time.thy ===== *)
theory Go_Time
  imports Go_Strings
begin

text \<open>
  \<open>time.Unix(n, 0).UTC().Format(layout)\<close>: the civil date of a count of seconds, computed from
  the absolute zero year as Go's \<open>time\<close> package does, and the scanner of layout elements
  (\<open>2006\<close>, \<open>01\<close>, \<open>02\<close>, \<open>15\<close>, \<dots>). A byte that starts no element is copied.
\<close>

section \<open>Civil date and clock\<close>

record civil =
  c_year :: int
  c_yday :: int
  c_month :: int
  c_day :: int
  c_wday :: int
  c_hour :: int
  c_min :: int
  c_sec :: int

text \<open>Seconds from the absolute zero year to the Unix epoch; the sum is a 64-bit word.\<close>

definition abs_seconds :: "int \<Rightarrow> int" where
  "abs_seconds n = (n + 9223372028715321600) mod 18446744073709551616"

definition days_before :: "int list" where
  "days_before = [0, 31, 59, 90, 120, 151, 181, 212, 243, 273, 304, 334, 365]"

definition is_leap :: "int \<Rightarrow> bool" where
  "is_leap y \<longleftrightarrow> y mod 4 = 0 \<and> (y mod 100 \<noteq> 0 \<or> y mod 400 = 0)"

definition month_day :: "int \<Rightarrow> int \<Rightarrow> int \<times> int" where
  "month_day y yday =
     (if is_leap y \<and> yday = 59 then (2, 29)
      else let d = (if is_leap y \<and> 59 < yday then yday - 1 else yday);
               m = d div 31; top = days_before ! nat (m + 1)
           in if top \<le> d then (m + 2, d - top + 1)
              else (m + 1, d - days_before ! nat m + 1))"

definition civil_of_unix :: "int \<Rightarrow> civil" where
  "civil_of_unix n =
     (let s = abs_seconds n; d0 = s div 86400; t = s mod 86400;
          n400 = d0 div 146097; d1 = d0 - 146097 * n400;
          q100 = d1 div 36524; n100 = q100 - q100 div 4; d2 = d1 - 36524 * n100;
          n4 = d2 div 1461; d3 = d2 - 1461 * n4;
          q1 = d3 div 365; n1 = q1 - q1 div 4; yday = d3 - 365 * n1;
          y = 400 * n400 + 100 * n100 + 4 * n4 + n1 - 292277022399;
          (m, d) = month_day y yday
      in \<lparr>c_year = y, c_yday = yday + 1, c_month = m, c_day = d,
          c_wday = (s + 86400) mod 604800 div 86400,
          c_hour = t div 3600, c_min = t mod 3600 div 60, c_sec = t mod 60\<rparr>)"

section \<open>Layout elements\<close>

datatype elem =
    LongMonth | ShortMonth | NumMonth | ZeroMonth | LongWeekDay | WeekDay | Day | UnderDay | ZeroDay
  | UnderYearDay | ZeroYearDay | Hour | Hour12 | ZeroHour12 | Minute | ZeroMinute | Second
  | ZeroSecond | LongYear | Year | PM | Pm | TZ | ISO_TZ | NumTZ string | Frac0 char nat | Frac9

definition digits_run :: "char \<Rightarrow> string \<Rightarrow> nat" where
  "digits_run c s = length (takeWhile (\<lambda>x. x = c) s)"

text \<open>
  The element at the start of a layout, with the literal text it may carry and the rest
  (\<open>nextStdChunk\<close> at one position).
\<close>

definition first_of :: "(string \<times> elem) list \<Rightarrow> string \<Rightarrow> (elem \<times> string) option" where
  "first_of table s =
     (case filter (\<lambda>(p, _). has_prefix s p) table of
        [] \<Rightarrow> None
      | (p, e) # _ \<Rightarrow> Some (e, drop (length p) s))"

definition elem_table :: "(string \<times> elem) list" where
  "elem_table =
     [(''January'', LongMonth), (''Monday'', LongWeekDay), (''MST'', TZ),
      (''01'', ZeroMonth), (''02'', ZeroDay), (''03'', ZeroHour12), (''04'', ZeroMinute),
      (''05'', ZeroSecond), (''06'', Year), (''002'', ZeroYearDay),
      (''15'', Hour), (''1'', NumMonth), (''2006'', LongYear), (''2'', Day),
      (''_2006'', LongYear), (''_2'', UnderDay), (''__2'', UnderYearDay),
      (''3'', Hour12), (''4'', Minute), (''5'', Second), (''PM'', PM), (''pm'', Pm),
      (''-070000'', NumTZ ''+000000''), (''-07:00:00'', NumTZ ''+00:00:00''),
      (''-0700'', NumTZ ''+0000''), (''-07:00'', NumTZ ''+00:00''), (''-07'', NumTZ ''+00''),
      (''Z070000'', ISO_TZ), (''Z07:00:00'', ISO_TZ), (''Z0700'', ISO_TZ), (''Z07:00'', ISO_TZ),
      (''Z07'', ISO_TZ)]"

definition starts_lower :: "string \<Rightarrow> bool" where
  "starts_lower s \<longleftrightarrow> s \<noteq> [] \<and> is_lower (hd s)"

definition short_name :: "string \<Rightarrow> (elem \<times> string) option" where
  "short_name s =
     (if has_prefix s ''Jan'' \<and> \<not> starts_lower (drop 3 s) then Some (ShortMonth, drop 3 s)
      else if has_prefix s ''Mon'' \<and> \<not> starts_lower (drop 3 s) then Some (WeekDay, drop 3 s)
      else None)"

definition fraction :: "string \<Rightarrow> (elem \<times> string) option" where
  "fraction s =
     (case s of
        p # c # _ \<Rightarrow>
          if (p = CHR ''.'' \<or> p = CHR '','') \<and> (c = CHR ''0'' \<or> c = CHR ''9'')
          then let k = digits_run c (tl s); rest = drop (Suc k) s
               in if rest \<noteq> [] \<and> is_digit (hd rest) then None
                  else Some (if c = CHR ''0'' then Frac0 p k else Frac9, rest)
          else None
      | _ \<Rightarrow> None)"

definition next_elem :: "string \<Rightarrow> (elem \<times> string) option" where
  "next_elem s =
     (case first_of elem_table s of
        Some r \<Rightarrow> Some r
      | None \<Rightarrow> (case short_name s of Some r \<Rightarrow> Some r | None \<Rightarrow> fraction s))"

section \<open>Formatting\<close>

definition months :: "string list" where
  "months = [''January'', ''February'', ''March'', ''April'', ''May'', ''June'', ''July'',
             ''August'', ''September'', ''October'', ''November'', ''December'']"

definition weekdays :: "string list" where
  "weekdays = [''Sunday'', ''Monday'', ''Tuesday'', ''Wednesday'', ''Thursday'', ''Friday'',
               ''Saturday'']"

definition pad :: "char \<Rightarrow> nat \<Rightarrow> int \<Rightarrow> string" where
  "pad c w n = (let s = show_pos \<bar>n\<bar>
               in (if n < 0 then ''-'' else []) @ replicate (w - length s) c @ s)"

definition hour12 :: "int \<Rightarrow> int" where
  "hour12 h = (if h mod 12 = 0 then 12 else h mod 12)"

fun show_elem :: "civil \<Rightarrow> elem \<Rightarrow> string" where
  "show_elem c LongMonth = months ! nat (c_month c - 1)"
| "show_elem c ShortMonth = take 3 (months ! nat (c_month c - 1))"
| "show_elem c NumMonth = pad CHR ''0'' 0 (c_month c)"
| "show_elem c ZeroMonth = pad CHR ''0'' 2 (c_month c)"
| "show_elem c LongWeekDay = weekdays ! nat (c_wday c)"
| "show_elem c WeekDay = take 3 (weekdays ! nat (c_wday c))"
| "show_elem c Day = pad CHR ''0'' 0 (c_day c)"
| "show_elem c UnderDay = pad CHR '' '' 2 (c_day c)"
| "show_elem c ZeroDay = pad CHR ''0'' 2 (c_day c)"
| "show_elem c UnderYearDay = pad CHR '' '' 3 (c_yday c)"
| "show_elem c ZeroYearDay = pad CHR ''0'' 3 (c_yday c)"
| "show_elem c Hour = pad CHR ''0'' 2 (c_hour c)"
| "show_elem c Hour12 = pad CHR ''0'' 0 (hour12 (c_hour c))"
| "show_elem c ZeroHour12 = pad CHR ''0'' 2 (hour12 (c_hour c))"
| "show_elem c Minute = pad CHR ''0'' 0 (c_min c)"
| "show_elem c ZeroMinute = pad CHR ''0'' 2 (c_min c)"
| "show_elem c Second = pad CHR ''0'' 0 (c_sec c)"
| "show_elem c ZeroSecond = pad CHR ''0'' 2 (c_sec c)"
| "show_elem c LongYear = pad CHR ''0'' 4 (c_year c)"
| "show_elem c Year = pad CHR ''0'' 2 ((if c_year c < 0 then 0 else c_year c) mod 100)"
| "show_elem c PM = (if 12 \<le> c_hour c then ''PM'' else ''AM'')"
| "show_elem c Pm = (if 12 \<le> c_hour c then ''pm'' else ''am'')"
| "show_elem c TZ = ''UTC''"
| "show_elem c ISO_TZ = ''Z''"
| "show_elem c (NumTZ z) = z"
| "show_elem c (Frac0 p k) = p # replicate k CHR ''0''"
| "show_elem c Frac9 = []"

text \<open>The fuel is the length of the layout: every round consumes at least one byte.\<close>

fun format_layout :: "nat \<Rightarrow> civil \<Rightarrow> string \<Rightarrow> string" where
  "format_layout 0 c s = []"
| "format_layout (Suc k) c s =
     (case s of
        [] \<Rightarrow> []
      | x # xs \<Rightarrow>
          (case next_elem s of
             None \<Rightarrow> x # format_layout k c xs
           | Some (e, rest) \<Rightarrow>
               (if has_prefix s ''_2006'' then ''_'' else []) @ show_elem c e @ format_layout k c rest))"

definition time_format :: "int \<Rightarrow> string \<Rightarrow> string" where
  "time_format n layout = format_layout (length layout) (civil_of_unix n) layout"

text \<open>A layout in which no element starts anywhere is copied unchanged.\<close>

fun no_elem :: "string \<Rightarrow> bool" where
  "no_elem [] = True"
| "no_elem (x # xs) = (next_elem (x # xs) = None \<and> no_elem xs)"

lemma format_no_elem: "no_elem s \<Longrightarrow> length s \<le> k \<Longrightarrow> format_layout k c s = s"
proof (induction s arbitrary: k)
  case Nil
  then show ?case by (cases k) auto
next
  case (Cons x xs)
  then obtain k' where "k = Suc k'" by (cases k) auto
  with Cons show ?case by auto
qed

lemma time_format_no_elem: "no_elem layout \<Longrightarrow> time_format n layout = layout"
  by (simp add: time_format_def format_no_elem)

end
