(* ===== verification/Go_Value.thy ===== *)
theory Go_Value
  imports Go_Float_Text Go_Time
begin

text \<open>
  Go values of type \<open>any\<close> as JSON and YAML decoding produce them, their type names, the default
  format \<open>%v\<close>, and \<open>json.Marshal\<close>; errors as the format string and arguments they were built
  from, so that every error of the program is a value of its own.
\<close>

section \<open>Dynamic values\<close>

text \<open>
  \<open>VNilMap\<close> is the nil value of type \<open>map[string]any\<close>, which reads as an empty map but is
  printed as \<open>null\<close> by \<open>json.Marshal\<close>.
\<close>

datatype gval =
    VNil
  | VBool bool
  | VInt int
  | VInt64 int
  | VFloat f64
  | VStr string
  | VList "gval list"
  | VMap "(string \<times> gval) list"
  | VNilMap

fun type_name :: "gval \<Rightarrow> string" where
  "type_name VNil = ''<nil>''"
| "type_name (VBool _) = ''bool''"
| "type_name (VInt _) = ''int''"
| "type_name (VInt64 _) = ''int64''"
| "type_name (VFloat _) = ''float64''"
| "type_name (VStr _) = ''string''"
| "type_name (VList _) = ''[]interface {}''"
| "type_name (VMap _) = ''map[string]interface {}''"
| "type_name VNilMap = ''map[string]interface {}''"

text \<open>The type assertions \<open>v.(map[string]any)\<close>, \<open>v.([]any)\<close> and \<open>v.(string)\<close>.\<close>

fun as_map :: "gval \<Rightarrow> (string, gval) gomap option" where
  "as_map (VMap m) = Some m"
| "as_map VNilMap = Some []"
| "as_map _ = None"

fun as_list :: "gval \<Rightarrow> gval list option" where
  "as_list (VList vs) = Some vs"
| "as_list _ = None"

fun as_string :: "gval \<Rightarrow> string option" where
  "as_string (VStr s) = Some s"
| "as_string _ = None"

text \<open>A \<open>map[string]any\<close>, possibly nil, stored in an \<open>any\<close>.\<close>

definition map_value :: "(string, gval) gomap option \<Rightarrow> gval" where
  "map_value m = (case m of Some kvs \<Rightarrow> VMap kvs | None \<Rightarrow> VNilMap)"

lemma as_map_Some: "as_map v = Some m \<longleftrightarrow> v = VMap m \<or> v = VNilMap \<and> m = []"
  by (cases v) auto

lemma as_list_Some: "as_list v = Some vs \<longleftrightarrow> v = VList vs"
  by (cases v) auto

lemma as_string_Some: "as_string v = Some s \<longleftrightarrow> v = VStr s"
  by (cases v) auto

text \<open>Every map inside a value has one entry per key, every integer is in range.\<close>

fun wf_gval :: "gval \<Rightarrow> bool" where
  "wf_gval (VList vs) = list_all wf_gval vs"
| "wf_gval (VMap m) = (distinct (map fst m) \<and> list_all (\<lambda>(k, v). wf_gval v) m)"
| "wf_gval (VInt i) = in_i64 i"
| "wf_gval (VInt64 i) = in_i64 i"
| "wf_gval _ = True"

lemma gval_size_entry: "(k, v) \<in> set m \<Longrightarrow> size v < size (VMap m)"
  by (induction m) auto

lemma gval_size_elem: "v \<in> set vs \<Longrightarrow> size v < size (VList vs)"
  by (induction vs) auto

lemma gval_size_get: "gm_get m k = Some v \<Longrightarrow> size v < size (VMap m)"
  by (drule gm_get_Some_in) (rule gval_size_entry)

section \<open>The format \<open>%v\<close>\<close>

fun sep_by :: "string \<Rightarrow> string list \<Rightarrow> string" where
  "sep_by _ [] = []"
| "sep_by _ [x] = x"
| "sep_by sep (x # xs) = x @ sep @ sep_by sep xs"

fun sprint_v :: "gval \<Rightarrow> string" where
  "sprint_v VNil = ''<nil>''"
| "sprint_v (VBool b) = show_bool b"
| "sprint_v (VInt i) = show_int i"
| "sprint_v (VInt64 i) = show_int i"
| "sprint_v (VFloat f) = format_float layout_g f"
| "sprint_v (VStr s) = s"
| "sprint_v (VList vs) = ''['' @ sep_by '' '' (map sprint_v vs) @ '']''"
| "sprint_v (VMap m) =
     ''map['' @ sep_by '' '' (map (\<lambda>(k, s). k @ '':'' @ s)
                          (sort_entries (map (\<lambda>(k, v). (k, sprint_v v)) m))) @ '']''"
| "sprint_v VNilMap = ''map[]''"

section \<open>Errors\<close>

text \<open>
  \<open>Errorf f args\<close> is \<open>fmt.Errorf(f, args)\<close>; an \<open>ArgErr\<close> is an argument wrapped with \<open>%w\<close>.
  \<open>ErrExternal\<close> stands for an error made by code outside the repository.
\<close>

datatype arg =
    ArgStr string
  | ArgInt int
  | ArgType string
  | ArgVal gval
  | ArgFloat f64
  | ArgErr go_error
and go_error =
    Errorf string "arg list"
  | ErrNotConfigured
  | ErrEventNotFound string
  | ErrSchemaValidation "(string \<times> string \<times> arg list) list"
  | ErrExternal string

section \<open>\<open>json.Marshal\<close>\<close>

definition byte_in :: "char \<Rightarrow> nat \<Rightarrow> nat \<Rightarrow> bool" where
  "byte_in c lo hi \<longleftrightarrow> (let n = (of_char c :: nat) in lo \<le> n \<and> n \<le> hi)"

text \<open>The length of the UTF-8 sequence at the start of a non-ASCII text, 0 where it is invalid.\<close>

definition utf8_len :: "string \<Rightarrow> nat" where
  "utf8_len s =
     (case s of
        a # b # r \<Rightarrow>
          if byte_in a 194 223 \<and> byte_in b 128 191 then 2
          else (case r of
            c # r' \<Rightarrow>
              if (byte_in a 224 224 \<and> byte_in b 160 191 \<or>
                  (byte_in a 225 236 \<or> byte_in a 238 239) \<and> byte_in b 128 191 \<or>
                  byte_in a 237 237 \<and> byte_in b 128 159) \<and> byte_in c 128 191 then 3
              else (case r' of
                d # _ \<Rightarrow>
                  if (byte_in a 240 240 \<and> byte_in b 144 191 \<or>
                      byte_in a 241 243 \<and> byte_in b 128 191 \<or>
                      byte_in a 244 244 \<and> byte_in b 128 143) \<and>
                     byte_in c 128 191 \<and> byte_in d 128 191 then 4 else 0
              | [] \<Rightarrow> 0)
          | [] \<Rightarrow> 0)
      | _ \<Rightarrow> 0)"

definition hex_digit :: "nat \<Rightarrow> char" where
  "hex_digit d = ''0123456789abcdef'' ! d"

definition json_escape :: "char \<Rightarrow> string" where
  "json_escape c =
     (let n = (of_char c :: nat); bs = CHR 0x5C
      in if n = 34 \<or> n = 92 then [bs, c]
         else if n = 10 then [bs, CHR ''n'']
         else if n = 13 then [bs, CHR ''r'']
         else if n = 9 then [bs, CHR ''t'']
         else if n < 32 \<or> n = 60 \<or> n = 62 \<or> n = 38
           then [bs, CHR ''u'', CHR ''0'', CHR ''0'', hex_digit (n div 16), hex_digit (n mod 16)]
         else [c])"

function json_chars :: "string \<Rightarrow> string" where
  "json_chars [] = []"
| "json_chars (c # cs) =
     (if (of_char c :: nat) < 128 then json_escape c @ json_chars cs
      else let n = utf8_len (c # cs)
           in if n = 0 then CHR 0x5C # ''ufffd'' @ json_chars cs
              else if n = 3 \<and> take 2 (c # cs) = [CHR 0xE2, CHR 0x80] \<and> byte_in (cs ! 1) 168 169
                then CHR 0x5C # ''u202'' @ [hex_digit ((of_char (cs ! 1) :: nat) - 160)] @
                     json_chars (drop 2 cs)
              else take n (c # cs) @ json_chars (drop (n - 1) cs))"
  by pat_completeness auto
termination
  by (relation "measure length") auto

definition json_string :: "string \<Rightarrow> string" where
  "json_string s = CHR 0x22 # json_chars s @ [CHR 0x22]"

text \<open>A float is printed without exponent between 1e-6 and 1e21, else with a short exponent.\<close>

definition shorten_exp :: "string \<Rightarrow> string" where
  "shorten_exp s =
     (case rev s of
        d # z # m # e # r \<Rightarrow>
          if e = CHR ''e'' \<and> m = CHR ''-'' \<and> z = CHR ''0'' then rev (d # m # e # r) else s
      | _ \<Rightarrow> s)"

definition json_float :: "f64 \<Rightarrow> string option" where
  "json_float v =
     (case f_val v of
        None \<Rightarrow> None
      | Some r \<Rightarrow>
          if r \<noteq> 0 \<and> (f_lt (Fin \<bar>r\<bar>) (rnd64 (1 / 1000000)) \<or> 1000000000000000000000 \<le> \<bar>r\<bar>)
          then Some (shorten_exp (format_float layout_e v))
          else Some (format_float layout_f v))"

definition json_entry :: "string \<times> string \<Rightarrow> string" where
  "json_entry p = json_string (fst p) @ '':'' @ snd p"

fun json_marshal :: "gval \<Rightarrow> go_error + string" where
  "json_marshal VNil = Inr ''null''"
| "json_marshal (VBool b) = Inr (show_bool b)"
| "json_marshal (VInt i) = Inr (show_int i)"
| "json_marshal (VInt64 i) = Inr (show_int i)"
| "json_marshal (VFloat f) =
     (case json_float f of
        None \<Rightarrow> Inl (Errorf ''json: unsupported value: %s'' [ArgFloat f])
      | Some s \<Rightarrow> Inr s)"
| "json_marshal (VStr s) = Inr (json_string s)"
| "json_marshal (VList vs) =
     (case traverse json_marshal vs of
        Inl e \<Rightarrow> Inl e
      | Inr ss \<Rightarrow> Inr (''['' @ sep_by '','' ss @ '']''))"
| "json_marshal (VMap m) =
     (case traverse (\<lambda>(k, v). case json_marshal v of Inl e \<Rightarrow> Inl e | Inr s \<Rightarrow> Inr (k, s)) m of
        Inl e \<Rightarrow> Inl e
      | Inr kss \<Rightarrow> Inr (''{'' @ sep_by '','' (map json_entry (sort_entries kss)) @ ''}''))"
| "json_marshal VNilMap = Inr ''null''"

text \<open>Values without NaN and infinities are the ones \<open>json.Marshal\<close> accepts.\<close>

fun json_able :: "gval \<Rightarrow> bool" where
  "json_able (VFloat f) = (f_val f \<noteq> None)"
| "json_able (VList vs) = list_all json_able vs"
| "json_able (VMap m) = list_all (\<lambda>(k, v). json_able v) m"
| "json_able _ = True"

end
