(* ===== verification/Port_Model.thy ===== *)
theory Port_Model
  imports Go_Value
begin

text \<open>
  The types the components exchange: \<open>internal/port/config.go\<close> (vendor, mapping, retry and
  judgment configuration) and \<open>internal/model\<close> (notifications and delivery tasks).
  A Go pointer that may be nil is an \<open>option\<close>.
\<close>

section \<open>Configuration (\<open>internal/port/config.go\<close>)\<close>

record auth_config =
  ac_type :: string
  ac_config :: "(string, gval) gomap"

record retry_policy =
  rp_max_attempts :: int
  rp_base_delay_ms :: int
  rp_max_delay_ms :: int
  rp_multiplier :: f64
  rp_jitter :: f64

record response_rule =
  rr_judge_type :: string
  rr_field :: string
  rr_expected :: gval
  rr_expected_status :: int

record response_judgment =
  rj_success_rules :: "response_rule list"
  rj_retryable_rules :: "response_rule list"

record vendor_config =
  vc_vendor_id :: string
  vc_base_url :: string
  vc_auth :: "auth_config option"
  vc_retry :: retry_policy
  vc_judgment :: response_judgment

record request_config =
  rq_method :: string
  rq_path :: string
  rq_headers :: "(string, string) gomap"

record routing_rule =
  rl_event_type :: string
  rl_vendor_id :: string

text \<open>The plugin fields of a body are never read; a template is nil or a map.\<close>

record body_config =
  bc_type :: string
  bc_template :: "(string, gval) gomap option"

record mapping_config =
  mc_event_type :: string
  mc_request :: request_config
  mc_body :: body_config

record delivery_spec =
  ds_mapping :: mapping_config
  ds_judgment :: "response_judgment option"
  ds_retry :: "retry_policy option"

section \<open>Records of the database (\<open>internal/model\<close>)\<close>

text \<open>Times are microseconds, the resolution of the database's timestamps.\<close>

record notification =
  n_id :: string
  n_shard_id :: int
  n_caller_id :: string
  n_idempotent_key :: string
  n_event_type :: string
  n_payload :: "(string, gval) gomap option"
  n_status :: string
  n_created_at :: int
  n_updated_at :: int

record upsert_params =
  up_caller_id :: string
  up_event_type :: string
  up_idempotent_key :: string
  up_payload :: "(string, gval) gomap option"

text \<open>
  The text written to \<open>last_error\<close>: empty, the text of an error, or the status line of a
  vendor's response.
\<close>

datatype last_error = No_Error | Error_Text go_error | Status_Line string

record delivery_task =
  t_id :: string
  t_shard_id :: int
  t_notification_id :: string
  t_event_type :: string
  t_vendor_id :: string
  t_status :: string
  t_retry_count :: int
  t_max_retries :: int
  t_next_retry_at :: "int option"
  t_last_error :: last_error
  t_created_at :: int
  t_updated_at :: int

end
