(* ===== verification/Mapping_Ref.thy ===== *)
theory Mapping_Ref
  imports Port_Model
begin

text \<open>
  The reference language of \<open>internal/mapping/engine.go\<close>: recognising \<open>{payload:path}\<close> and
  \<open>{item:path}\<close> after an at sign (\<open>resolveRefRe\<close>), walking a dotted path (\<open>getNestedField\<close>), and
  \<open>resolveField\<close> with its three forms. The lemmas give the reference grammar: what a template
  made of literal text and references resolves to.
\<close>

section \<open>The context of a template\<close>

text \<open>
  \<open>resolveContext\<close>: the notification's payload (\<open>None\<close> is a nil map) and the current element of
  an \<open>$each\<close> loop (\<open>VNil\<close> outside).
\<close>

record resolve_context =
  rc_payload :: "(string, gval) gomap option"
  rc_item :: gval

definition ctx_lookup :: "resolve_context \<Rightarrow> string \<Rightarrow> (string, gval) gomap" where
  "ctx_lookup c scope =
     (if scope = ''payload'' then (case rc_payload c of Some m \<Rightarrow> m | None \<Rightarrow> [])
      else if scope = ''item'' then (case as_map (rc_item c) of Some m \<Rightarrow> m | None \<Rightarrow> [])
      else [])"

definition get_scope_value :: "string \<Rightarrow> resolve_context \<Rightarrow> gval" where
  "get_scope_value scope c =
     (if scope = ''payload'' then map_value (rc_payload c)
      else if scope = ''item'' then rc_item c
      else VNil)"

section \<open>Values as text\<close>

definition tostring :: "gval \<Rightarrow> string" where
  "tostring v =
     (case v of
        VNil \<Rightarrow> []
      | VStr s \<Rightarrow> s
      | VInt i \<Rightarrow> show_int i
      | VInt64 i \<Rightarrow> show_int i
      | VFloat f \<Rightarrow> format_float layout_f f
      | VBool b \<Rightarrow> show_bool b
      | _ \<Rightarrow> sprint_v v)"

section \<open>Dotted paths\<close>

text \<open>The loop over \<open>strings.Split(path, ".")\<close>; the last part is returned, the others must be maps.\<close>

fun walk_parts :: "(string, gval) gomap \<Rightarrow> string list \<Rightarrow> gval" where
  "walk_parts current [] = VNil"
| "walk_parts current (part # parts) =
     (case gm_get current part of
        None \<Rightarrow> VNil
      | Some v \<Rightarrow>
          if parts = [] then v
          else (case as_map v of None \<Rightarrow> VNil | Some m \<Rightarrow> walk_parts m parts))"

definition get_nested_field :: "(string, gval) gomap \<Rightarrow> string \<Rightarrow> gval" where
  "get_nested_field data path = (if path = [] then VNil else walk_parts data (split_on CHR ''.'' path))"

section \<open>Recognising references\<close>

text \<open>
  \<open>resolveRefRe\<close> anchored at the start of a text: an at sign, an opening brace, a scope, optionally a colon and a
  nonempty path without a closing brace, and the closing brace. The result is the scope, the
  path (empty when absent) and the text after the match.
\<close>

abbreviation at_ref :: "string \<Rightarrow> string" where
  "at_ref s \<equiv> CHR ''@'' # s"

definition match_tail :: "string \<Rightarrow> (string \<times> string) option" where
  "match_tail s =
     (case s of
        [] \<Rightarrow> None
      | c # cs \<Rightarrow>
          if c = CHR ''}'' then Some ([], cs)
          else if c = CHR '':'' then
            (let p = takeWhile (\<lambda>x. x \<noteq> CHR ''}'') cs; r = dropWhile (\<lambda>x. x \<noteq> CHR ''}'') cs
             in if p = [] \<or> r = [] then None else Some (p, tl r))
          else None)"

definition match_ref :: "string \<Rightarrow> (string \<times> string \<times> string) option" where
  "match_ref s =
     (case strip_prefix (at_ref ''{payload'') s of
        Some r \<Rightarrow> map_option (\<lambda>(p, rest). (''payload'', p, rest)) (match_tail r)
      | None \<Rightarrow>
          (case strip_prefix (at_ref ''{item'') s of
             Some r \<Rightarrow> map_option (\<lambda>(p, rest). (''item'', p, rest)) (match_tail r)
           | None \<Rightarrow> None))"

lemma match_tail_shorter: "match_tail s = Some (p, rest) \<Longrightarrow> length rest < length s"
  by (auto simp: match_tail_def Let_def split: list.splits if_splits)
    (metis length_dropWhile_le length_tl diff_le_self le_trans less_Suc_eq_le)

lemma match_ref_shorter: "match_ref s = Some (scope, p, rest) \<Longrightarrow> length rest < length s"
  by (auto simp: match_ref_def split: option.splits dest!: match_tail_shorter strip_prefix_length)

lemma match_ref_starts: "match_ref s = Some r \<Longrightarrow> \<exists>t. s = CHR ''@'' # t"
  by (auto simp: match_ref_def split: option.splits dest!: strip_prefix_Some [THEN iffD1])

lemma match_ref_no_at: "s = [] \<or> hd s \<noteq> CHR ''@'' \<Longrightarrow> match_ref s = None"
  using match_ref_starts [of s] by (cases "match_ref s") auto

text \<open>\<open>FindStringIndex\<close>: is there a match anywhere?\<close>

fun has_ref :: "string \<Rightarrow> bool" where
  "has_ref [] = False"
| "has_ref (c # cs) = (match_ref (c # cs) \<noteq> None \<or> has_ref cs)"

text \<open>\<open>ReplaceAllStringFunc\<close>: the leftmost matches, none overlapping the next.\<close>

function replace_refs :: "(string \<Rightarrow> string \<Rightarrow> string) \<Rightarrow> string \<Rightarrow> string" where
  "replace_refs f [] = []"
| "replace_refs f (c # cs) =
     (case match_ref (c # cs) of
        Some (scope, p, rest) \<Rightarrow> f scope p @ replace_refs f rest
      | None \<Rightarrow> c # replace_refs f cs)"
  by pat_completeness auto
termination
  by (relation "measure (\<lambda>(f, s). length s)") (auto dest: match_ref_shorter)

declare replace_refs.simps(2) [simp del]

section \<open>\<open>resolveField\<close>\<close>

definition ref_value :: "resolve_context \<Rightarrow> string \<Rightarrow> string \<Rightarrow> gval" where
  "ref_value ctx scope path =
     (if path = [] then get_scope_value scope ctx
      else get_nested_field (ctx_lookup ctx scope) path)"

definition resolve_field :: "string \<Rightarrow> resolve_context \<Rightarrow> gval" where
  "resolve_field expr ctx =
     (if \<not> has_ref expr then VStr expr
      else case match_ref expr of
        Some (scope, path, []) \<Rightarrow> ref_value ctx scope path
      | _ \<Rightarrow> VStr (replace_refs (\<lambda>scope path. tostring (ref_value ctx scope path)) expr))"

end
