(* ===== verification/Mapping_Engine.thy ===== *)
theory Mapping_Engine
  imports Mapping_Ref
begin

text \<open>
  \<open>internal/mapping/engine.go\<close> above the reference language: the conversions \<open>$type\<close> and
  \<open>$format\<close>, the recursion \<open>resolveNode\<close> / \<open>resolveSourceDirective\<close> / \<open>resolveEachDirective\<close>,
  the body types, and \<open>BuildRequest\<close>.
\<close>

section \<open>\<open>convertType\<close> and \<open>formatValue\<close>\<close>

definition to_integer :: "gval \<Rightarrow> go_error + gval" where
  "to_integer val =
     (case val of
        VInt i \<Rightarrow> Inr (VInt64 i)
      | VInt64 i \<Rightarrow> Inr (VInt64 i)
      | VFloat f \<Rightarrow> Inr (VInt64 (f_to_i64 f))
      | VStr s \<Rightarrow>
          (case parse_int s of
             None \<Rightarrow> Inl (Errorf ''cannot convert %q to integer'' [ArgStr s])
           | Some n \<Rightarrow> Inr (VInt64 n))
      | _ \<Rightarrow> Inl (Errorf ''cannot convert %T to integer'' [ArgType (type_name val)]))"

definition to_number :: "gval \<Rightarrow> go_error + gval" where
  "to_number val =
     (case val of
        VInt i \<Rightarrow> Inr val
      | VInt64 i \<Rightarrow> Inr val
      | VFloat f \<Rightarrow> Inr val
      | VStr s \<Rightarrow>
          (case parse_float s of
             None \<Rightarrow> Inl (Errorf ''cannot convert %q to number'' [ArgStr s])
           | Some f \<Rightarrow> Inr (VFloat f))
      | _ \<Rightarrow> Inl (Errorf ''cannot convert %T to number'' [ArgType (type_name val)]))"

definition to_boolean :: "gval \<Rightarrow> go_error + gval" where
  "to_boolean val =
     (case val of
        VBool b \<Rightarrow> Inr val
      | VInt i \<Rightarrow> Inr (VBool (i \<noteq> 0))
      | VInt64 i \<Rightarrow> Inr (VBool (i \<noteq> 0))
      | VFloat f \<Rightarrow> Inr (VBool (\<not> f_eq f (Fin 0)))
      | VStr s \<Rightarrow>
          (case parse_bool s of
             None \<Rightarrow> Inl (Errorf ''cannot convert %q to boolean'' [ArgStr s])
           | Some b \<Rightarrow> Inr (VBool b))
      | _ \<Rightarrow> Inl (Errorf ''cannot convert %T to boolean'' [ArgType (type_name val)]))"

definition convert_type :: "gval \<Rightarrow> string \<Rightarrow> go_error + gval" where
  "convert_type val type =
     (if type = ''string'' then Inr (VStr (tostring val))
      else if type = ''integer'' then to_integer val
      else if type = ''number'' then to_number val
      else if type = ''boolean'' then to_boolean val
      else Inl (Errorf ''unknown type: %s'' [ArgStr type]))"

definition format_value :: "string \<Rightarrow> string \<Rightarrow> go_error + string" where
  "format_value val format =
     (case parse_int val of
        None \<Rightarrow> Inl (Errorf ''cannot parse %q as timestamp: %w''
                      [ArgStr val, ArgErr (ErrExternal ''strconv.ParseInt'')])
      | Some n \<Rightarrow> Inr (time_format n format))"

section \<open>Template nodes\<close>

text \<open>
  The three functions recurse on the template: an \<open>$each\<close> template is a value of the directive's
  map, whatever array it is applied to.
\<close>

definition apply_type :: "gval option \<Rightarrow> gval \<Rightarrow> go_error + gval" where
  "apply_type t raw =
     (case t of
        None \<Rightarrow> Inr raw
      | Some tv \<Rightarrow>
          (case as_string tv of
             None \<Rightarrow> Inl (Errorf ''$type must be a string'' [])
           | Some name \<Rightarrow> convert_type raw name))"

definition apply_format :: "gval option \<Rightarrow> gval \<Rightarrow> go_error + gval" where
  "apply_format t raw =
     (case t of
        None \<Rightarrow> Inr raw
      | Some tv \<Rightarrow>
          (case as_string tv of
             None \<Rightarrow> Inl (Errorf ''$format must be a string'' [])
           | Some f \<Rightarrow>
               (case format_value (tostring raw) f of Inl e \<Rightarrow> Inl e | Inr s \<Rightarrow> Inr (VStr s))))"

function (sequential)
  resolve_node :: "gval \<Rightarrow> resolve_context \<Rightarrow> go_error + gval"
and resolve_source_directive ::
  "(string, gval) gomap \<Rightarrow> resolve_context \<Rightarrow> go_error + gval"
and resolve_each_directive ::
  "(string, gval) gomap \<Rightarrow> resolve_context \<Rightarrow> go_error + gval"
where
  "resolve_node (VStr s) ctx = Inr (resolve_field s ctx)"
| "resolve_node (VMap m) ctx =
     (if gm_has m ''$source'' then resolve_source_directive m ctx
      else (case traverse (\<lambda>(k, v).
                    case resolve_node v ctx of
                      Inl e \<Rightarrow> Inl e
                    | Inr r \<Rightarrow> Inr (trim_prefix k ''$$'', r)) m of
              Inl e \<Rightarrow> Inl e
            | Inr kvs \<Rightarrow> Inr (VMap (gm_of_list kvs))))"
| "resolve_node VNilMap ctx = Inr (VMap [])"
| "resolve_node (VList vs) ctx =
     (case traverse (\<lambda>v. resolve_node v ctx) vs of Inl e \<Rightarrow> Inl e | Inr rs \<Rightarrow> Inr (VList rs))"
| "resolve_node v ctx = Inr v"
| "resolve_source_directive m ctx =
     (if gm_has m ''$each'' then resolve_each_directive m ctx
      else (case Option.bind (gm_get m ''$source'') as_string of
              None \<Rightarrow> Inl (Errorf ''$source must be a string'' [])
            | Some expr \<Rightarrow>
                (case apply_type (gm_get m ''$type'') (resolve_field expr ctx) of
                   Inl e \<Rightarrow> Inl e
                 | Inr raw \<Rightarrow> apply_format (gm_get m ''$format'') raw)))"
| "resolve_each_directive m ctx =
     (case Option.bind (gm_get m ''$source'') as_string of
        None \<Rightarrow> Inl (Errorf ''$source must be a string for $each'' [])
      | Some expr \<Rightarrow>
          (let src = resolve_field expr ctx
           in case as_list src of
                None \<Rightarrow> Inl (Errorf ''$source %q must resolve to an array, got %T''
                               [ArgStr expr, ArgType (type_name src)])
              | Some elems \<Rightarrow>
                  (case gm_get m ''$each'' of
                     None \<Rightarrow> Inl (Errorf ''$each directive missing'' [])
                   | Some tmpl \<Rightarrow>
                       (case traverse (\<lambda>elem.
                               case resolve_node tmpl
                                      \<lparr>rc_payload = rc_payload ctx, rc_item = elem\<rparr> of
                                 Inl e \<Rightarrow> Inl (Errorf ''$each mapping failed: %w'' [ArgErr e])
                               | Inr r \<Rightarrow> Inr r) elems of
                          Inl e \<Rightarrow> Inl e
                        | Inr rs \<Rightarrow> Inr (VList rs)))))"
  by pat_completeness auto
termination
proof (relation "measure (\<lambda>x. case x of
          Inl (v, _) \<Rightarrow> 3 * size v
        | Inr (Inl (m, _)) \<Rightarrow> 3 * size (VMap m) - 1
        | Inr (Inr (m, _)) \<Rightarrow> 3 * size (VMap m) - 2)", goal_cases)
  case 1
  show ?case by simp
next
  case (2 m ctx)
  show ?case by simp
next
  case (3 m ctx z k v)
  then have "size v < size (VMap m)" by (intro gval_size_entry [of k]) auto
  then show ?case by simp
next
  case (4 vs ctx z)
  then show ?case using gval_size_elem [of z vs] by simp
next
  case (5 m ctx)
  show ?case by simp
next
  case (6 m ctx expr src elems tmpl elem)
  then have "size tmpl < size (VMap m)" by (intro gval_size_get) auto
  then show ?case by simp
qed

section \<open>Bodies and requests\<close>

definition resolve_mapping_body ::
  "(string, gval) gomap option \<Rightarrow> resolve_context \<Rightarrow> go_error + string" where
  "resolve_mapping_body template ctx =
     (case resolve_node (map_value template) ctx of
        Inl e \<Rightarrow> Inl e
      | Inr v \<Rightarrow> json_marshal v)"

definition resolve_raw_body :: "string \<Rightarrow> resolve_context \<Rightarrow> go_error + string" where
  "resolve_raw_body template ctx = Inr (tostring (resolve_field template ctx))"

definition build_body :: "body_config \<Rightarrow> resolve_context \<Rightarrow> go_error + string" where
  "build_body cfg ctx =
     (if bc_type cfg = ''none'' then Inr []
      else if bc_type cfg = ''raw'' then
        (case json_marshal (map_value (bc_template cfg)) of
           Inl e \<Rightarrow> Inl (Errorf ''raw body marshal: %w'' [ArgErr e])
         | Inr s \<Rightarrow> resolve_raw_body s ctx)
      else if bc_type cfg = ''mapping'' then resolve_mapping_body (bc_template cfg) ctx
      else if bc_type cfg = ''plugin'' then Inl (Errorf ''mapper plugin not supported yet'' [])
      else Inl (Errorf ''unknown body type: %s'' [ArgStr (bc_type cfg)]))"

text \<open>An \<open>http.Request\<close>: method, URL text, header values by canonical name, body if any.\<close>

record http_request =
  hr_method :: string
  hr_url :: string
  hr_header :: "(string, string) gomap"
  hr_body :: "string option"

definition token_byte :: "char \<Rightarrow> bool" where
  "token_byte c \<longleftrightarrow>
     is_digit c \<or> is_upper c \<or> is_lower c \<or>
     (of_char c :: nat) \<in> {33, 35, 36, 37, 38, 39, 42, 43, 45, 46, 94, 95, 96, 124, 126}"

definition valid_method :: "string \<Rightarrow> bool" where
  "valid_method s \<longleftrightarrow> s \<noteq> [] \<and> list_all token_byte s"

text \<open>\<open>textproto.CanonicalMIMEHeaderKey\<close>: the first letter and each letter after a hyphen is upper case.\<close>

fun canonical_from :: "bool \<Rightarrow> string \<Rightarrow> string" where
  "canonical_from up [] = []"
| "canonical_from up (c # cs) =
     (if up then to_upper c else to_lower c) # canonical_from (c = CHR ''-'') cs"

definition canonical_key :: "string \<Rightarrow> string" where
  "canonical_key s = (if list_all token_byte s then canonical_from True s else s)"

definition header_set :: "string \<Rightarrow> string \<Rightarrow> http_request \<Rightarrow> http_request" where
  "header_set k v r = r\<lparr>hr_header := gm_put (canonical_key k) v (hr_header r)\<rparr>"

text \<open>
  \<open>http.NewRequest\<close>. Whether a text is a URL is decided by \<open>net/url\<close>'s parser, the argument
  \<open>url_ok\<close>.
\<close>

definition new_request ::
  "(string \<Rightarrow> bool) \<Rightarrow> string \<Rightarrow> string \<Rightarrow> string option \<Rightarrow> go_error + http_request" where
  "new_request url_ok meth url body =
     (let meth' = (if meth = [] then ''GET'' else meth)
      in if \<not> valid_method meth' then Inl (ErrExternal ''net/http: invalid method'')
         else if \<not> url_ok url then Inl (ErrExternal ''net/url: parse error'')
         else Inr \<lparr>hr_method = meth', hr_url = url, hr_header = [], hr_body = body\<rparr>)"

definition inject_auth :: "auth_config option \<Rightarrow> http_request \<Rightarrow> http_request" where
  "inject_auth auth r =
     (case auth of
        None \<Rightarrow> r
      | Some a \<Rightarrow>
          if ac_type a = ''bearer'' then
            (case Option.bind (gm_get (ac_config a) ''token'') as_string of
               Some token \<Rightarrow> header_set ''Authorization'' (''Bearer '' @ token) r
             | None \<Rightarrow> r)
          else if ac_type a = ''basic'' then
            (case (Option.bind (gm_get (ac_config a) ''user'') as_string,
                   Option.bind (gm_get (ac_config a) ''pass'') as_string) of
               (Some user, Some pass) \<Rightarrow>
                 header_set ''Authorization'' (''Basic '' @ user @ '':'' @ pass) r
             | _ \<Rightarrow> r)
          else r)"

definition request_body ::
  "mapping_config \<Rightarrow> resolve_context \<Rightarrow> go_error + string option" where
  "request_body mc ctx =
     (if bc_type (mc_body mc) \<noteq> [] \<and> bc_type (mc_body mc) \<noteq> ''none'' then
        (case build_body (mc_body mc) ctx of
           Inl e \<Rightarrow> Inl (Errorf ''build body: %w'' [ArgErr e])
         | Inr bytes \<Rightarrow> Inr (if bytes \<noteq> [] then Some bytes else None))
      else Inr None)"

definition build_request ::
  "(string \<Rightarrow> bool) \<Rightarrow> vendor_config option \<Rightarrow> mapping_config option \<Rightarrow>
   (string, gval) gomap option \<Rightarrow> go_error + http_request option" where
  "build_request url_ok vendor mapping payload =
     (case (vendor, mapping) of
        (Some vc, Some mc) \<Rightarrow>
          (let ctx = \<lparr>rc_payload = payload, rc_item = VNil\<rparr>
           in case request_body mc ctx of
                Inl e \<Rightarrow> Inl e
              | Inr body \<Rightarrow>
                  (let url = vc_base_url vc @ tostring (resolve_field (rq_path (mc_request mc)) ctx)
                   in case new_request url_ok (rq_method (mc_request mc)) url body of
                        Inl e \<Rightarrow> Inl (Errorf ''new request: %w'' [ArgErr e])
                      | Inr req \<Rightarrow>
                          Inr (Some (inject_auth (vc_auth vc)
                            (fold (\<lambda>(k, v). header_set k v) (rq_headers (mc_request mc)) req)))))
      | _ \<Rightarrow> Inr None)"

end
