(* ===== verification/Mapping_Facts.thy ===== *)
theory Mapping_Facts
  imports Mapping_Engine
begin

text \<open>
  What the mapping engine computes: the meaning of a template built from literal text and
  references, of a dotted path, of the conversions, and of the recursive node walk.
\<close>

section \<open>Templates built from literals and references\<close>

text \<open>The abstract syntax of a template string: literal text without \<open>@\<close>, and references.\<close>

datatype segment = Lit string | Ref string string

fun render :: "segment \<Rightarrow> string" where
  "render (Lit s) = s"
| "render (Ref scope p) = at_ref ''{'' @ scope @ (if p = [] then [] else CHR '':'' # p) @ ''}''"

fun wf_segment :: "segment \<Rightarrow> bool" where
  "wf_segment (Lit s) = (CHR ''@'' \<notin> set s)"
| "wf_segment (Ref scope p) = ((scope = ''payload'' \<or> scope = ''item'') \<and> CHR ''}'' \<notin> set p)"

fun expand :: "(string \<Rightarrow> string \<Rightarrow> string) \<Rightarrow> segment \<Rightarrow> string" where
  "expand f (Lit s) = s"
| "expand f (Ref scope p) = f scope p"

definition template_text :: "segment list \<Rightarrow> string" where
  "template_text segs = concat (map render segs)"

lemma takeWhile_sep: "c \<notin> set p \<Longrightarrow> takeWhile (\<lambda>x. x \<noteq> c) (p @ c # r) = p"
  by (induction p) auto

lemma dropWhile_sep: "c \<notin> set p \<Longrightarrow> dropWhile (\<lambda>x. x \<noteq> c) (p @ c # r) = c # r"
  by (induction p) auto

lemma match_ref_render:
  "wf_segment (Ref scope p) \<Longrightarrow> match_ref (render (Ref scope p) @ rest) = Some (scope, p, rest)"
proof -
  assume wf: "wf_segment (Ref scope p)"
  have tail: "match_tail ((if p = [] then [] else CHR '':'' # p) @ CHR ''}'' # rest) = Some (p, rest)"
    using wf by (auto simp: match_tail_def Let_def takeWhile_sep dropWhile_sep)
  from wf consider "scope = ''payload''" | "scope = ''item''" by auto
  then show ?thesis
  proof cases
    case 1
    then show ?thesis using tail by (simp add: match_ref_def)
  next
    case 2
    then show ?thesis using tail by (simp add: match_ref_def)
  qed
qed

lemma replace_refs_lit:
  "CHR ''@'' \<notin> set s \<Longrightarrow> replace_refs f (s @ t) = s @ replace_refs f t"
  by (induction s) (auto simp: replace_refs.simps(2) match_ref_no_at)

lemma replace_refs_ref:
  "wf_segment (Ref scope p) \<Longrightarrow>
   replace_refs f (render (Ref scope p) @ t) = f scope p @ replace_refs f t"
  using match_ref_render [of scope p t] by (simp add: replace_refs.simps(2))

lemma replace_refs_template:
  "list_all wf_segment segs \<Longrightarrow>
   replace_refs f (template_text segs) = concat (map (expand f) segs)"
proof (induction segs)
  case Nil
  then show ?case by (simp add: template_text_def)
next
  case (Cons g segs)
  then show ?case
    by (cases g) (simp_all add: template_text_def replace_refs_lit replace_refs_ref
        del: render.simps(2))
qed

lemma has_ref_append: "match_ref t \<noteq> None \<Longrightarrow> has_ref (s @ t)"
proof (induction s)
  case Nil
  then show ?case using match_ref_starts by (cases t) (auto dest!: match_ref_starts)
next
  case (Cons c s)
  then show ?case by simp
qed

lemma has_ref_lit: "CHR ''@'' \<notin> set s \<Longrightarrow> has_ref (s @ t) = has_ref t"
  by (induction s) (auto simp: match_ref_no_at)

fun is_ref :: "segment \<Rightarrow> bool" where
  "is_ref (Ref _ _) = True"
| "is_ref (Lit _) = False"

lemma has_ref_template:
  "list_all wf_segment segs \<Longrightarrow> has_ref (template_text segs) \<longleftrightarrow> list_ex is_ref segs"
proof (induction segs)
  case Nil
  then show ?case by (simp add: template_text_def)
next
  case (Cons g segs)
  show ?case
  proof (cases g)
    case (Lit s)
    with Cons show ?thesis by (simp add: template_text_def has_ref_lit)
  next
    case (Ref scope p)
    with Cons.prems have "match_ref (render g @ template_text segs) \<noteq> None"
      using match_ref_render by simp
    with has_ref_append [of _ "[]"] Ref show ?thesis by (simp add: template_text_def)
  qed
qed

lemma render_nonempty: "wf_segment g \<Longrightarrow> render g = [] \<longleftrightarrow> g = Lit []"
  by (cases g) auto

text \<open>The meaning of a template: one reference alone keeps its type, anything else is text.\<close>

definition template_value :: "resolve_context \<Rightarrow> segment list \<Rightarrow> gval" where
  "template_value ctx segs =
     (case filter (\<lambda>g. g \<noteq> Lit []) segs of
        [Ref scope p] \<Rightarrow> ref_value ctx scope p
      | _ \<Rightarrow> VStr (concat (map (expand (\<lambda>scope p. tostring (ref_value ctx scope p))) segs)))"

lemma template_text_filter:
  "template_text (filter (\<lambda>g. g \<noteq> Lit []) segs) = template_text segs"
  by (induction segs) (auto simp: template_text_def)

lemma expand_filter:
  "concat (map (expand f) (filter (\<lambda>g. g \<noteq> Lit []) segs)) = concat (map (expand f) segs)"
  by (induction segs) auto

lemma resolve_field_no_ref:
  "list_all wf_segment segs \<Longrightarrow> \<not> list_ex is_ref segs \<Longrightarrow>
   resolve_field (template_text segs) ctx = VStr (template_text segs)"
  by (simp add: resolve_field_def has_ref_template)

lemma no_ref_expand:
  "\<not> list_ex is_ref segs \<Longrightarrow> concat (map (expand f) segs) = template_text segs"
proof (induction segs)
  case (Cons g segs)
  then show ?case by (cases g) (auto simp: template_text_def)
qed (simp add: template_text_def)

lemma match_ref_template:
  assumes "list_all wf_segment segs" "Lit [] \<notin> set segs"
    and "match_ref (template_text segs) = Some (scope, p, [])"
  shows "segs = [Ref scope p]"
proof (cases segs)
  case Nil
  with assms(3) show ?thesis by (simp add: template_text_def match_ref_no_at)
next
  case (Cons g gs)
  show ?thesis
  proof (cases g)
    case (Lit s)
    with assms Cons have "s \<noteq> []" "CHR ''@'' \<notin> set s" by auto
    then have "match_ref (template_text segs) = None"
      using Cons Lit by (intro match_ref_no_at) (cases s; auto simp: template_text_def)
    with assms(3) show ?thesis by simp
  next
    case (Ref scope' p')
    have "match_ref (render g @ template_text gs) = Some (scope', p', template_text gs)"
      using assms(1) Cons Ref match_ref_render by simp
    with assms(3) Cons have *: "scope' = scope" "p' = p" "template_text gs = []"
      by (simp_all add: template_text_def)
    have "gs = []"
    proof (rule ccontr)
      assume "gs \<noteq> []"
      then obtain h hs where "gs = h # hs" by (cases gs) auto
      with assms(1,2) Cons * show False
        using render_nonempty [of h] by (auto simp: template_text_def)
    qed
    with Cons Ref * show ?thesis by simp
  qed
qed

lemma resolve_field_template_norm:
  assumes wf: "list_all wf_segment segs" and ne: "Lit [] \<notin> set segs"
  shows "resolve_field (template_text segs) ctx = template_value ctx segs"
proof (cases "list_ex is_ref segs")
  case False
  moreover have "filter (\<lambda>g. g \<noteq> Lit []) segs = segs" using ne by (auto simp: filter_id_conv)
  moreover have "template_value ctx segs = VStr (template_text segs)"
    using calculation no_ref_expand [OF False]
    by (auto simp: template_value_def split: list.splits segment.splits)
  ultimately show ?thesis using wf by (simp add: resolve_field_no_ref)
next
  case True
  let ?f = "\<lambda>scope p. tostring (ref_value ctx scope p)"
  have fl: "filter (\<lambda>g. g \<noteq> Lit []) segs = segs" using ne by (auto simp: filter_id_conv)
  have hr: "has_ref (template_text segs)" using wf True by (simp add: has_ref_template)
  show ?thesis
  proof (cases "\<exists>scope p. match_ref (template_text segs) = Some (scope, p, [])")
    case True
    then obtain scope p where m: "match_ref (template_text segs) = Some (scope, p, [])" by blast
    with wf ne have "segs = [Ref scope p]" by (rule match_ref_template)
    with m hr show ?thesis by (simp add: resolve_field_def template_value_def)
  next
    case False
    then have "resolve_field (template_text segs) ctx = VStr (concat (map (expand ?f) segs))"
      using hr wf
      by (auto simp: resolve_field_def replace_refs_template split: option.splits list.splits)
    moreover have "segs \<noteq> [Ref scope p]" for scope p
    proof
      assume "segs = [Ref scope p]"
      with wf have "match_ref (template_text segs) = Some (scope, p, [])"
        using match_ref_render [of scope p "[]"] by (simp add: template_text_def)
      with False show False by blast
    qed
    ultimately show ?thesis
      unfolding template_value_def fl by (auto split: list.splits segment.splits)
  qed
qed

lemma resolve_field_template:
  assumes "list_all wf_segment segs"
  shows "resolve_field (template_text segs) ctx = template_value ctx segs"
proof -
  let ?ss = "filter (\<lambda>g. g \<noteq> Lit []) segs"
  have "resolve_field (template_text ?ss) ctx = template_value ctx ?ss"
    using assms by (intro resolve_field_template_norm) (auto simp: list_all_iff)
  then show ?thesis
    unfolding template_text_filter template_value_def expand_filter by simp
qed

section \<open>Dotted paths\<close>

text \<open>\<open>at_path m ps v\<close>: following the keys \<open>ps\<close> through nested maps of \<open>m\<close> ends at \<open>v\<close>.\<close>

inductive at_path :: "(string, gval) gomap \<Rightarrow> string list \<Rightarrow> gval \<Rightarrow> bool" where
  here: "gm_get m p = Some v \<Longrightarrow> at_path m [p] v"
| deeper: "gm_get m p = Some w \<Longrightarrow> as_map w = Some m' \<Longrightarrow> at_path m' ps v \<Longrightarrow> at_path m (p # ps) v"

inductive_simps at_path_Nil [simp]: "at_path m [] v"
inductive_simps at_path_Cons: "at_path m (p # ps) v"

lemma walk_parts_at_path: "at_path m ps v \<Longrightarrow> walk_parts m ps = v"
  by (induction rule: at_path.induct) (auto elim: at_path.cases)

lemma walk_parts_missing: "(\<nexists>v. at_path m ps v) \<Longrightarrow> walk_parts m ps = VNil"
proof (induction ps arbitrary: m)
  case Nil
  then show ?case by simp
next
  case (Cons p ps)
  then show ?case
    by (auto simp: at_path_Cons split: option.splits)
qed

lemma join_on_Nil_iff: "join_on c ps = [] \<longleftrightarrow> ps = [] \<or> ps = [[]]"
  by (induction c ps rule: join_on.induct) auto

lemma get_nested_join:
  "ps \<noteq> [] \<Longrightarrow> ps \<noteq> [[]] \<Longrightarrow> \<forall>p \<in> set ps. CHR ''.'' \<notin> set p \<Longrightarrow>
   get_nested_field m (join_on CHR ''.'' ps) = walk_parts m ps"
  by (simp add: get_nested_field_def join_on_Nil_iff split_join)

section \<open>Well-formed values\<close>

definition wf_ctx :: "resolve_context \<Rightarrow> bool" where
  "wf_ctx ctx \<longleftrightarrow> wf_gval (map_value (rc_payload ctx)) \<and> wf_gval (rc_item ctx)"

lemma wf_gval_get: "wf_gval (VMap m) \<Longrightarrow> gm_get m k = Some v \<Longrightarrow> wf_gval v"
  by (auto simp: list_all_iff dest!: gm_get_Some_in)

lemma wf_gval_as_map: "wf_gval v \<Longrightarrow> as_map v = Some m \<Longrightarrow> wf_gval (VMap m)"
  by (cases v) auto

lemma wf_walk_parts: "wf_gval (VMap m) \<Longrightarrow> wf_gval (walk_parts m ps)"
proof (induction ps arbitrary: m)
  case Nil
  then show ?case by simp
next
  case (Cons p ps)
  then show ?case
    by (auto split: option.splits simp del: wf_gval.simps(2)
        dest: wf_gval_get wf_gval_as_map)
qed

lemma wf_ctx_lookup: "wf_ctx ctx \<Longrightarrow> wf_gval (VMap (ctx_lookup ctx scope))"
  by (auto simp: wf_ctx_def ctx_lookup_def map_value_def as_map_Some split: option.splits)

lemma wf_ref_value: "wf_ctx ctx \<Longrightarrow> wf_gval (ref_value ctx scope p)"
proof (cases "p = []")
  case True
  then show "wf_ctx ctx \<Longrightarrow> ?thesis"
    by (auto simp: ref_value_def get_scope_value_def wf_ctx_def)
next
  case False
  assume "wf_ctx ctx"
  with False show ?thesis
    using wf_walk_parts [OF wf_ctx_lookup] by (simp add: ref_value_def get_nested_field_def)
qed

lemma wf_resolve_field: "wf_ctx ctx \<Longrightarrow> wf_gval (resolve_field expr ctx)"
  by (auto simp: resolve_field_def wf_ref_value split: option.splits list.splits)

lemma wf_convert_type: "wf_gval v \<Longrightarrow> convert_type v t = Inr w \<Longrightarrow> wf_gval w"
  by (auto simp: convert_type_def to_integer_def to_number_def to_boolean_def in_i64_f_to_i64
      split: if_splits gval.splits option.splits dest: parse_int_range)

lemma wf_apply_type: "wf_gval v \<Longrightarrow> apply_type t v = Inr w \<Longrightarrow> wf_gval w"
  by (auto simp: apply_type_def split: option.splits dest: wf_convert_type)

lemma wf_apply_format: "wf_gval v \<Longrightarrow> apply_format t v = Inr w \<Longrightarrow> wf_gval w"
  by (auto simp: apply_format_def split: option.splits sum.splits)

lemma traverse_entries:
  "traverse (\<lambda>(k, v). case f v of Inl e \<Rightarrow> Inl e | Inr r \<Rightarrow> Inr (g k, r)) m = Inr kvs \<longleftrightarrow>
   list_all2 (\<lambda>(k, v) (k', r). k' = g k \<and> f v = Inr r) m kvs"
  unfolding traverse_Inr_iff
  by (rule arg_cong [where f = "\<lambda>P. list_all2 P m kvs"]) (auto simp: fun_eq_iff split: sum.splits)

lemma wf_resolve:
  "wf_ctx ctx \<Longrightarrow> resolve_node v ctx = Inr w \<Longrightarrow> wf_gval v \<Longrightarrow> wf_gval w"
  "wf_ctx ctx \<Longrightarrow> resolve_source_directive m ctx = Inr w \<Longrightarrow> wf_gval (VMap m) \<Longrightarrow> wf_gval w"
  "wf_ctx ctx \<Longrightarrow> resolve_each_directive m ctx = Inr w \<Longrightarrow> wf_gval (VMap m) \<Longrightarrow> wf_gval w"
proof (induction v ctx and m ctx and m ctx arbitrary: w and w and w
    rule: resolve_node_resolve_source_directive_resolve_each_directive.induct)
  case (2 m ctx)
  show ?case
  proof (cases "gm_has m ''$source''")
    case True
    with 2 show ?thesis by simp
  next
    case False
    with "2.prems" obtain kvs where w: "w = VMap (gm_of_list kvs)"
      and l: "list_all2 (\<lambda>(k, v) (k', r). k' = trim_prefix k ''$$'' \<and> resolve_node v ctx = Inr r) m kvs"
      by (auto split: sum.splits simp: traverse_entries)
    have "wf_gval r" if "r \<in> snd ` set kvs" for r
    proof -
      from that obtain i where i: "i < length kvs" "r = snd (kvs ! i)" by (auto simp: in_set_conv_nth)
      with l have "resolve_node (snd (m ! i)) ctx = Inr r" "i < length m"
        by (auto dest: list_all2_nthD2 list_all2_lengthD simp: case_prod_unfold)
      moreover have "wf_gval (snd (m ! i))"
        using "2.prems"(3) \<open>i < length m\<close> by (auto simp: list_all_iff dest!: nth_mem)
      ultimately show ?thesis
        using "2.IH"(2) [OF False, of "m ! i" "fst (m ! i)" "snd (m ! i)"] "2.prems"(1) by simp
    qed
    with gm_of_list_vals [of kvs] wf_map_gm_of_list [of kvs] show ?thesis
      by (fastforce simp: w list_all_iff wf_map_def)
  qed
next
  case (4 vs ctx)
  then obtain rs where "w = VList rs" and t: "traverse (\<lambda>v. resolve_node v ctx) vs = Inr rs"
    by (auto split: sum.splits)
  moreover have "wf_gval r" if "r \<in> set rs" for r
    using traverse_Inr_set [OF t that] 4 by (auto simp: list_all_iff)
  ultimately show ?case by (simp add: list_all_iff)
next
  case (6 m ctx)
  then show ?case
    by (auto split: if_splits option.splits sum.splits
        simp del: resolve_each_directive.simps wf_gval.simps(2)
        dest: wf_apply_format wf_apply_type [OF wf_resolve_field])
next
  case (7 m ctx)
  from "7.prems"(2) obtain expr elems tmpl rs
    where h: "Option.bind (gm_get m ''$source'') as_string = Some expr"
      "as_list (resolve_field expr ctx) = Some elems" "gm_get m ''$each'' = Some tmpl"
      and w: "w = VList rs"
      and t: "traverse (\<lambda>elem. case resolve_node tmpl \<lparr>rc_payload = rc_payload ctx, rc_item = elem\<rparr> of
                 Inl e \<Rightarrow> Inl (Errorf ''$each mapping failed: %w'' [ArgErr e])
               | Inr r \<Rightarrow> Inr r) elems = Inr rs"
    by (auto simp: Let_def split: option.splits sum.splits)
  have wt: "wf_gval tmpl" using "7.prems"(3) h(3) by (rule wf_gval_get)
  have we: "list_all wf_gval elems"
    using wf_resolve_field [OF "7.prems"(1), of expr] h(2) by (simp add: as_list_Some)
  have "wf_gval r" if r: "r \<in> set rs" for r
  proof -
    from traverse_Inr_set [OF t r] obtain elem where el: "elem \<in> set elems"
      and rn: "resolve_node tmpl \<lparr>rc_payload = rc_payload ctx, rc_item = elem\<rparr> = Inr r"
      by (auto simp: res_simps)
    have "wf_ctx \<lparr>rc_payload = rc_payload ctx, rc_item = elem\<rparr>"
      using "7.prems"(1) we el by (auto simp: wf_ctx_def list_all_iff)
    with "7.IH" [OF h(1) refl h(2,3) el] rn wt show ?thesis by blast
  qed
  then show ?case by (simp add: w list_all_iff)
qed (auto simp: wf_resolve_field)


section \<open>Entries, static templates and types\<close>

lemma entries_keys:
  "list_all2 (\<lambda>(k, v) (k', r). k' = g k \<and> P v r) m kvs \<Longrightarrow> map fst kvs = map (\<lambda>(k, v). g k) m"
  by (induction m kvs rule: list_all2_induct) auto

lemma entries_get:
  "list_all2 (\<lambda>(k, v) (k', r). k' = g k \<and> P v r) m kvs \<Longrightarrow> distinct (map (\<lambda>(k, v). g k) m) \<Longrightarrow>
   gm_get m k = Some v \<Longrightarrow> \<exists>r. gm_get kvs (g k) = Some r \<and> P v r"
proof (induction m kvs rule: list_all2_induct)
  case (Cons x xs y ys)
  obtain k0 v0 where x: "x = (k0, v0)" by (cases x)
  obtain k1 r0 where y: "y = (k1, r0)" by (cases y)
  show ?case
  proof (cases "k = k0")
    case True
    with Cons show ?thesis by (auto simp: x y gm_get_def)
  next
    case False
    with Cons.prems(2) have k: "gm_get xs k = Some v" by (simp add: x gm_get_def)
    then have "g k \<in> set (map (\<lambda>(k, v). g k) xs)" using gm_get_Some_in [OF k] by force
    with Cons k show ?thesis by (auto simp: x y gm_get_def)
  qed
qed simp

lemma list_all2_exists: "(\<And>x. x \<in> set xs \<Longrightarrow> \<exists>y. R x y) \<Longrightarrow> \<exists>ys. list_all2 R xs ys"
proof (induction xs)
  case (Cons x xs)
  then obtain y ys where "R x y" "list_all2 R xs ys" by (meson list.set_intros)
  then show ?case by (meson list_all2_Cons)
qed (auto intro: exI [of _ "[]"])

text \<open>A template without references, directives and escaped keys.\<close>

fun static_node :: "gval \<Rightarrow> bool" where
  "static_node (VStr s) = (\<not> has_ref s)"
| "static_node (VList vs) = list_all static_node vs"
| "static_node (VMap m) =
     (distinct (map fst m) \<and> list_all (\<lambda>(k, v). strip_prefix ''$'' k = None \<and> static_node v) m)"
| "static_node VNilMap = False"
| "static_node _ = True"

lemma strip_dollar: "strip_prefix ''$'' k = None \<Longrightarrow> strip_prefix ''$$'' k = None"
  by (cases k) auto

lemma static_no_source: "static_node (VMap m) \<Longrightarrow> \<not> gm_has m ''$source''"
  by (fastforce simp: gm_has_iff_key list_all_iff)

lemma resolve_static: "static_node v \<Longrightarrow> resolve_node v ctx = Inr v"
proof (induction v rule: static_node.induct)
  case (3 m)
  have "traverse (\<lambda>(k, v). case resolve_node v ctx of
          Inl e \<Rightarrow> Inl e | Inr r \<Rightarrow> Inr (trim_prefix k ''$$'', r)) m = Inr m"
  proof (rule traverse_ident, clarify)
    fix k v assume kv: "(k, v) \<in> set m"
    with "3.prems" have "static_node v" "strip_prefix ''$'' k = None" by (auto simp: list_all_iff)
    with "3.IH" [OF kv refl] show "(case resolve_node v ctx of
          Inl e \<Rightarrow> Inl e | Inr r \<Rightarrow> Inr (trim_prefix k ''$$'', r)) = Inr (k, v)"
      by (simp add: trim_prefix_def strip_dollar)
  qed
  then show ?case
    using "3.prems" static_no_source [of m] by (simp add: gm_of_list_distinct)
qed (auto simp: resolve_field_def list_all_iff traverse_ident)

text \<open>The values a conversion to \<open>t\<close> may give.\<close>

definition of_type :: "string \<Rightarrow> gval \<Rightarrow> bool" where
  "of_type t v =
     (if t = ''string'' then (case v of VStr _ \<Rightarrow> True | _ \<Rightarrow> False)
      else if t = ''integer'' then (case v of VInt64 _ \<Rightarrow> True | _ \<Rightarrow> False)
      else if t = ''number'' then (case v of VInt _ \<Rightarrow> True | VInt64 _ \<Rightarrow> True | VFloat _ \<Rightarrow> True | _ \<Rightarrow> False)
      else if t = ''boolean'' then (case v of VBool _ \<Rightarrow> True | _ \<Rightarrow> False)
      else False)"

lemma tostring_VStr [simp]: "tostring (VStr s) = s"
  by (simp add: tostring_def)

section \<open>Requests\<close>

lemma header_set_fields [simp]:
  "hr_method (header_set k v r) = hr_method r"
  "hr_url (header_set k v r) = hr_url r"
  "hr_body (header_set k v r) = hr_body r"
  "gm_get (hr_header (header_set k v r)) x =
     (if x = canonical_key k then Some v else gm_get (hr_header r) x)"
  by (simp_all add: header_set_def)

definition set_headers :: "(string, string) gomap \<Rightarrow> http_request \<Rightarrow> http_request" where
  "set_headers hs r = fold (\<lambda>(k, v). header_set k v) hs r"

lemma set_headers_fields [simp]:
  "hr_method (set_headers hs r) = hr_method r"
  "hr_url (set_headers hs r) = hr_url r"
  "hr_body (set_headers hs r) = hr_body r"
  unfolding set_headers_def by (induction hs arbitrary: r) auto

lemma set_headers_get:
  "gm_get (hr_header (set_headers hs r)) x =
     (case map_of (rev (map (\<lambda>(k, v). (canonical_key k, v)) hs)) x of
        Some v \<Rightarrow> Some v | None \<Rightarrow> gm_get (hr_header r) x)"
  unfolding set_headers_def
  by (induction hs arbitrary: r) (auto simp: map_add_def split: option.splits)

lemma inject_auth_fields [simp]:
  "hr_method (inject_auth a r) = hr_method r"
  "hr_url (inject_auth a r) = hr_url r"
  "hr_body (inject_auth a r) = hr_body r"
  by (auto simp: inject_auth_def split: option.splits)

lemma canonical_auth [simp]: "canonical_key ''Authorization'' = ''Authorization''"
  by code_simp

text \<open>Only \<open>Authorization\<close> is written by \<open>injectAuth\<close>.\<close>

lemma inject_auth_other:
  "x \<noteq> ''Authorization'' \<Longrightarrow> gm_get (hr_header (inject_auth a r)) x = gm_get (hr_header r) x"
  by (auto simp: inject_auth_def split: option.splits)

lemma new_request_Inr:
  "new_request url_ok meth url body = Inr r \<longleftrightarrow>
     valid_method (if meth = [] then ''GET'' else meth) \<and> url_ok url \<and>
     r = \<lparr>hr_method = (if meth = [] then ''GET'' else meth), hr_url = url, hr_header = [], hr_body = body\<rparr>"
  by (auto simp: new_request_def Let_def)

text \<open>The successful path of \<open>BuildRequest\<close> with its intermediate values.\<close>

lemma build_request_Inr:
  "build_request url_ok (Some vc) (Some mc) payload = Inr (Some req) \<longleftrightarrow>
     (\<exists>body r. request_body mc \<lparr>rc_payload = payload, rc_item = VNil\<rparr> = Inr body \<and>
        new_request url_ok (rq_method (mc_request mc))
          (vc_base_url vc @ tostring (resolve_field (rq_path (mc_request mc))
             \<lparr>rc_payload = payload, rc_item = VNil\<rparr>)) body = Inr r \<and>
        req = inject_auth (vc_auth vc) (set_headers (rq_headers (mc_request mc)) r))"
  by (auto simp: build_request_def set_headers_def Let_def res_simps)

lemma request_body_Some:
  "request_body mc ctx = Inr (Some b) \<longleftrightarrow>
     bc_type (mc_body mc) \<notin> {[], ''none''} \<and> build_body (mc_body mc) ctx = Inr b \<and> b \<noteq> []"
  by (auto simp: request_body_def res_simps)

end
