(* ===== verification/Mapping_Props.thy ===== *)
theory Mapping_Props
  imports Mapping_Facts
begin

text \<open>
  The properties of the mapping engine. Each one is stated over the definitions of \<open>Mapping_Ref\<close>
  and \<open>Mapping_Engine\<close>; its witness evaluates it on a concrete template or request.
\<close>

section \<open>References and paths\<close>

text \<open>C14
  A template string made of literal text and references (\<open>{payload:path}\<close> or \<open>{item:path}\<close> after an at sign)
  resolves to its meaning: one reference alone gives the referenced value with its type, any
  other mixture gives the text in which every reference is replaced by its value's text.\<close>

theorem template_meaning:
  assumes "list_all wf_segment segs"
  shows "resolve_field (template_text segs) ctx = template_value ctx segs"
  using assms by (rule resolve_field_template)

theorem template_meaning_witness:
  "resolve_field (''id-'' @ at_ref ''{payload:a.b}!'')
     \<lparr>rc_payload = Some [(''a'', VMap [(''b'', VInt 7)])], rc_item = VNil\<rparr> = VStr ''id-7!''"
  using template_meaning [of "[Lit ''id-'', Ref ''payload'' ''a.b'', Lit ''!'']"
      "\<lparr>rc_payload = Some [(''a'', VMap [(''b'', VInt 7)])], rc_item = VNil\<rparr>"]
  by code_simp

text \<open>C19
  \<open>getNestedField\<close> follows a dotted path through nested maps: it returns the value at the end of
  the path when every step exists, and nil when some step is missing or is not a map.\<close>

theorem nested_field_path:
  assumes "ps \<noteq> []" "ps \<noteq> [[]]" "\<forall>p \<in> set ps. CHR ''.'' \<notin> set p"
  shows "(\<forall>v. at_path m ps v \<longrightarrow> get_nested_field m (join_on CHR ''.'' ps) = v) \<and>
         ((\<nexists>v. at_path m ps v) \<longrightarrow> get_nested_field m (join_on CHR ''.'' ps) = VNil)"
  using get_nested_join [OF assms] walk_parts_at_path walk_parts_missing by metis

theorem nested_field_path_witness:
  "get_nested_field [(''a'', VMap [(''b'', VInt 7)])] ''a.b'' = VInt 7 \<and>
   get_nested_field [(''a'', VMap [(''b'', VInt 7)])] ''a.c'' = VNil"
proof -
  have *: "\<nexists>v. at_path [(''a'', VMap [(''b'', VInt 7)])] [''a'', ''c''] v"
    by (simp add: at_path_Cons gm_get_def)
  have "at_path [(''a'', VMap [(''b'', VInt 7)])] [''a'', ''b''] (VInt 7)"
    by (simp add: at_path_Cons gm_get_def)
  with * show ?thesis
    using nested_field_path [of "[''a'', ''b'']" "[(''a'', VMap [(''b'', VInt 7)])]"]
      nested_field_path [of "[''a'', ''c'']" "[(''a'', VMap [(''b'', VInt 7)])]"] by simp
qed

section \<open>Node resolution\<close>

text \<open>
  Type invariant: resolving a template whose maps have one entry per key, in a context of such
  values, gives a value whose maps again have one entry per key and whose integers fit 64 bits,
  although the \<open>$$\<close> prefix of keys is removed and \<open>$type\<close> converts values.\<close>

theorem resolve_node_wf:
  assumes "wf_ctx ctx" "wf_gval v" "resolve_node v ctx = Inr w"
  shows "wf_gval w"
  using assms wf_resolve(1) by blast

theorem resolve_node_wf_witness:
  "wf_gval (VMap [(''a'', VInt 2)])"
  by (rule resolve_node_wf [of "\<lparr>rc_payload = Some [], rc_item = VNil\<rparr>"
        "VMap [(''$$a'', VInt 1), (''a'', VInt 2)]"]) code_simp+

text \<open>C15
  \<open>$each\<close>: the directive succeeds exactly when its template resolves for every element of the
  array, with that element as the \<open>item\<close> scope, and then gives the results in the array's order. A
  source that is not an array is an error.\<close>

theorem each_elementwise:
  assumes "gm_get m ''$source'' = Some (VStr expr)" "gm_get m ''$each'' = Some tmpl"
  shows "resolve_node (VMap m) ctx = Inr w \<longleftrightarrow>
         (\<exists>elems rs. resolve_field expr ctx = VList elems \<and> w = VList rs \<and>
            list_all2 (\<lambda>e r. resolve_node tmpl (ctx\<lparr>rc_item := e\<rparr>) = Inr r) elems rs)"
proof -
  have ctx: "ctx\<lparr>rc_item := e\<rparr> = \<lparr>rc_payload = rc_payload ctx, rc_item = e\<rparr>" for e
    by (cases ctx) simp
  have *: "resolve_node (VMap m) ctx = resolve_each_directive m ctx"
    using assms by (simp add: gm_has_def)
  show ?thesis
    unfolding * ctx using assms
    by (auto simp: Let_def as_list_Some traverse_Inr_iff res_simps)
qed

theorem each_elementwise_witness:
  "resolve_node (VMap [(''$source'', VStr (at_ref ''{payload:xs}'')), (''$each'', VStr (''n'' @ at_ref ''{item:k}''))])
     \<lparr>rc_payload = Some [(''xs'', VList [VMap [(''k'', VInt 1)], VMap [(''k'', VInt 2)]])],
      rc_item = VNil\<rparr> = Inr (VList [VStr ''n1'', VStr ''n2''])"
proof -
  let ?m = "[(''$source'', VStr (at_ref ''{payload:xs}'')), (''$each'', VStr (''n'' @ at_ref ''{item:k}''))]"
  let ?xs = "[VMap [(''k'', VInt 1)], VMap [(''k'', VInt 2)]]"
  let ?ctx = "\<lparr>rc_payload = Some [(''xs'', VList ?xs)], rc_item = VNil\<rparr>"
  have "resolve_field (at_ref ''{payload:xs}'') ?ctx = VList ?xs" by code_simp
  moreover have "list_all2 (\<lambda>e r. resolve_node (VStr (''n'' @ at_ref ''{item:k}'')) (?ctx\<lparr>rc_item := e\<rparr>) = Inr r)
      ?xs [VStr ''n1'', VStr ''n2'']" by code_simp
  ultimately show ?thesis
    using each_elementwise [of ?m "at_ref ''{payload:xs}''" "VStr (''n'' @ at_ref ''{item:k}'')" ?ctx]
    by (simp add: gm_get_def)
qed

text \<open>C16
  A template map without the key \<open>$source\<close>, whose keys stay distinct when the \<open>$$\<close> escape is removed,
  resolves exactly when each of its entries does, and then gives a map with the template's keys in their
  order, without the escape, each holding what the key's own template resolves to.\<close>

theorem map_fields:
  assumes "wf_map m" "\<not> gm_has m ''$source''" "distinct (map (\<lambda>(k, v). trim_prefix k ''$$'') m)"
  shows "((\<exists>w. resolve_node (VMap m) ctx = Inr w) \<longleftrightarrow> (\<forall>k v. gm_get m k = Some v \<longrightarrow> (\<exists>r. resolve_node v ctx = Inr r))) \<and>
    (\<forall>w. resolve_node (VMap m) ctx = Inr w \<longrightarrow>
      (\<exists>m'. w = VMap m' \<and> map fst m' = map (\<lambda>(k, v). trim_prefix k ''$$'') m \<and>
        (\<forall>k v. gm_get m k = Some v \<longrightarrow>
          (\<exists>r. gm_get m' (trim_prefix k ''$$'') = Some r \<and> resolve_node v ctx = Inr r))))"
proof -
  let ?R = "\<lambda>(k, v) (k', r). k' = trim_prefix k ''$$'' \<and> resolve_node v ctx = Inr r"
  have node: "resolve_node (VMap m) ctx = Inr w \<longleftrightarrow> (\<exists>kvs. w = VMap kvs \<and> list_all2 ?R m kvs)" for w
  proof -
    have g: "gm_of_list kvs = kvs" if "list_all2 ?R m kvs" for kvs
      using entries_keys [OF that] assms(3) by (simp add: gm_of_list_distinct)
    let ?f = "\<lambda>(k, v). case resolve_node v ctx of Inl e \<Rightarrow> Inl e | Inr r \<Rightarrow> Inr (trim_prefix k ''$$'', r)"
    have "resolve_node (VMap m) ctx = Inr w \<longleftrightarrow> (\<exists>kvs. traverse ?f m = Inr kvs \<and> w = VMap (gm_of_list kvs))"
      using assms(2) by (cases "traverse ?f m") auto
    also have "\<dots> \<longleftrightarrow> (\<exists>kvs. w = VMap kvs \<and> list_all2 ?R m kvs)"
      unfolding traverse_entries by (rule iff_exI) (use g in auto)
    finally show ?thesis .
  qed
  have "\<exists>kvs. list_all2 ?R m kvs" if "\<forall>k v. gm_get m k = Some v \<longrightarrow> (\<exists>r. resolve_node v ctx = Inr r)"
    using that assms(1) by (intro list_all2_exists) (auto dest: gm_get_in)
  moreover have "map fst kvs = map (\<lambda>(k, v). trim_prefix k ''$$'') m"
    "gm_get m k = Some v \<Longrightarrow> \<exists>r. gm_get kvs (trim_prefix k ''$$'') = Some r \<and> resolve_node v ctx = Inr r"
    if "list_all2 ?R m kvs" for kvs k v
    using entries_keys [OF that] entries_get [OF that assms(3)] by blast+
  ultimately show ?thesis unfolding node by blast
qed

theorem map_fields_witness:
  "\<exists>r. gm_get [(''$source'', VBool True), (''b'', VInt 2)] ''$source'' = Some r \<and>
      resolve_node (VStr (at_ref ''{payload:x}'')) \<lparr>rc_payload = Some [(''x'', VBool True)], rc_item = VNil\<rparr> = Inr r"
proof -
  let ?m = "[(''$$$source'', VStr (at_ref ''{payload:x}'')), (''b'', VInt 2)]"
  let ?ctx = "\<lparr>rc_payload = Some [(''x'', VBool True)], rc_item = VNil\<rparr>"
  have h: "wf_map ?m" "\<not> gm_has ?m ''$source''" "distinct (map (\<lambda>(k, v). trim_prefix k ''$$'') ?m)"
    "resolve_node (VMap ?m) ?ctx = Inr (VMap [(''$source'', VBool True), (''b'', VInt 2)])"
    "trim_prefix ''$$$source'' ''$$'' = ''$source''"
    by code_simp+
  have g: "gm_get ?m ''$$$source'' = Some (VStr (at_ref ''{payload:x}''))" by (simp add: gm_get_def)
  from map_fields [OF h(1-3), of ?ctx, THEN conjunct2, rule_format, OF h(4)] obtain m' where
    "VMap [(''$source'', VBool True), (''b'', VInt 2)] = VMap m'"
    "\<exists>r. gm_get m' (trim_prefix ''$$$source'' ''$$'') = Some r \<and> resolve_node (VStr (at_ref ''{payload:x}'')) ?ctx = Inr r"
    using g by blast
  with h(5) show ?thesis by simp
qed

text \<open>
  A template that uses neither references nor directives is its own value: nothing in it is
  rewritten.\<close>

theorem static_template:
  assumes "static_node v"
  shows "resolve_node v ctx = Inr v"
  using assms by (rule resolve_static)

theorem static_template_witness:
  "resolve_node (VMap [(''a'', VList [VStr ''x@y.z'', VInt 1])]) \<lparr>rc_payload = None, rc_item = VNil\<rparr> =
   Inr (VMap [(''a'', VList [VStr ''x@y.z'', VInt 1])])"
  by (rule static_template) code_simp

text \<open>C20
  \<open>$type\<close>: a successful conversion gives a value of the requested type, and converting it again
  changes nothing.\<close>

theorem convert_type_stable:
  assumes "convert_type v t = Inr w"
  shows "of_type t w \<and> convert_type w t = Inr w"
  using assms
  by (auto simp: convert_type_def to_integer_def to_number_def to_boolean_def of_type_def
      split: if_splits gval.splits option.splits)

theorem convert_type_stable_witness:
  "of_type ''integer'' (VInt64 42) \<and> convert_type (VInt64 42) ''integer'' = Inr (VInt64 42)"
  by (rule convert_type_stable [of "VStr ''42''"]) code_simp

text \<open>C21
  Decimal text and 64-bit integers convert into each other without loss: \<open>$type: string\<close> prints
  an integer so that \<open>$type: integer\<close> reads the same integer back.\<close>

theorem integer_text_roundtrip:
  assumes "in_i64 n"
  shows "\<exists>s. convert_type (VInt64 n) ''string'' = Inr (VStr s) \<and>
             convert_type (VStr s) ''integer'' = Inr (VInt64 n)"
  using assms by (simp add: convert_type_def to_integer_def tostring_def parse_show_int)

theorem integer_text_roundtrip_witness:
  "\<exists>s. convert_type (VInt64 (- 9223372036854775808)) ''string'' = Inr (VStr s) \<and>
       convert_type (VStr s) ''integer'' = Inr (VInt64 (- 9223372036854775808))"
  by (rule integer_text_roundtrip) code_simp

text \<open>
  The \<open>$$\<close> escape: an escaped key loses both dollar signs, so a template cannot produce a field
  whose name starts with a single \<open>$\<close> by escaping it: \<open>$$source\<close> becomes \<open>source\<close>.\<close>

theorem escaped_key_loses_prefix:
  assumes "k \<noteq> []" "hd k \<noteq> CHR ''$''" "resolve_node v ctx = Inr r"
  shows "resolve_node (VMap [(CHR ''$'' # CHR ''$'' # k, v)]) ctx = Inr (VMap [(k, r)])"
  using assms by (simp add: gm_has_def gm_get_def gm_of_list_def gm_put_def trim_prefix_def)

theorem escaped_key_loses_prefix_witness:
  "resolve_node (VMap [(''$$source'', VStr ''x'')]) \<lparr>rc_payload = None, rc_item = VNil\<rparr> =
   Inr (VMap [(''source'', VStr ''x'')])"
  using escaped_key_loses_prefix [of "''source''" "VStr ''x''"
      "\<lparr>rc_payload = None, rc_item = VNil\<rparr>" "VStr ''x''"] by (simp add: resolve_field_def match_ref_def)

text \<open>
  \<open>$format\<close> passes its text to \<open>time.Format\<close> as a layout. A text without layout elements, like the
  documented \<open>yyyy-MM-dd\<close>, is returned as it stands, whatever the timestamp.\<close>

theorem format_without_elements:
  assumes "no_elem layout" "parse_int s = Some n"
  shows "format_value s layout = Inr layout"
  using assms by (simp add: format_value_def time_format_no_elem)

theorem format_without_elements_witness:
  "format_value ''1700000000'' ''yyyy-MM-dd'' = Inr ''yyyy-MM-dd''"
  by (rule format_without_elements [where n = 1700000000]) code_simp+

section \<open>Requests\<close>

text \<open>C17
  A built request has the configured method (\<open>GET\<close> when none is given), the vendor's base URL
  followed by the resolved path, which \<open>net/url\<close> accepted, and a body exactly when the body type
  asks for one and it is not empty.\<close>

theorem request_shape:
  assumes "build_request url_ok (Some vc) (Some mc) payload = Inr (Some req)"
    and "ctx = \<lparr>rc_payload = payload, rc_item = VNil\<rparr>"
  shows "hr_method req = (if rq_method (mc_request mc) = [] then ''GET'' else rq_method (mc_request mc))
    \<and> hr_url req = vc_base_url vc @ tostring (resolve_field (rq_path (mc_request mc)) ctx)
    \<and> url_ok (hr_url req)
    \<and> (hr_body req = Some b \<longleftrightarrow>
         bc_type (mc_body mc) \<notin> {[], ''none''} \<and> build_body (mc_body mc) ctx = Inr b \<and> b \<noteq> [])"
proof -
  from assms obtain body r where b: "request_body mc ctx = Inr body"
    and r: "new_request url_ok (rq_method (mc_request mc))
      (vc_base_url vc @ tostring (resolve_field (rq_path (mc_request mc)) ctx)) body = Inr r"
    and q: "req = inject_auth (vc_auth vc) (set_headers (rq_headers (mc_request mc)) r)"
    by (auto simp: build_request_Inr)
  show ?thesis
    unfolding request_body_Some [of mc ctx b, symmetric] b using r by (simp add: q new_request_Inr)
qed

definition demo_vendor :: vendor_config where
  "demo_vendor = \<lparr>vc_vendor_id = ''crm'', vc_base_url = ''http://crm'',
     vc_auth = Some \<lparr>ac_type = ''bearer'', ac_config = [(''token'', VStr ''t0'')]\<rparr>,
     vc_retry = \<lparr>rp_max_attempts = 3, rp_base_delay_ms = 100, rp_max_delay_ms = 1000,
       rp_multiplier = Fin 2, rp_jitter = Fin 0\<rparr>,
     vc_judgment = \<lparr>rj_success_rules = [], rj_retryable_rules = []\<rparr>\<rparr>"

definition demo_mapping :: mapping_config where
  "demo_mapping = \<lparr>mc_event_type = ''user.created'',
     mc_request = \<lparr>rq_method = ''POST'', rq_path = (''/u/'' @ at_ref ''{payload:id}''),
       rq_headers = [(''x-user'', (at_ref ''{payload:id}'')), (''authorization'', ''none'')]\<rparr>,
     mc_body = \<lparr>bc_type = ''mapping'', bc_template = Some [(''id'', VStr (at_ref ''{payload:id}''))]\<rparr>\<rparr>"

definition demo_request :: http_request where
  "demo_request = \<lparr>hr_method = ''POST'', hr_url = ''http://crm/u/7'',
     hr_header = [(''X-User'', (at_ref ''{payload:id}'')), (''Authorization'', ''Bearer t0'')],
     hr_body = Some (''{'' @ json_string ''id'' @ '':7}'')\<rparr>"

lemma demo_build:
  "build_request (\<lambda>_. True) (Some demo_vendor) (Some demo_mapping) (Some [(''id'', VInt 7)]) =
   Inr (Some demo_request)"
  by code_simp

theorem request_shape_witness:
  "hr_url demo_request = ''http://crm/u/7'' \<and> hr_method demo_request = ''POST'' \<and>
   build_body (mc_body demo_mapping) \<lparr>rc_payload = Some [(''id'', VInt 7)], rc_item = VNil\<rparr> =
     Inr (''{'' @ json_string ''id'' @ '':7}'')"
  using request_shape [OF demo_build refl, of "''{'' @ json_string ''id'' @ '':7}''"]
  by (simp add: demo_request_def demo_mapping_def)

text \<open>C18
  Credentials: with a bearer token configured, the request carries exactly that token, and with
  basic authentication the user and password joined by a colon, not encoded in base64, whatever
  \<open>Authorization\<close> header the mapping configures.\<close>

theorem auth_overrides_headers:
  assumes "build_request url_ok (Some vc) (Some mc) payload = Inr (Some req)"
    and "vc_auth vc = Some a"
  shows "(ac_type a = ''bearer'' \<and> gm_get (ac_config a) ''token'' = Some (VStr tok) \<longrightarrow>
            gm_get (hr_header req) ''Authorization'' = Some (''Bearer '' @ tok)) \<and>
         (ac_type a = ''basic'' \<and> gm_get (ac_config a) ''user'' = Some (VStr u) \<and>
          gm_get (ac_config a) ''pass'' = Some (VStr p) \<longrightarrow>
            gm_get (hr_header req) ''Authorization'' = Some (''Basic '' @ u @ '':'' @ p))"
  using assms by (auto simp: build_request_Inr inject_auth_def)

theorem auth_overrides_headers_witness:
  "gm_get (hr_header demo_request) ''Authorization'' = Some (''Bearer '' @ ''t0'')"
  using auth_overrides_headers [OF demo_build, of "\<lparr>ac_type = ''bearer'', ac_config = [(''token'', VStr ''t0'')]\<rparr>" "''t0''"]
  by (simp add: demo_vendor_def gm_get_def)

text \<open>
  Configured headers are sent under their canonical names with their configured text: a reference
  in a header value is not resolved.\<close>

theorem headers_verbatim:
  assumes "build_request url_ok (Some vc) (Some mc) payload = Inr (Some req)"
    and "distinct (map (\<lambda>(k, v). canonical_key k) (rq_headers (mc_request mc)))"
    and "(k, v) \<in> set (rq_headers (mc_request mc))" "canonical_key k \<noteq> ''Authorization''"
  shows "gm_get (hr_header req) (canonical_key k) = Some v"
proof -
  let ?hs = "map (\<lambda>(k, v). (canonical_key k, v)) (rq_headers (mc_request mc))"
  have d: "distinct (map fst (rev ?hs))"
    using assms(2) by (simp add: rev_map [symmetric] comp_def case_prod_unfold)
  have "(canonical_key k, v) \<in> set (rev ?hs)" using assms(3) by force
  with d have "map_of (rev ?hs) (canonical_key k) = Some v" by (rule map_of_is_SomeI)
  with assms(1,4) show ?thesis
    by (auto simp: build_request_Inr inject_auth_other set_headers_get)
qed

theorem headers_verbatim_witness:
  "gm_get (hr_header demo_request) ''X-User'' = Some (at_ref ''{payload:id}'')"
proof -
  have c: "canonical_key ''x-user'' = ''X-User''" by code_simp
  have d: "distinct (map (\<lambda>(k, v). canonical_key k) (rq_headers (mc_request demo_mapping)))" by code_simp
  show ?thesis
    using headers_verbatim [OF demo_build d, of "''x-user''" "at_ref ''{payload:id}''"]
    by (simp add: c demo_mapping_def)
qed

end
