(* ===== verification/Go_Json.thy ===== *)
theory Go_Json
  imports Go_Value
begin

text \<open>
  \<open>encoding/json\<close> on the reading side: the grammar of a JSON text, the decoding of a value into
  \<open>any\<close>, and the matching of object keys with struct fields.
\<close>

section \<open>Syntax trees\<close>

text \<open>Numbers keep their literal; an object keeps its members in order, duplicates included.\<close>

datatype json =
    JNull
  | JBool bool
  | JNum string
  | JStr string
  | JArr "json list"
  | JObj "(string \<times> json) list"

definition is_ws :: "char \<Rightarrow> bool" where
  "is_ws c \<longleftrightarrow> (of_char c :: nat) \<in> {9, 10, 13, 32}"

definition skip_ws :: "string \<Rightarrow> string" where
  "skip_ws s = dropWhile is_ws s"

section \<open>String literals\<close>

definition hex_val :: "char \<Rightarrow> nat option" where
  "hex_val c =
     (let n = (of_char c :: nat)
      in if 48 \<le> n \<and> n \<le> 57 then Some (n - 48)
         else if 97 \<le> n \<and> n \<le> 102 then Some (n - 87)
         else if 65 \<le> n \<and> n \<le> 70 then Some (n - 55)
         else None)"

definition hex4 :: "string \<Rightarrow> (nat \<times> string) option" where
  "hex4 s =
     (case s of
        a # b # c # d # r \<Rightarrow>
          (case (hex_val a, hex_val b, hex_val c, hex_val d) of
             (Some x, Some y, Some z, Some w) \<Rightarrow> Some (((x * 16 + y) * 16 + z) * 16 + w, r)
           | _ \<Rightarrow> None)
      | _ \<Rightarrow> None)"

definition utf8_encode :: "nat \<Rightarrow> string" where
  "utf8_encode n =
     (if n < 128 then [char_of n]
      else if n < 2048 then [char_of (192 + n div 64), char_of (128 + n mod 64)]
      else if n < 65536 then
        [char_of (224 + n div 4096), char_of (128 + n div 64 mod 64), char_of (128 + n mod 64)]
      else
        [char_of (240 + n div 262144), char_of (128 + n div 4096 mod 64),
         char_of (128 + n div 64 mod 64), char_of (128 + n mod 64)])"

definition replacement :: string where
  "replacement = utf8_encode 65533"

text \<open>
  After the backslash and \<open>u\<close> of an escape: a surrogate pair is one character, a lone surrogate is
  replaced.
\<close>

definition unicode_escape :: "string \<Rightarrow> (string \<times> string) option" where
  "unicode_escape s =
     (case hex4 s of
        None \<Rightarrow> None
      | Some (n, r) \<Rightarrow>
          if 55296 \<le> n \<and> n < 56320 then
            (case r of
               b # u # r' \<Rightarrow>
                 if b = CHR 0x5C \<and> u = CHR ''u'' then
                   (case hex4 r' of
                      Some (m, r'') \<Rightarrow>
                        if 56320 \<le> m \<and> m < 57344
                        then Some (utf8_encode (65536 + (n - 55296) * 1024 + (m - 56320)), r'')
                        else Some (replacement, r)
                    | None \<Rightarrow> Some (replacement, r))
                 else Some (replacement, r)
             | _ \<Rightarrow> Some (replacement, r))
          else if 56320 \<le> n \<and> n < 57344 then Some (replacement, r)
          else Some (utf8_encode n, r))"

definition simple_escape :: "char \<Rightarrow> char option" where
  "simple_escape c =
     (let n = (of_char c :: nat)
      in if n = 34 \<or> n = 92 \<or> n = 47 then Some c
         else if n = 98 then Some (CHR 0x08)
         else if n = 102 then Some (CHR 0x0C)
         else if n = 110 then Some (CHR 0x0A)
         else if n = 114 then Some (CHR 0x0D)
         else if n = 116 then Some (CHR 0x09)
         else None)"

text \<open>
  The text after an opening quote, up to the closing one; the fuel is the length of the text, each
  step consumes a byte.
\<close>

fun json_str :: "nat \<Rightarrow> string \<Rightarrow> (string \<times> string) option" where
  "json_str 0 s = None"
| "json_str (Suc k) [] = None"
| "json_str (Suc k) (c # cs) =
     (let n = (of_char c :: nat); cons = (\<lambda>p. map_option (\<lambda>(a, r). (p @ a, r)))
      in if n = 34 then Some ([], cs)
         else if n = 92 then
           (case cs of
              [] \<Rightarrow> None
            | d # ds \<Rightarrow>
                if d = CHR ''u'' then
                  (case unicode_escape ds of None \<Rightarrow> None | Some (p, r) \<Rightarrow> cons p (json_str k r))
                else (case simple_escape d of None \<Rightarrow> None | Some e \<Rightarrow> cons [e] (json_str k ds)))
         else if n < 32 then None
         else if n < 128 then cons [c] (json_str k cs)
         else let l = utf8_len (c # cs)
              in if l = 0 then cons replacement (json_str k cs)
                 else cons (take l (c # cs)) (json_str k (drop (l - 1) cs)))"

section \<open>Numbers\<close>

definition span_digits :: "string \<Rightarrow> string \<times> string" where
  "span_digits s = (takeWhile is_digit s, dropWhile is_digit s)"

text \<open>The longest number at the start of a text: sign, integer, fraction, exponent.\<close>

definition json_num_int :: "string \<Rightarrow> (string \<times> string) option" where
  "json_num_int s =
     (case s of
        [] \<Rightarrow> None
      | c # cs \<Rightarrow>
          if c = CHR ''0'' then Some ([c], cs)
          else if is_digit c then Some (span_digits s)
          else None)"

definition json_num_frac :: "string \<Rightarrow> (string \<times> string) option" where
  "json_num_frac s =
     (case s of
        c # cs \<Rightarrow>
          if c = CHR ''.'' then
            (case span_digits cs of (d, r) \<Rightarrow> if d = [] then None else Some (c # d, r))
          else Some ([], s)
      | [] \<Rightarrow> Some ([], s))"

definition json_num_exp :: "string \<Rightarrow> (string \<times> string) option" where
  "json_num_exp s =
     (case s of
        c # cs \<Rightarrow>
          if c = CHR ''e'' \<or> c = CHR ''E'' then
            (let (sg, r) = (case cs of
                   d # ds \<Rightarrow> if d = CHR ''+'' \<or> d = CHR ''-'' then ([d], ds) else ([], cs)
                 | [] \<Rightarrow> ([], cs))
             in case span_digits r of (d, r') \<Rightarrow> if d = [] then None else Some (c # sg @ d, r'))
          else Some ([], s)
      | [] \<Rightarrow> Some ([], s))"

definition json_num :: "string \<Rightarrow> (string \<times> string) option" where
  "json_num s =
     (let (sg, s1) = (case s of c # cs \<Rightarrow> if c = CHR ''-'' then ([c], cs) else ([], s) | [] \<Rightarrow> ([], s))
      in case json_num_int s1 of
           None \<Rightarrow> None
         | Some (i, s2) \<Rightarrow>
             (case json_num_frac s2 of
                None \<Rightarrow> None
              | Some (f, s3) \<Rightarrow>
                  (case json_num_exp s3 of
                     None \<Rightarrow> None
                   | Some (e, s4) \<Rightarrow> Some (sg @ i @ f @ e, s4))))"

section \<open>Values\<close>

text \<open>
  The fuel bounds the number of nested and consecutive values; a text has fewer than it has bytes.
\<close>

fun json_value :: "nat \<Rightarrow> string \<Rightarrow> (json \<times> string) option"
and json_elems :: "nat \<Rightarrow> string \<Rightarrow> (json list \<times> string) option"
and json_members :: "nat \<Rightarrow> string \<Rightarrow> ((string \<times> json) list \<times> string) option" where
  "json_value 0 s = None"
| "json_value (Suc k) s =
     (case skip_ws s of
        [] \<Rightarrow> None
      | c # cs \<Rightarrow>
          if c = CHR ''{'' then
            (case skip_ws cs of
               d # r \<Rightarrow>
                 if d = CHR ''}'' then Some (JObj [], r)
                 else map_option (\<lambda>(ms, r). (JObj ms, r)) (json_members k cs)
             | [] \<Rightarrow> None)
          else if c = CHR ''['' then
            (case skip_ws cs of
               d # r \<Rightarrow>
                 if d = CHR '']'' then Some (JArr [], r)
                 else map_option (\<lambda>(vs, r). (JArr vs, r)) (json_elems k cs)
             | [] \<Rightarrow> None)
          else if c = CHR 0x22 then
            map_option (\<lambda>(t, r). (JStr t, r)) (json_str (Suc (length cs)) cs)
          else if has_prefix (c # cs) ''true'' then Some (JBool True, drop 3 cs)
          else if has_prefix (c # cs) ''false'' then Some (JBool False, drop 4 cs)
          else if has_prefix (c # cs) ''null'' then Some (JNull, drop 3 cs)
          else map_option (\<lambda>(t, r). (JNum t, r)) (json_num (c # cs)))"
| "json_elems 0 s = None"
| "json_elems (Suc k) s =
     (case json_value k s of
        None \<Rightarrow> None
      | Some (v, r) \<Rightarrow>
          (case skip_ws r of
             d # r' \<Rightarrow>
               if d = CHR '','' then map_option (\<lambda>(vs, r''). (v # vs, r'')) (json_elems k r')
               else if d = CHR '']'' then Some ([v], r')
               else None
           | [] \<Rightarrow> None))"
| "json_members 0 s = None"
| "json_members (Suc k) s =
     (case skip_ws s of
        [] \<Rightarrow> None
      | q # s1 \<Rightarrow>
          if q \<noteq> CHR 0x22 then None
          else (case json_str (Suc (length s1)) s1 of
            None \<Rightarrow> None
          | Some (key, s2) \<Rightarrow>
              (case skip_ws s2 of
                 [] \<Rightarrow> None
               | col # s3 \<Rightarrow>
                   if col \<noteq> CHR '':'' then None
                   else (case json_value k s3 of
                     None \<Rightarrow> None
                   | Some (v, r) \<Rightarrow>
                       (case skip_ws r of
                          d # r' \<Rightarrow>
                            if d = CHR '','' then
                              map_option (\<lambda>(ms, r''). ((key, v) # ms, r'')) (json_members k r')
                            else if d = CHR ''}'' then Some ([(key, v)], r')
                            else None
                        | [] \<Rightarrow> None)))))"

text \<open>\<open>json.Unmarshal\<close> reads exactly one value; a \<open>Decoder\<close> reads the first one of a stream.\<close>

definition json_first :: "string \<Rightarrow> json option" where
  "json_first s = map_option fst (json_value (2 * length s + 2) s)"

definition json_text :: "string \<Rightarrow> json option" where
  "json_text s =
     (case json_value (2 * length s + 2) s of
        Some (v, r) \<Rightarrow> if skip_ws r = [] then Some v else None
      | None \<Rightarrow> None)"

section \<open>Decoding\<close>

text \<open>Into \<open>any\<close>: numbers become \<open>float64\<close>; one out of range is an error. The last duplicate wins.\<close>

fun json_any :: "json \<Rightarrow> gval option" where
  "json_any JNull = Some VNil"
| "json_any (JBool b) = Some (VBool b)"
| "json_any (JNum t) = map_option VFloat (parse_float t)"
| "json_any (JStr s) = Some (VStr s)"
| "json_any (JArr vs) = map_option VList (those (map json_any vs))"
| "json_any (JObj ms) =
     map_option (\<lambda>vs. VMap (gm_of_list (zip (map fst ms) vs))) (those (map (\<lambda>(k, v). json_any v) ms))"

text \<open>
  Keys are compared with field names after folding: ASCII letters without case, and the two
  characters that Unicode folds to \<open>k\<close> and \<open>s\<close>.
\<close>

fun fold_key :: "string \<Rightarrow> string" where
  "fold_key [] = []"
| "fold_key (c # cs) =
     (if (of_char c :: nat) = 197 \<and> cs \<noteq> [] \<and> (of_char (hd cs) :: nat) = 191
        then CHR ''s'' # fold_key (tl cs)
      else if (of_char c :: nat) = 226 \<and> length cs \<ge> 2 \<and> (of_char (hd cs) :: nat) = 132 \<and>
              (of_char (hd (tl cs)) :: nat) = 170
        then CHR ''k'' # fold_key (tl (tl cs))
      else to_lower c # fold_key cs)"

definition field_is :: "string \<Rightarrow> string \<Rightarrow> bool" where
  "field_is name key \<longleftrightarrow> fold_key key = fold_key name"

text \<open>Decoding into fields of type \<open>string\<close> and \<open>map[string]any\<close>; \<open>null\<close> leaves a string unchanged.\<close>

fun json_into_string :: "string \<Rightarrow> json \<Rightarrow> string option" where
  "json_into_string old JNull = Some old"
| "json_into_string old (JStr s) = Some s"
| "json_into_string old _ = None"

fun json_into_map :: "(string, gval) gomap option \<Rightarrow> json \<Rightarrow> (string, gval) gomap option option" where
  "json_into_map old JNull = Some None"
| "json_into_map old (JObj ms) =
     (case json_any (JObj ms) of
        Some (VMap m) \<Rightarrow>
          Some (Some (fold (\<lambda>(k, v). gm_put k v) m (case old of Some o' \<Rightarrow> o' | None \<Rightarrow> [])))
      | _ \<Rightarrow> None)"
| "json_into_map old _ = None"

section \<open>Reading back what \<open>json.Marshal\<close> writes\<close>

definition ascii :: "string \<Rightarrow> bool" where
  "ascii s \<longleftrightarrow> list_all (\<lambda>c. (of_char c :: nat) < 128) s"

lemma less_16_cases: "(d :: nat) < 16 \<Longrightarrow>
  d = 0 \<or> d = 1 \<or> d = 2 \<or> d = 3 \<or> d = 4 \<or> d = 5 \<or> d = 6 \<or> d = 7 \<or> d = 8 \<or> d = 9 \<or> d = 10 \<or>
  d = 11 \<or> d = 12 \<or> d = 13 \<or> d = 14 \<or> d = 15"
  by presburger

lemma hex_val_digit: "d < 16 \<Longrightarrow> hex_val (hex_digit d) = Some d"
  by (drule less_16_cases) (elim disjE; simp add: hex_val_def hex_digit_def)

lemma hex4_byte:
  "n < 128 \<Longrightarrow> hex4 (CHR ''0'' # CHR ''0'' # hex_digit (n div 16) # hex_digit (n mod 16) # r) = Some (n, r)"
proof -
  assume "n < 128"
  then have "hex_val (hex_digit (n div 16)) = Some (n div 16)" "hex_val (hex_digit (n mod 16)) = Some (n mod 16)"
    by (intro hex_val_digit, simp)+
  moreover have "hex_val (CHR ''0'') = Some 0" by (simp add: hex_val_def)
  ultimately show ?thesis by (simp add: hex4_def)
qed

lemma char_of_of: "char_of (of_char c :: nat) = c"
  by simp

lemma char_10_13_9:
  "char_of (10 :: nat) = CHR 0x0A" "char_of (13 :: nat) = CHR 0x0D" "char_of (9 :: nat) = CHR 0x09"
  by code_simp+

lemma json_str_escape:
  assumes "(of_char c :: nat) < 128"
  shows "json_str (Suc k) (json_escape c @ s) = map_option (\<lambda>(a, r). (c # a, r)) (json_str k s)"
proof -
  let ?n = "of_char c :: nat"
  have u: "unicode_escape (CHR ''0'' # CHR ''0'' # hex_digit (?n div 16) # hex_digit (?n mod 16) # s) = Some ([c], s)"
    using assms by (simp add: unicode_escape_def hex4_byte utf8_encode_def)
  consider "?n = 34 \<or> ?n = 92" | "?n = 10" | "?n = 13" | "?n = 9"
    | "?n \<notin> {34, 92, 10, 13, 9}" "?n < 32 \<or> ?n = 60 \<or> ?n = 62 \<or> ?n = 38"
    | "?n \<notin> {34, 92, 10, 13, 9}" "\<not> (?n < 32 \<or> ?n = 60 \<or> ?n = 62 \<or> ?n = 38)"
    by blast
  then show ?thesis
  proof cases
    case 1
    then have "c \<noteq> CHR ''u''" by auto
    with 1 show ?thesis by (auto simp: json_escape_def simple_escape_def Let_def)
  next
    case 2
    then have "c = CHR 0x0A" by (metis char_of_of char_10_13_9(1))
    then show ?thesis by (simp add: json_escape_def simple_escape_def)
  next
    case 3
    then have "c = CHR 0x0D" by (metis char_of_of char_10_13_9(2))
    then show ?thesis by (simp add: json_escape_def simple_escape_def)
  next
    case 4
    then have "c = CHR 0x09" by (metis char_of_of char_10_13_9(3))
    then show ?thesis by (simp add: json_escape_def simple_escape_def)
  next
    case 5
    then have "json_escape c = CHR 0x5C # ''u00'' @ [hex_digit (?n div 16), hex_digit (?n mod 16)]"
      by (auto simp: json_escape_def Let_def)
    then show ?thesis by (simp add: Let_def u)
  next
    case 6
    then have "json_escape c = [c]" by (auto simp: json_escape_def Let_def)
    with 6 assms show ?thesis by (simp add: Let_def)
  qed
qed

lemma json_str_chars:
  "ascii s \<Longrightarrow> length s < k \<Longrightarrow> json_str k (json_chars s @ CHR 0x22 # r) = Some (s, r)"
proof (induction s arbitrary: k)
  case Nil
  then show ?case by (cases k) simp_all
next
  case (Cons c s)
  from Cons.prems obtain j where k: "k = Suc j" "length s < j" by (cases k) auto
  with Cons show ?case by (simp add: ascii_def json_str_escape)
qed

lemma length_json_escape: "1 \<le> length (json_escape c)"
  by (simp add: json_escape_def Let_def)

lemma length_json_chars: "ascii s \<Longrightarrow> length s \<le> length (json_chars s)"
proof (induction s)
  case (Cons c s)
  then show ?case using length_json_escape [of c] by (simp add: ascii_def)
qed simp

lemma skip_ws_head [simp]: "\<not> is_ws c \<Longrightarrow> skip_ws (c # s) = c # s"
  by (simp add: skip_ws_def)

lemma json_value_string:
  "ascii s \<Longrightarrow> json_value (Suc k) (json_string s @ r) = Some (JStr s, r)"
proof -
  assume a: "ascii s"
  have "length s < Suc (length (json_chars s @ CHR 0x22 # r))"
    using length_json_chars [OF a] by simp
  with json_str_chars [OF a this] show ?thesis
    by (simp add: json_string_def is_ws_def del: json_str.simps)
qed

end
