(* ===== verification/Validator.thy ===== *)
theory Validator
  imports Go_Json Port_Model
begin

text \<open>
  \<open>internal/ingestion/validator.go\<close>: the schema nodes, their decoding from JSON, the recursive
  validation, and the cache of decoded schemas keyed by the address of the schema map.
\<close>

section \<open>Schemas\<close>

datatype schema_node = Schema_Node
  (sn_type: string)
  (sn_required: "string list")
  (sn_properties: "(string \<times> schema_node) list")
  (sn_items: "schema_node option")
  (sn_enum: "gval list")
  (sn_minimum: "f64 option")
  (sn_maximum: "f64 option")
  (sn_min_length: "int option")
  (sn_max_length: "int option")

text \<open>A \<open>ValidationError\<close>: the field, and the message as format and arguments.\<close>

record validation_error =
  ve_field :: string
  ve_format :: string
  ve_args :: "arg list"

definition verr :: "string \<Rightarrow> string \<Rightarrow> arg list \<Rightarrow> validation_error" where
  "verr p fmt args = \<lparr>ve_field = p, ve_format = fmt, ve_args = args\<rparr>"

section \<open>Decoding a schema\<close>

definition empty_schema :: schema_node where
  "empty_schema = Schema_Node [] [] [] None [] None None None None"

fun json_into_strings :: "json \<Rightarrow> string list option" where
  "json_into_strings JNull = Some []"
| "json_into_strings (JArr vs) = those (map (json_into_string []) vs)"
| "json_into_strings _ = None"

fun json_into_anys :: "json \<Rightarrow> gval list option" where
  "json_into_anys JNull = Some []"
| "json_into_anys (JArr vs) = those (map json_any vs)"
| "json_into_anys _ = None"

fun json_into_float :: "json \<Rightarrow> f64 option option" where
  "json_into_float JNull = Some None"
| "json_into_float (JNum t) = map_option Some (parse_float t)"
| "json_into_float _ = None"

fun json_into_int :: "json \<Rightarrow> int option option" where
  "json_into_int JNull = Some None"
| "json_into_int (JNum t) = map_option Some (parse_int t)"
| "json_into_int _ = None"

text \<open>The fields that hold no schema.\<close>

definition set_plain_field :: "string \<Rightarrow> json \<Rightarrow> schema_node \<Rightarrow> schema_node option" where
  "set_plain_field k v s =
     (case s of Schema_Node ty req props items enum mi ma mil mal \<Rightarrow>
        if field_is ''type'' k then
          map_option (\<lambda>x. Schema_Node x req props items enum mi ma mil mal) (json_into_string ty v)
        else if field_is ''required'' k then
          map_option (\<lambda>x. Schema_Node ty x props items enum mi ma mil mal) (json_into_strings v)
        else if field_is ''enum'' k then
          map_option (\<lambda>x. Schema_Node ty req props items x mi ma mil mal) (json_into_anys v)
        else if field_is ''minimum'' k then
          map_option (\<lambda>x. Schema_Node ty req props items enum x ma mil mal) (json_into_float v)
        else if field_is ''maximum'' k then
          map_option (\<lambda>x. Schema_Node ty req props items enum mi x mil mal) (json_into_float v)
        else if field_is ''minLength'' k then
          map_option (\<lambda>x. Schema_Node ty req props items enum mi ma x mal) (json_into_int v)
        else if field_is ''maxLength'' k then
          map_option (\<lambda>x. Schema_Node ty req props items enum mi ma mil x) (json_into_int v)
        else Some s)"

definition set_properties :: "(string \<times> schema_node) list \<Rightarrow> schema_node \<Rightarrow> schema_node" where
  "set_properties ps s =
     (case s of Schema_Node ty req props items enum mi ma mil mal \<Rightarrow>
        Schema_Node ty req ps items enum mi ma mil mal)"

definition set_items :: "schema_node option \<Rightarrow> schema_node \<Rightarrow> schema_node" where
  "set_items it s =
     (case s of Schema_Node ty req props items enum mi ma mil mal \<Rightarrow>
        Schema_Node ty req props it enum mi ma mil mal)"

fun decode_schema :: "schema_node \<Rightarrow> json \<Rightarrow> schema_node option"
and decode_schema_fields :: "schema_node \<Rightarrow> (string \<times> json) list \<Rightarrow> schema_node option"
and decode_schema_props ::
  "(string \<times> schema_node) list \<Rightarrow> (string \<times> json) list \<Rightarrow> (string \<times> schema_node) list option" where
  "decode_schema s (JObj ms) = decode_schema_fields s ms"
| "decode_schema s JNull = Some s"
| "decode_schema s _ = None"
| "decode_schema_fields s [] = Some s"
| "decode_schema_fields s ((k, v) # ms) =
     (case (if field_is ''properties'' k then
              (case v of
                 JNull \<Rightarrow> Some (set_properties [] s)
               | JObj ps \<Rightarrow> map_option (\<lambda>x. set_properties x s) (decode_schema_props (sn_properties s) ps)
               | _ \<Rightarrow> None)
            else if field_is ''items'' k then
              (if v = JNull then Some (set_items None s)
               else map_option (\<lambda>x. set_items (Some x) s)
                      (decode_schema (case sn_items s of None \<Rightarrow> empty_schema | Some i \<Rightarrow> i) v))
            else set_plain_field k v s) of
        None \<Rightarrow> None
      | Some s' \<Rightarrow> decode_schema_fields s' ms)"
| "decode_schema_props acc [] = Some acc"
| "decode_schema_props acc ((k, v) # ps) =
     (case decode_schema empty_schema v of
        None \<Rightarrow> None
      | Some n \<Rightarrow> decode_schema_props (gm_put k n acc) ps)"

definition unmarshal_schema :: "string \<Rightarrow> go_error + schema_node" where
  "unmarshal_schema text =
     (case Option.bind (json_text text) (decode_schema empty_schema) of
        None \<Rightarrow> Inl (ErrExternal ''json: cannot unmarshal'')
      | Some s \<Rightarrow> Inr s)"

section \<open>\<open>validateNode\<close>\<close>

definition missing :: "(string, gval) gomap \<Rightarrow> string \<Rightarrow> bool" where
  "missing m req \<longleftrightarrow> gm_get m req = None \<or> gm_get m req = Some VNil"

definition index_path :: "string \<Rightarrow> nat \<Rightarrow> string" where
  "index_path p i = p @ ''['' @ show_int (int i) @ '']''"

definition check_string :: "schema_node \<Rightarrow> gval \<Rightarrow> string \<Rightarrow> validation_error list" where
  "check_string s v p =
     (case v of
        VStr str \<Rightarrow>
          if sn_enum s \<noteq> [] \<and> VStr str \<notin> set (sn_enum s)
          then [verr p ''value %q not in enum %v'' [ArgStr str, ArgVal (VList (sn_enum s))]] else []
      | _ \<Rightarrow> [verr p ''expected string, got %T'' [ArgType (type_name v)]])"

definition check_integer :: "schema_node \<Rightarrow> gval \<Rightarrow> string \<Rightarrow> validation_error list" where
  "check_integer s v p =
     (case v of
        VFloat f \<Rightarrow>
          if \<not> f_eq f (f_of_int (f_to_i64 f)) then [verr p ''expected integer, got float'' []]
          else
            (case sn_minimum s of
               Some lo \<Rightarrow> if f_lt f lo
                 then [verr p ''value %v is less than minimum %v'' [ArgFloat f, ArgFloat lo]] else []
             | None \<Rightarrow> []) @
            (case sn_maximum s of
               Some hi \<Rightarrow> if f_lt hi f
                 then [verr p ''value %v is greater than maximum %v'' [ArgFloat f, ArgFloat hi]] else []
             | None \<Rightarrow> [])
      | VInt _ \<Rightarrow> []
      | VInt64 _ \<Rightarrow> []
      | _ \<Rightarrow> [verr p ''expected integer, got %T'' [ArgType (type_name v)]])"

definition check_number :: "gval \<Rightarrow> string \<Rightarrow> validation_error list" where
  "check_number v p =
     (case v of
        VFloat _ \<Rightarrow> [] | VInt _ \<Rightarrow> [] | VInt64 _ \<Rightarrow> []
      | _ \<Rightarrow> [verr p ''expected number, got %T'' [ArgType (type_name v)]])"

definition check_boolean :: "gval \<Rightarrow> string \<Rightarrow> validation_error list" where
  "check_boolean v p =
     (case v of VBool _ \<Rightarrow> [] | _ \<Rightarrow> [verr p ''expected boolean, got %T'' [ArgType (type_name v)]])"

definition check_required :: "schema_node \<Rightarrow> (string, gval) gomap \<Rightarrow> string \<Rightarrow> validation_error list" where
  "check_required s m p =
     map (\<lambda>req. verr (p @ ''.'' @ req) ''required field missing'' []) (filter (missing m) (sn_required s))"

lemma size_property [termination_simp]:
  "(k, ps) \<in> set (sn_properties s) \<Longrightarrow> size ps < size s"
proof (cases s)
  case (Schema_Node ty req props items enum mi ma mil mal)
  assume "(k, ps) \<in> set (sn_properties s)"
  moreover have "(k, ps) \<in> set props \<Longrightarrow> size ps < Suc (size_list (size_prod (\<lambda>_. 0) size) props)"
    by (induction props) auto
  ultimately show ?thesis using Schema_Node by auto
qed

lemma size_items [termination_simp]: "sn_items s = Some i \<Longrightarrow> size i < size s"
  by (cases s) auto

function validate_node :: "schema_node \<Rightarrow> gval \<Rightarrow> string \<Rightarrow> validation_error list" where
  "validate_node s v p =
     (if v = VNil then []
      else if sn_type s = ''object'' then
        (case as_map v of
           None \<Rightarrow> [verr p ''expected object, got %T'' [ArgType (type_name v)]]
         | Some m \<Rightarrow>
             check_required s m p @
             concat (map (\<lambda>(key, ps).
                 case gm_get m key of
                   Some w \<Rightarrow> if w \<noteq> VNil then validate_node ps w (p @ ''.'' @ key) else []
                 | None \<Rightarrow> []) (sn_properties s)))
      else if sn_type s = ''array'' then
        (case as_list v of
           None \<Rightarrow> [verr p ''expected array, got %T'' [ArgType (type_name v)]]
         | Some vs \<Rightarrow>
             (case sn_items s of
                None \<Rightarrow> []
              | Some it \<Rightarrow>
                  concat (map (\<lambda>(i, w). validate_node it w (index_path p i)) (enumerate 0 vs))))
      else if sn_type s = ''string'' then check_string s v p
      else if sn_type s = ''integer'' then check_integer s v p
      else if sn_type s = ''number'' then check_number v p
      else if sn_type s = ''boolean'' then check_boolean v p
      else [])"
  by pat_completeness auto
termination
  by (relation "measure (\<lambda>(s, v, p). size s)") (auto simp: size_property size_items)

declare validate_node.simps [simp del]

section \<open>\<open>validate\<close>, \<open>validateMap\<close> and the cache\<close>

type_synonym schema_cache = "(nat \<times> schema_node) list"

definition invalid_schema :: "go_error \<Rightarrow> validation_error list" where
  "invalid_schema e = [verr [] ''invalid schema definition: %v'' [ArgErr e]]"

definition validate :: "string \<Rightarrow> (string, gval) gomap option \<Rightarrow> validation_error list" where
  "validate schema_def payload =
     (case unmarshal_schema schema_def of
        Inl e \<Rightarrow> invalid_schema e
      | Inr s \<Rightarrow> validate_node s (map_value payload) ''payload'')"

definition parse_schema_map :: "(string, gval) gomap \<Rightarrow> go_error + schema_node" where
  "parse_schema_map m = (case json_marshal (VMap m) of Inl e \<Rightarrow> Inl e | Inr text \<Rightarrow> unmarshal_schema text)"

definition validate_map ::
  "schema_cache \<Rightarrow> nat \<times> (string, gval) gomap \<Rightarrow> (string, gval) gomap option \<Rightarrow>
   validation_error list \<times> schema_cache" where
  "validate_map cache schema payload =
     (case schema of (key, m) \<Rightarrow>
        case gm_get cache key of
          Some s \<Rightarrow> (validate_node s (map_value payload) ''payload'', cache)
        | None \<Rightarrow>
            (case parse_schema_map m of
               Inl e \<Rightarrow> (invalid_schema e, cache)
             | Inr s \<Rightarrow> (validate_node s (map_value payload) ''payload'', gm_put key s cache)))"

end
