(* ===== verification/Validator_Props.thy ===== *)
theory Validator_Props
  imports Validator
begin

text \<open>
  What the schema validator decides, compared with the meaning of the same keywords in JSON Schema; the
  constraints it does not enforce; and the transparency of its cache.
\<close>

section \<open>The meaning of a schema\<close>

text \<open>
  JSON Schema's meaning of the keywords a node holds: \<open>type\<close>, \<open>enum\<close>, \<open>minimum\<close> and \<open>maximum\<close> of any
  number, \<open>minLength\<close> and \<open>maxLength\<close> in code points, \<open>required\<close>, \<open>properties\<close> and \<open>items\<close>. A node without
  a type leaves the type open; every keyword constrains the values of its own kind only.
\<close>

definition integral :: "f64 \<Rightarrow> bool" where
  "integral f = (case f_val f of None \<Rightarrow> False | Some r \<Rightarrow> of_int (floor r) = r)"

definition has_type :: "string \<Rightarrow> gval \<Rightarrow> bool" where
  "has_type t v =
     (if t = [] then True
      else case v of
        VNil \<Rightarrow> t = ''null''
      | VBool b \<Rightarrow> t = ''boolean''
      | VFloat f \<Rightarrow> t = ''number'' \<or> t = ''integer'' \<and> integral f
      | VInt i \<Rightarrow> t = ''number'' \<or> t = ''integer''
      | VInt64 i \<Rightarrow> t = ''number'' \<or> t = ''integer''
      | VStr s \<Rightarrow> t = ''string''
      | VList vs \<Rightarrow> t = ''array''
      | VMap m \<Rightarrow> t = ''object''
      | VNilMap \<Rightarrow> t = ''null'')"

function (sequential) json_eq :: "gval \<Rightarrow> gval \<Rightarrow> bool" where
  "json_eq (VFloat f) (VFloat g) = f_eq f g"
| "json_eq (VList vs) (VList ws) = list_all2 json_eq vs ws"
| "json_eq (VMap m) (VMap n) =
     (length m = length n \<and> list_all (\<lambda>(k, v). case gm_get n k of None \<Rightarrow> False | Some w \<Rightarrow> json_eq v w) m)"
| "json_eq v w = (v = w)"
  by pat_completeness auto
termination
  by (relation "measure (\<lambda>(v, w). size v)") (auto dest: gval_size_entry gval_size_elem)

definition code_points :: "string \<Rightarrow> int" where
  "code_points s = int (length (filter (\<lambda>c. \<not> byte_in c 128 191) s))"

definition in_range :: "schema_node \<Rightarrow> f64 \<Rightarrow> bool" where
  "in_range s f \<longleftrightarrow>
     (case sn_minimum s of None \<Rightarrow> True | Some lo \<Rightarrow> \<not> f_lt f lo) \<and>
     (case sn_maximum s of None \<Rightarrow> True | Some hi \<Rightarrow> \<not> f_lt hi f)"

definition in_length :: "schema_node \<Rightarrow> string \<Rightarrow> bool" where
  "in_length s t \<longleftrightarrow>
     (case sn_min_length s of None \<Rightarrow> True | Some lo \<Rightarrow> lo \<le> code_points t) \<and>
     (case sn_max_length s of None \<Rightarrow> True | Some hi \<Rightarrow> code_points t \<le> hi)"

function admits :: "schema_node \<Rightarrow> gval \<Rightarrow> bool" where
  "admits s v \<longleftrightarrow>
     has_type (sn_type s) v \<and> (sn_enum s = [] \<or> list_ex (json_eq v) (sn_enum s)) \<and>
     (case v of
        VFloat f \<Rightarrow> in_range s f
      | VInt i \<Rightarrow> in_range s (f_of_int i)
      | VInt64 i \<Rightarrow> in_range s (f_of_int i)
      | VStr t \<Rightarrow> in_length s t
      | VList vs \<Rightarrow> (case sn_items s of None \<Rightarrow> True | Some it \<Rightarrow> list_all (admits it) vs)
      | VMap m \<Rightarrow> list_all (gm_has m) (sn_required s) \<and>
          list_all (\<lambda>(k, ps). case gm_get m k of None \<Rightarrow> True | Some w \<Rightarrow> admits ps w) (sn_properties s)
      | _ \<Rightarrow> True)"
  by pat_completeness auto
termination
  by (relation "measure (\<lambda>(s, v). size s)") (auto simp: size_property size_items)

declare admits.simps [simp del]

text \<open>
  A decoded JSON text without nulls: a number is a \<open>float64\<close>, here below \<open>2 ^ 63\<close> in magnitude. A null is
  left out because the validator takes a null property for an absent one.
\<close>

fun plain_number :: "f64 \<Rightarrow> bool" where
  "plain_number (Fin r) = (rnd64 r = Fin r \<and> \<bar>r\<bar> < 2 ^ 63)"
| "plain_number NegZero = True"
| "plain_number _ = False"

fun plain_json :: "gval \<Rightarrow> bool" where
  "plain_json (VStr s) = True"
| "plain_json (VBool b) = True"
| "plain_json (VFloat f) = plain_number f"
| "plain_json (VList vs) = list_all plain_json vs"
| "plain_json (VMap m) = list_all (\<lambda>(k, v). plain_json v) m"
| "plain_json _ = False"

text \<open>
  The schemas all of whose keywords the validator enforces: every node has one of the six types (or says
  nothing at all), only strings have an enumeration, none of them a length limit, and a \<open>number\<close> no bounds.
\<close>

definition keywords_enforced :: "schema_node \<Rightarrow> bool" where
  "keywords_enforced s \<longleftrightarrow>
     (s = empty_schema \<or> sn_type s \<in> {''object'', ''array'', ''string'', ''integer'', ''number'', ''boolean''}) \<and>
     (sn_enum s = [] \<or> sn_type s = ''string'') \<and>
     (sn_type s = ''number'' \<longrightarrow> sn_minimum s = None \<and> sn_maximum s = None) \<and>
     (sn_type s = ''string'' \<longrightarrow> sn_min_length s = None \<and> sn_max_length s = None)"

function enforced :: "schema_node \<Rightarrow> bool" where
  "enforced s \<longleftrightarrow> keywords_enforced s \<and> list_all (\<lambda>(k, ps). enforced ps) (sn_properties s) \<and>
     (case sn_items s of None \<Rightarrow> True | Some it \<Rightarrow> enforced it)"
  by pat_completeness auto
termination
  by (relation "measure size") (auto simp: size_property size_items)

declare enforced.simps [simp del]

section \<open>Integers among the numbers\<close>

lemma rnd_pos_integral:
  assumes "0 < n"
  shows "\<exists>k. rnd_pos (of_int n) = of_int k"
proof (cases "0 \<le> ulp_exp (of_int n)")
  case True
  then have "pow2 (ulp_exp (of_int n)) = of_int (2 ^ nat (ulp_exp (of_int n)))" by (simp add: pow2_def)
  then have "rnd_pos (of_int n) =
      of_int (round_even (of_int n / pow2 (ulp_exp (of_int n))) * 2 ^ nat (ulp_exp (of_int n)))"
    by (simp add: rnd_pos_def)
  then show ?thesis by blast
next
  case False
  then have "of_int n / pow2 (ulp_exp (of_int n)) = of_int (n * 2 ^ nat (- ulp_exp (of_int n)))"
    by (simp add: pow2_def)
  from rnd_pos_exact [OF this] show ?thesis by blast
qed

lemma f_of_int_integral:
  assumes "f_val (f_of_int n) = Some r"
  shows "\<exists>k. r = of_int k"
proof (cases "n = 0")
  case True
  with assms show ?thesis by (auto simp: f_of_int_def rnd64_def intro: exI [of _ 0])
next
  case False
  then obtain k where k: "rnd_pos \<bar>of_int n\<bar> = (of_int k :: rat)"
    using rnd_pos_integral [of "\<bar>n\<bar>"] by auto
  from assms False have "r = 0 \<or> r = sgn (of_int n) * of_int k"
    by (auto simp: f_of_int_def rnd64_def Let_def k split: if_splits)
  then have "r = of_int 0 \<or> r = of_int (sgn n * k)" by (auto simp: sgn_if split: if_splits)
  then show ?thesis by blast
qed

text \<open>The validator's test for integers, on such numbers.\<close>

lemma integer_test:
  assumes "plain_number f"
  shows "f_eq f (f_of_int (f_to_i64 f)) \<longleftrightarrow> integral f"
proof (cases f)
  case (Fin r)
  with assms have r: "rnd64 r = Fin r" "\<bar>r\<bar> < 2 ^ 63" by simp_all
  have t: "f_to_i64 f = trunc_rat r"
    using r(2) by (auto simp: Fin f_to_i64_def trunc_rat_def in_i64_def min_i64_def max_i64_def) linarith+
  show ?thesis
  proof
    assume "integral f"
    then have i: "of_int (floor r) = r" by (simp add: integral_def Fin)
    then have "of_int (trunc_rat r) = r" by (metis floor_of_int of_int_minus trunc_rat_def minus_minus)
    with r(1) have "f_of_int (f_to_i64 f) = Fin r" by (simp only: t f_of_int_def)
    then show "f_eq f (f_of_int (f_to_i64 f))" by (simp add: Fin f_eq_def)
  next
    assume "f_eq f (f_of_int (f_to_i64 f))"
    then have "f_val (f_of_int (f_to_i64 f)) = Some r"
      by (cases "f_of_int (f_to_i64 f)") (auto simp: Fin f_eq_def)
    from f_of_int_integral [OF this] show "integral f" by (auto simp: integral_def Fin)
  qed
next
  case NegZero
  then show ?thesis by (simp add: integral_def f_eq_def f_to_i64_def trunc_rat_def in_i64_def min_i64_def max_i64_def
      f_of_int_def rnd64_def)
qed (use assms in simp_all)

section \<open>The validator's verdict\<close>

lemma validate_node_nil [simp]: "validate_node s VNil p = []"
  by (simp add: validate_node.simps)

lemma check_required_ok: "check_required s m p = [] \<longleftrightarrow>
    (\<forall>r \<in> set (sn_required s). \<exists>w. gm_get m r = Some w \<and> w \<noteq> VNil)"
  by (auto simp: check_required_def missing_def filter_empty_conv)

lemma validate_object:
  assumes "sn_type s = ''object''"
  shows "validate_node s (VMap m) p = [] \<longleftrightarrow> check_required s m p = [] \<and>
     (\<forall>k ps w. (k, ps) \<in> set (sn_properties s) \<longrightarrow> gm_get m k = Some w \<longrightarrow> validate_node ps w (p @ ''.'' @ k) = [])"
proof -
  have "validate_node s (VMap m) p = [] \<longleftrightarrow> check_required s m p = [] \<and>
      (\<forall>x \<in> set (sn_properties s). (case x of (k, ps) \<Rightarrow> case gm_get m k of
         Some w \<Rightarrow> if w \<noteq> VNil then validate_node ps w (p @ ''.'' @ k) else [] | None \<Rightarrow> []) = [])"
    using assms by (subst validate_node.simps) simp
  also have "\<dots> \<longleftrightarrow> check_required s m p = [] \<and>
     (\<forall>k ps w. (k, ps) \<in> set (sn_properties s) \<longrightarrow> gm_get m k = Some w \<longrightarrow> validate_node ps w (p @ ''.'' @ k) = [])"
    by (intro conj_cong refl) (force split: option.splits if_splits)
  finally show ?thesis .
qed

lemma validate_array:
  assumes "sn_type s = ''array''"
  shows "validate_node s (VList vs) p = [] \<longleftrightarrow>
     (\<forall>it i. sn_items s = Some it \<longrightarrow> i < length vs \<longrightarrow> validate_node it (vs ! i) (index_path p i) = [])"
proof -
  have "(\<forall>x \<in> set (enumerate 0 vs). (case x of (i, w) \<Rightarrow> validate_node it w (index_path p i)) = []) \<longleftrightarrow>
      (\<forall>i < length vs. validate_node it (vs ! i) (index_path p i) = [])" for it
    unfolding all_set_conv_all_nth by (simp add: nth_enumerate_eq)
  then show ?thesis using assms by (subst validate_node.simps) (auto split: option.split)
qed

text \<open>A value of the type is checked by the keywords of the type.\<close>

lemma validate_flat:
  assumes "sn_type s \<noteq> ''object''" "sn_type s \<noteq> ''array''" "plain_json v"
  shows "validate_node s v p = [] \<longleftrightarrow>
     (sn_type s \<in> {''string'', ''integer'', ''number'', ''boolean''} \<longrightarrow> has_type (sn_type s) v) \<and>
     (sn_type s = ''string'' \<longrightarrow> sn_enum s = [] \<or> v \<in> set (sn_enum s)) \<and>
     (sn_type s = ''integer'' \<longrightarrow> (case v of VFloat f \<Rightarrow> in_range s f | _ \<Rightarrow> True))"
proof -
  consider "sn_type s = ''string''" | "sn_type s = ''integer''" | "sn_type s = ''number''" | "sn_type s = ''boolean''"
    | "sn_type s \<notin> {''string'', ''integer'', ''number'', ''boolean''}" by blast
  then show ?thesis
    by cases (use assms in \<open>cases v; auto simp: validate_node.simps check_string_def check_integer_def check_number_def
      check_boolean_def has_type_def in_range_def integer_test split: option.splits\<close>)+
qed

lemma plain_entry: "plain_json (VMap m) \<Longrightarrow> gm_get m k = Some w \<Longrightarrow> plain_json w \<and> w \<noteq> VNil"
  by (auto simp: list_all_iff dest!: gm_get_Some_in)

lemma admitted_passes: "plain_json v \<Longrightarrow> admits s v \<Longrightarrow> validate_node s v p = []"
proof (induction "size s" arbitrary: s v p rule: less_induct)
  case less
  note a = less.prems(2) [unfolded admits.simps [of s v]]
  consider (obj) "sn_type s = ''object''" | (arr) "sn_type s = ''array''"
    | (flat) "sn_type s \<noteq> ''object''" "sn_type s \<noteq> ''array''" by blast
  then show ?case
  proof cases
    case obj
    with a less.prems(1) obtain m where v: "v = VMap m" by (cases v) (auto simp: has_type_def)
    have "check_required s m p = []"
      using a plain_entry [of m] less.prems(1) by (auto simp: v check_required_ok list_all_iff gm_has_def)
    moreover have "validate_node ps w (p @ ''.'' @ k) = []" if "(k, ps) \<in> set (sn_properties s)" "gm_get m k = Some w" for k ps w
      using less.hyps [OF size_property [OF that(1)]] a that plain_entry [of m k w] less.prems(1)
      by (auto simp: v list_all_iff)
    ultimately show ?thesis unfolding v validate_object [OF obj] by blast
  next
    case arr
    with a less.prems(1) obtain vs where v: "v = VList vs" by (cases v) (auto simp: has_type_def)
    have "validate_node it (vs ! i) (index_path p i) = []" if "sn_items s = Some it" "i < length vs" for it i
      using less.hyps [OF size_items [OF that(1)]] a that less.prems(1) by (auto simp: v list_all_iff)
    then show ?thesis unfolding v validate_array [OF arr] by blast
  next
    case flat
    then show ?thesis
      unfolding validate_flat [OF flat less.prems(1)] using a
      by (cases v) (auto simp: has_type_def list_ex_iff split: if_splits elim!: json_eq.elims)
  qed
qed

lemma passing_admitted: "plain_json v \<Longrightarrow> enforced s \<Longrightarrow> validate_node s v p = [] \<Longrightarrow> admits s v"
proof (induction "size s" arbitrary: s v p rule: less_induct)
  case less
  note e = less.prems(2) [unfolded enforced.simps [of s]]
  consider (obj) "sn_type s = ''object''" | (arr) "sn_type s = ''array''"
    | (flat) "sn_type s \<noteq> ''object''" "sn_type s \<noteq> ''array''" by blast
  then show ?case
  proof cases
    case obj
    have "as_map v \<noteq> None" using less.prems(1,3) obj by (cases v) (auto simp: validate_node.simps)
    with less.prems(1) obtain m where v: "v = VMap m" by (cases v) auto
    note val = less.prems(3) [unfolded v validate_object [OF obj]]
    have "admits ps w" if "(k, ps) \<in> set (sn_properties s)" "gm_get m k = Some w" for k ps w
    proof (rule less.hyps [OF size_property [OF that(1)]])
      show "plain_json w" using plain_entry less.prems(1) that(2) by (simp only: v)
      show "enforced ps" using e that(1) by (auto simp: list_all_iff)
      show "validate_node ps w (p @ ''.'' @ k) = []" using val that by blast
    qed
    with val e obj show ?thesis
      by (subst admits.simps)
        (auto simp: v has_type_def keywords_enforced_def check_required_ok list_all_iff gm_has_def split: option.split)
  next
    case arr
    have "as_list v \<noteq> None" using less.prems(1,3) arr by (cases v) (auto simp: validate_node.simps)
    then obtain vs where v: "v = VList vs" by (cases v) auto
    note val = less.prems(3) [unfolded v validate_array [OF arr]]
    have "admits it w" if it: "sn_items s = Some it" and "w \<in> set vs" for it w
    proof -
      from that(2) obtain i where "i < length vs" "w = vs ! i" by (auto simp: in_set_conv_nth)
      with less.hyps [OF size_items [OF it]] val it e less.prems(1) show ?thesis by (auto simp: v list_all_iff)
    qed
    with e arr show ?thesis
      by (subst admits.simps) (auto simp: v has_type_def keywords_enforced_def list_all_iff split: option.split)
  next
    case flat
    from e consider "s = empty_schema" | "sn_type s = ''string''" | "sn_type s = ''integer''" | "sn_type s = ''number''"
      | "sn_type s = ''boolean''" using flat by (auto simp: keywords_enforced_def)
    then show ?thesis
    proof cases
      case 1
      then show ?thesis
        by (subst admits.simps) (auto simp: empty_schema_def has_type_def in_range_def in_length_def split: gval.split)
    qed (use less.prems(3) [unfolded validate_flat [OF flat less.prems(1)]] e less.prems(1) in
      \<open>subst admits.simps; cases v;
        auto simp: has_type_def keywords_enforced_def in_range_def in_length_def list_ex_iff\<close>)+
  qed
qed

section \<open>Properties\<close>

text \<open>C39
  The validator against JSON Schema, on payloads without nulls whose numbers are below \<open>2 ^ 63\<close>: it reports
  nothing for any value the schema admits; and for schemas that use only the keywords it enforces, it
  reports nothing exactly for the values the schema admits. Not enforced are length limits, the bounds of a
  \<open>number\<close>, enumerations of anything but strings, and any keyword of a node without a type.\<close>

theorem validation_accepts:
  assumes "plain_json (VMap payload)"
  shows "(admits s (VMap payload) \<longrightarrow> validate_node s (map_value (Some payload)) ''payload'' = []) \<and>
    (enforced s \<longrightarrow>
      (validate_node s (map_value (Some payload)) ''payload'' = [] \<longleftrightarrow> admits s (VMap payload)))"
  using admitted_passes [OF assms] passing_admitted [OF assms] by (auto simp: map_value_def)

definition demo_schema :: schema_node where
  "demo_schema = Schema_Node ''object'' [''id'']
     [(''id'', Schema_Node ''integer'' [] [] None [] (Some (Fin 1)) None None None),
      (''tags'', Schema_Node ''array'' [] [] (Some (Schema_Node ''string'' [] [] None [VStr ''a''] None None None None))
         [] None None None None)] None [] None None None None"

theorem validation_accepts_witness:
  "enforced demo_schema \<and> plain_json (VMap [(''id'', VFloat (Fin 7)), (''tags'', VList [VStr ''a''])]) \<and>
   validate_node demo_schema (map_value (Some [(''id'', VFloat (Fin 7)), (''tags'', VList [VStr ''a''])])) ''payload'' = [] \<and>
   validate_node demo_schema (map_value (Some [(''id'', VFloat (Fin 0))])) ''payload'' \<noteq> []"
proof -
  let ?p = "[(''id'', VFloat (Fin 7)), (''tags'', VList [VStr ''a''])]" and ?q = "[(''id'', VFloat (Fin 0))]"
  have f: "plain_json (VMap ?p)" "plain_json (VMap ?q)" "enforced demo_schema"
    "admits demo_schema (VMap ?p)" "\<not> admits demo_schema (VMap ?q)"
    by code_simp+
  from validation_accepts [OF f(1), of demo_schema] validation_accepts [OF f(2), of demo_schema] f show ?thesis by blast
qed

text \<open>Dropping every length limit of a schema.\<close>

fun drop_lengths :: "schema_node \<Rightarrow> schema_node" where
  "drop_lengths (Schema_Node ty req props items enum mi ma mil mal) =
     Schema_Node ty req (map (\<lambda>(k, s). (k, drop_lengths s)) props) (map_option drop_lengths items)
       enum mi ma None None"

lemma drop_lengths_fields [simp]:
  "sn_type (drop_lengths s) = sn_type s" "sn_required (drop_lengths s) = sn_required s"
  "sn_properties (drop_lengths s) = map (\<lambda>(k, s). (k, drop_lengths s)) (sn_properties s)"
  "sn_items (drop_lengths s) = map_option drop_lengths (sn_items s)"
  "sn_enum (drop_lengths s) = sn_enum s"
  "sn_minimum (drop_lengths s) = sn_minimum s" "sn_maximum (drop_lengths s) = sn_maximum s"
  by (cases s; simp)+

lemma drop_lengths_checks [simp]:
  "check_required (drop_lengths s) m p = check_required s m p"
  "check_string (drop_lengths s) v p = check_string s v p"
  "check_integer (drop_lengths s) v p = check_integer s v p"
  unfolding check_required_def check_string_def check_integer_def drop_lengths_fields by (rule refl)+

lemma validate_drop_lengths: "validate_node (drop_lengths s) v p = validate_node s v p"
proof (induction s v p rule: validate_node.induct)
  case (1 s v p)
  show ?case
  proof (cases "v = VNil")
    case nn: False
    have obj: "(case gm_get m key of
             Some w \<Rightarrow> if w \<noteq> VNil then validate_node (drop_lengths ps) w (p @ ''.'' @ key) else []
           | None \<Rightarrow> []) =
          (case gm_get m key of
             Some w \<Rightarrow> if w \<noteq> VNil then validate_node ps w (p @ ''.'' @ key) else []
           | None \<Rightarrow> [])"
      if "sn_type s = ''object''" "as_map v = Some m" "(key, ps) \<in> set (sn_properties s)" for m key ps
      using "1.IH"(1) [OF nn that(1,2,3) refl] by (auto split: option.splits)
    have arr: "validate_node (drop_lengths it) w (index_path p i) = validate_node it w (index_path p i)"
      if "sn_type s = ''array''" "as_list v = Some vs" "sn_items s = Some it" "(i, w) \<in> set (enumerate 0 vs)"
      for vs it i w
      using "1.IH"(2) [OF nn _ that refl] that(1) by simp
    have A: "map (\<lambda>(key, ps). case gm_get m key of
             Some w \<Rightarrow> if w \<noteq> VNil then validate_node ps w (p @ ''.'' @ key) else []
           | None \<Rightarrow> []) (map (\<lambda>(k, s). (k, drop_lengths s)) (sn_properties s)) =
          map (\<lambda>(key, ps). case gm_get m key of
             Some w \<Rightarrow> if w \<noteq> VNil then validate_node ps w (p @ ''.'' @ key) else []
           | None \<Rightarrow> []) (sn_properties s)"
      if "sn_type s = ''object''" "as_map v = Some m" for m
      using obj [OF that] by auto
    have B: "map (\<lambda>(i, w). validate_node (drop_lengths it) w (index_path p i)) (enumerate 0 vs) =
          map (\<lambda>(i, w). validate_node it w (index_path p i)) (enumerate 0 vs)"
      if "sn_type s = ''array''" "as_list v = Some vs" "sn_items s = Some it" for vs it
      using arr [OF that] by auto
    show ?thesis
      unfolding validate_node.simps [of s v p] validate_node.simps [of "drop_lengths s" v p]
        drop_lengths_fields drop_lengths_checks
      by (auto simp: A B split: option.splits simp del: map_map map_eq_conv)
  qed simp
qed

text \<open>
  \<open>minLength\<close> and \<open>maxLength\<close> are decoded but never looked at: removing them everywhere from a
  schema changes no verdict and no message, for any payload.\<close>

theorem lengths_not_enforced:
  "validate_node (drop_lengths s) v p = validate_node s v p"
  by (rule validate_drop_lengths)

text \<open>
  The cache holds what parsing gives: \<open>heap\<close> tells which schema map lies at an address, and the maps
  do not change.
\<close>

definition cache_ok :: "(nat \<Rightarrow> (string, gval) gomap) \<Rightarrow> schema_cache \<Rightarrow> bool" where
  "cache_ok heap cache \<longleftrightarrow> (\<forall>a s. gm_get cache a = Some s \<longrightarrow> parse_schema_map (heap a) = Inr s)"

text \<open>C40
  The cache is transparent: as long as it holds parse results of the maps at its addresses, every
  validation gives what an empty cache would give, and the cache stays so.\<close>

theorem cache_transparent:
  assumes "cache_ok heap cache"
  shows "fst (validate_map cache (a, heap a) payload) = fst (validate_map [] (a, heap a) payload) \<and>
         cache_ok heap (snd (validate_map cache (a, heap a) payload))"
  using assms
  by (auto simp: validate_map_def cache_ok_def split: option.splits sum.splits)

theorem cache_transparent_witness:
  "cache_ok (\<lambda>_. [(''type'', VStr ''object'')]) [(0, Schema_Node ''object'' [] [] None [] None None None None)] \<and>
   fst (validate_map [(0, Schema_Node ''object'' [] [] None [] None None None None)]
     (0, [(''type'', VStr ''object'')]) None) =
   fst (validate_map [] (0, [(''type'', VStr ''object'')]) None)"
proof -
  have "parse_schema_map [(''type'', VStr ''object'')] = Inr (Schema_Node ''object'' [] [] None [] None None None None)"
    by code_simp
  then have c: "cache_ok (\<lambda>_. [(''type'', VStr ''object'')]) [(0, Schema_Node ''object'' [] [] None [] None None None None)]"
    by (simp add: cache_ok_def gm_get_def)
  from cache_transparent [OF c, of 0 None] c show ?thesis by blast
qed

end
