(* ===== verification/Effects.thy ===== *)
theory Effects
  imports Mapping_Engine
begin

text \<open>
  What the handlers do to the outside. A handler is a tree of calls: each node is one SQL statement,
  one AMQP publication, one HTTP request to a vendor, or one reading of the clock or the random
  source, and branches on the reply. \<open>run\<close> executes a tree alone; the tree's nodes are also the
  points at which the handlers of concurrent goroutines interleave.
\<close>

section \<open>Calls and replies\<close>

text \<open>An \<open>amqp.Publishing\<close>, as far as the code sets it.\<close>

record publishing =
  pb_content_type :: string
  pb_persistent :: bool
  pb_headers :: "(string, gval) gomap"
  pb_expiration :: string
  pb_body :: string

text \<open>The SQL statements of \<open>internal/db/postgres/db.go\<close> with their parameters.\<close>

datatype stmt =
    Upsert_Notification upsert_params
  | Select_Notification string
  | Select_Payload string
  | Update_Notification_Status string string
  | Select_Event_Type string
  | Insert_Task string string string
  | Select_Task string
  | Update_Task_Status string string
  | Update_Task_Retry string int int last_error
  | Update_Dead_Letter string last_error
  | Count_Tasks string
  | Select_Tasks string
  | Count_Notifications "string option" "string option"
  | Page_Notifications "string option" "string option" int int
  | Select_Schema string

datatype call =
    Sql stmt
  | Publish string string publishing
  | Http_Do http_request
  | Time_Now
  | Rand_Float

text \<open>
  The reply to a query of several rows holds the rows that arrive and the error \<open>rows.Err()\<close> reports
  when \<open>rows.Next()\<close> ends, which includes errors raised while the query executes.
\<close>

datatype reply =
    Failed go_error
  | Done
  | Row_Upsert string bool
  | Row_Notification notification
  | Row_Payload "(string, gval) gomap option"
  | Row_Text string
  | Row_Task delivery_task
  | Row_Counts int int int
  | Row_Int int
  | Rows_Tasks "delivery_task list" "go_error option"
  | Rows_Notifications "notification list" "go_error option"
  | Reply_Http int string
  | Reply_Time int
  | Reply_Float f64

text \<open>
  Reading a reply into Go variables: the error of the call, or of a \<open>Scan\<close> whose destination does
  not fit the row. The two loops over \<open>rows.Next()\<close> never look at \<open>rows.Err()\<close>.
\<close>

definition scan_error :: go_error where
  "scan_error = ErrExternal ''scan: cannot assign''"

fun scan_done :: "reply \<Rightarrow> go_error option" where
  "scan_done Done = None"
| "scan_done (Failed e) = Some e"
| "scan_done _ = Some scan_error"

fun scan_upsert :: "reply \<Rightarrow> go_error + string \<times> bool" where
  "scan_upsert (Row_Upsert i b) = Inr (i, b)"
| "scan_upsert (Failed e) = Inl e"
| "scan_upsert _ = Inl scan_error"

fun scan_notification :: "reply \<Rightarrow> go_error + notification" where
  "scan_notification (Row_Notification n) = Inr n"
| "scan_notification (Failed e) = Inl e"
| "scan_notification _ = Inl scan_error"

fun scan_payload :: "reply \<Rightarrow> go_error + (string, gval) gomap option" where
  "scan_payload (Row_Payload p) = Inr p"
| "scan_payload (Failed e) = Inl e"
| "scan_payload _ = Inl scan_error"

fun scan_text :: "reply \<Rightarrow> go_error + string" where
  "scan_text (Row_Text s) = Inr s"
| "scan_text (Failed e) = Inl e"
| "scan_text _ = Inl scan_error"

fun scan_task :: "reply \<Rightarrow> go_error + delivery_task" where
  "scan_task (Row_Task t) = Inr t"
| "scan_task (Failed e) = Inl e"
| "scan_task _ = Inl scan_error"

fun scan_counts :: "reply \<Rightarrow> go_error + int \<times> int \<times> int" where
  "scan_counts (Row_Counts a b c) = Inr (a, b, c)"
| "scan_counts (Failed e) = Inl e"
| "scan_counts _ = Inl scan_error"

fun scan_int :: "reply \<Rightarrow> go_error + int" where
  "scan_int (Row_Int n) = Inr n"
| "scan_int (Failed e) = Inl e"
| "scan_int _ = Inl scan_error"

fun scan_tasks :: "reply \<Rightarrow> go_error + delivery_task list" where
  "scan_tasks (Rows_Tasks ts late) = Inr ts"
| "scan_tasks (Failed e) = Inl e"
| "scan_tasks _ = Inl scan_error"

fun scan_notifications :: "reply \<Rightarrow> go_error + notification list" where
  "scan_notifications (Rows_Notifications ns late) = Inr ns"
| "scan_notifications (Failed e) = Inl e"
| "scan_notifications _ = Inl scan_error"

fun http_reply :: "reply \<Rightarrow> go_error + int \<times> string" where
  "http_reply (Reply_Http c s) = Inr (c, s)"
| "http_reply (Failed e) = Inl e"
| "http_reply _ = Inl scan_error"

fun time_reply :: "reply \<Rightarrow> int" where
  "time_reply (Reply_Time t) = t"
| "time_reply _ = 0"

fun float_reply :: "reply \<Rightarrow> f64" where
  "float_reply (Reply_Float f) = f"
| "float_reply _ = Fin 0"

section \<open>Programs\<close>

text \<open>\<open>Panic\<close> is a run-time panic, which nothing in the program recovers.\<close>

datatype 'r prog = Ret 'r | Panic string | Call call "reply \<Rightarrow> 'r prog"

primrec bind :: "'a prog \<Rightarrow> ('a \<Rightarrow> 'b prog) \<Rightarrow> 'b prog" where
  "bind (Ret x) f = f x"
| "bind (Panic s) f = Panic s"
| "bind (Call c k) f = Call c (\<lambda>r. bind (k r) f)"

text \<open>\<open>x, err := p; if err != nil { return h(err) }; k(x)\<close>\<close>

definition try_call :: "(go_error + 'a) prog \<Rightarrow> (go_error \<Rightarrow> 'b prog) \<Rightarrow> ('a \<Rightarrow> 'b prog) \<Rightarrow> 'b prog" where
  "try_call p h k = bind p (\<lambda>r. case r of Inl e \<Rightarrow> h e | Inr x \<Rightarrow> k x)"

text \<open>\<open>if err := p; err != nil { return h(err) }; k\<close>\<close>

definition check_err :: "go_error option prog \<Rightarrow> (go_error \<Rightarrow> 'b prog) \<Rightarrow> 'b prog \<Rightarrow> 'b prog" where
  "check_err p h k = bind p (\<lambda>r. case r of Some e \<Rightarrow> h e | None \<Rightarrow> k)"

definition ask :: "call \<Rightarrow> (reply \<Rightarrow> 'a) \<Rightarrow> 'a prog" where
  "ask c scan = Call c (\<lambda>r. Ret (scan r))"

definition wrap_err :: "string \<Rightarrow> (go_error + 'a) prog \<Rightarrow> (go_error + 'a) prog" where
  "wrap_err fmt p = bind p (\<lambda>r. Ret (map_err (\<lambda>e. Errorf fmt [ArgErr e]) r))"

definition wrap_opt :: "string \<Rightarrow> go_error option prog \<Rightarrow> go_error option prog" where
  "wrap_opt fmt p = bind p (\<lambda>r. Ret (map_option (\<lambda>e. Errorf fmt [ArgErr e]) r))"

lemma bind_Ret [simp]: "bind p Ret = p"
  by (induction p) auto

lemma bind_bind: "bind (bind p f) g = bind p (\<lambda>x. bind (f x) g)"
  by (induction p) auto

section \<open>The configuration as its clients see it\<close>

text \<open>
  The interface \<open>ConfigProvider\<close>. Loaded configuration does not change, so the getters send nothing. Beside
  a nil error the pointer may be nil (\<open>Inr None\<close>), and \<open>GetDeliverySpec\<close>, which dereferences what is
  stored, may panic. A schema is a Go map; the number is its address, which the schema validator uses as a
  cache key.
\<close>

record config_provider =
  cp_vendor_config :: "string \<Rightarrow> go_error + vendor_config option"
  cp_delivery_spec :: "string \<Rightarrow> string \<Rightarrow> (go_error + delivery_spec option) prog"
  cp_routing_rules :: "string \<Rightarrow> go_error + routing_rule list"
  cp_event_schema :: "string \<Rightarrow> go_error + nat \<times> (string, gval) gomap"

text \<open>A configuration whose getters return a value or an error.\<close>

definition config_total :: "config_provider \<Rightarrow> bool" where
  "config_total cfg \<longleftrightarrow>
     (\<forall>v. cp_vendor_config cfg v \<noteq> Inr None) \<and>
     (\<forall>v ev. \<exists>r. cp_delivery_spec cfg v ev = Ret r \<and> r \<noteq> Inr None)"

section \<open>Running a program alone\<close>

text \<open>A world answers each call and changes; \<open>Inl\<close> is a panic.\<close>

type_synonym 'w exec = "call \<Rightarrow> 'w \<Rightarrow> reply \<times> 'w"

primrec run :: "'w exec \<Rightarrow> 'r prog \<Rightarrow> 'w \<Rightarrow> (string + 'r) \<times> 'w" where
  "run ex (Ret x) w = (Inr x, w)"
| "run ex (Panic s) w = (Inl s, w)"
| "run ex (Call c k) w = (case ex c w of (r, w') \<Rightarrow> run ex (k r) w')"

lemma run_bind:
  "run ex (bind p f) w =
     (case run ex p w of (Inl s, w') \<Rightarrow> (Inl s, w') | (Inr x, w') \<Rightarrow> run ex (f x) w')"
  by (induction p arbitrary: w) (auto split: prod.split)

lemma run_bind_Inr: "run ex p w = (Inr x, w') \<Longrightarrow> run ex (bind p f) w = run ex (f x) w'"
  by (simp add: run_bind)

lemma run_ask [simp]: "run ex (ask c scan) w = (case ex c w of (r, w') \<Rightarrow> (Inr (scan r), w'))"
  by (simp add: ask_def)

lemma run_try_Inl:
  "run ex p w = (Inr (Inl e), w') \<Longrightarrow> run ex (try_call p h k) w = run ex (h e) w'"
  by (simp add: try_call_def run_bind)

lemma run_try_Inr:
  "run ex p w = (Inr (Inr x), w') \<Longrightarrow> run ex (try_call p h k) w = run ex (k x) w'"
  by (simp add: try_call_def run_bind)

lemma run_check_None:
  "run ex p w = (Inr None, w') \<Longrightarrow> run ex (check_err p h k) w = run ex k w'"
  by (simp add: check_err_def run_bind)

lemma run_check_Some:
  "run ex p w = (Inr (Some e), w') \<Longrightarrow> run ex (check_err p h k) w = run ex (h e) w'"
  by (simp add: check_err_def run_bind)

lemma run_wrap_err:
  "run ex p w = (Inr r, w') \<Longrightarrow>
   run ex (wrap_err fmt p) w = (Inr (map_err (\<lambda>e. Errorf fmt [ArgErr e]) r), w')"
  by (simp add: wrap_err_def run_bind)

lemma run_wrap_opt:
  "run ex p w = (Inr r, w') \<Longrightarrow>
   run ex (wrap_opt fmt p) w = (Inr (map_option (\<lambda>e. Errorf fmt [ArgErr e]) r), w')"
  by (simp add: wrap_opt_def run_bind)

lemmas run_rules = run_try_Inl run_try_Inr run_check_None run_check_Some
  run_wrap_err run_wrap_opt

text \<open>Programs that cannot panic.\<close>

primrec no_panic :: "'r prog \<Rightarrow> bool" where
  "no_panic (Ret x) = True"
| "no_panic (Panic s) = False"
| "no_panic (Call c k) = (\<forall>r. no_panic (k r))"

lemma no_panic_bind: "no_panic p \<Longrightarrow> (\<And>x. no_panic (f x)) \<Longrightarrow> no_panic (bind p f)"
  by (induction p) auto

lemma no_panic_run: "no_panic p \<Longrightarrow> \<exists>x w'. run ex p w = (Inr x, w')"
  by (induction p arbitrary: w) (auto split: prod.split)

end
