(* ===== verification/Backoff.thy ===== *)
theory Backoff
  imports Effects
begin

text \<open>
  \<open>internal/delivery/backoff.go\<close>: the delay before a retry, computed in \<open>float64\<close> and converted
  to a \<open>time.Duration\<close> (nanoseconds in 64 bits, the product wrapping around).
\<close>

section \<open>\<open>calculateBackoff\<close>\<close>

definition backoff_raw :: "int \<Rightarrow> retry_policy \<Rightarrow> f64" where
  "backoff_raw attempt p =
     (let raw = f_mul (f_of_int (rp_base_delay_ms p)) (math_pow (rp_multiplier p) attempt)
      in if rp_max_delay_ms p > 0 then f_min raw (f_of_int (rp_max_delay_ms p)) else raw)"

definition with_jitter :: "f64 \<Rightarrow> f64 \<Rightarrow> f64 \<Rightarrow> f64" where
  "with_jitter raw jitter u = f_mul raw (f_sub (Fin 1) (f_mul jitter u))"

text \<open>\<open>time.Duration(raw) * time.Millisecond\<close>\<close>

definition duration_of_ms :: "f64 \<Rightarrow> int" where
  "duration_of_ms raw = w64 (f_to_i64 raw * 1000000)"

text \<open>\<open>rand_fn\<close> is the optional last argument; without it \<open>rand.Float64\<close> is called.\<close>

definition calculate_backoff :: "int \<Rightarrow> retry_policy \<Rightarrow> f64 prog option \<Rightarrow> int prog" where
  "calculate_backoff attempt p rand_fn =
     (let raw = backoff_raw attempt p
      in if f_lt (Fin 0) (rp_jitter p) then
           bind (case rand_fn of Some fn \<Rightarrow> fn | None \<Rightarrow> ask Rand_Float float_reply)
             (\<lambda>u. Ret (duration_of_ms (with_jitter raw (rp_jitter p) u)))
         else Ret (duration_of_ms raw))"

text \<open>The delay for a drawn random number; without jitter none is drawn.\<close>

definition delay_for :: "int \<Rightarrow> retry_policy \<Rightarrow> f64 \<Rightarrow> int" where
  "delay_for attempt p u =
     duration_of_ms (if f_lt (Fin 0) (rp_jitter p) then with_jitter (backoff_raw attempt p) (rp_jitter p) u
                     else backoff_raw attempt p)"

lemma calculate_backoff_none:
  "calculate_backoff attempt p None =
     (if f_lt (Fin 0) (rp_jitter p) then bind (ask Rand_Float float_reply) (\<lambda>u. Ret (delay_for attempt p u))
      else Ret (delay_for attempt p (Fin 0)))"
  by (simp add: calculate_backoff_def delay_for_def Let_def)

section \<open>Signs\<close>

lemma rnd64_sign: "0 \<le> r \<Longrightarrow> \<not> f_neg (rnd64 r)"
  by (auto simp: rnd64_def Let_def rnd_pos_nonneg not_less)

lemma f_mul_sign: "\<not> f_neg a \<Longrightarrow> \<not> f_neg b \<Longrightarrow> \<not> f_neg (f_mul a b)"
  by (cases a; cases b) (auto simp: f_mul_def Let_def rnd64_sign not_less)

lemma f_recip_sign: "\<not> f_neg a \<Longrightarrow> \<not> f_neg (f_recip a)"
  by (cases a) (auto simp: f_recip_def rnd64_sign not_less)

lemma ldexp_sign: "\<not> f_neg a \<Longrightarrow> \<not> f_neg (ldexp a e)"
  by (cases a) (auto simp: ldexp_def rnd64_sign not_less less_imp_le)

lemma pow_loop_sign:
  "\<not> f_neg a1 \<Longrightarrow> \<not> f_neg x1 \<Longrightarrow> \<not> f_neg (fst (pow_loop i a1 ae x1 xe))"
proof (induction i a1 ae x1 xe rule: pow_loop.induct)
  case (1 i a1 ae x1 xe)
  show ?case
    using 1 f_mul_sign [of a1 x1] f_mul_sign [of x1 x1] f_mul_sign [of "f_mul x1 x1" "Fin 2"]
    by (subst pow_loop.simps) (auto simp: Let_def split: prod.splits)
qed

lemma math_pow_sign: "\<not> f_neg x \<Longrightarrow> \<not> f_neg (math_pow x n)"
proof (cases x)
  case (Fin r)
  assume "\<not> f_neg x"
  with Fin have "0 \<le> r / pow2 e" for e by (simp add: less_imp_le)
  then have "\<not> f_neg (fst (pow_loop i (Fin 1) 0 (Fin (r / pow2 e)) xe))" for i e xe
    by (intro pow_loop_sign) (auto simp: not_less)
  then show ?thesis
    using Fin \<open>\<not> f_neg x\<close>
    by (auto simp: math_pow_def frexp_def Let_def split: prod.splits
        intro!: ldexp_sign f_recip_sign) (metis fst_conv)+
qed (auto simp: math_pow_def)

lemma f_of_int_sign: "0 \<le> n \<Longrightarrow> \<not> f_neg (f_of_int n)"
  by (simp add: f_of_int_def rnd64_sign)

section \<open>The cap\<close>

lemma rnd64_int_le:
  assumes "0 \<le> r" "r \<le> of_int m" "m \<le> 2 ^ 53"
  shows "\<exists>v. rnd64 r = Fin v \<and> 0 \<le> v \<and> v \<le> of_int m"
proof (cases "r = 0")
  case True
  with assms show ?thesis by (simp add: rnd64_def)
next
  case False
  with assms have r: "0 < r" "0 < m" by (auto simp: less_le_trans of_int_0_less_iff [symmetric, where ?'a = rat] simp del: of_int_0_less_iff)
  with assms have "rnd_pos r \<le> of_int m"
    using rnd_pos_mono [of r "of_int m"] rnd_pos_int [of m] by simp
  moreover have "rnd_pos r < f64_limit"
    using \<open>rnd_pos r \<le> of_int m\<close> assms(3) by (intro f64_limit_gt) (simp add: order_trans)
  ultimately show ?thesis
    using r rnd_pos_nonneg [of r] assms by (auto simp: rnd64_def Let_def not_le)
qed

lemma f_min_cap:
  assumes "\<not> f_neg x" "0 < m" "m \<le> 2 ^ 53"
  shows "f_min x (f_of_int m) = NaN \<or> (\<exists>v. f_min x (f_of_int m) = Fin v \<and> 0 \<le> v \<and> v \<le> of_int m)"
proof -
  have m: "f_of_int m = Fin (of_int m)" using assms by (simp add: f_of_int_def rnd64_int)
  show ?thesis
  proof (cases x)
    case (Fin r)
    with assms show ?thesis by (auto simp: f_min_def m)
  next
    case (Infinite s)
    with assms show ?thesis by (auto simp: f_min_def m)
  qed (use assms in \<open>auto simp: f_min_def m\<close>)
qed

lemma one_minus_unit: "unit_pos v \<Longrightarrow> unit_pos (f_sub (Fin 1) v)"
  by (auto simp: unit_pos_def [of v] f_sub_def intro!: rnd64_unit) (auto simp: unit_pos_def)

lemma mul_unit_cap:
  assumes "0 \<le> v" "v \<le> of_int m" "m \<le> 2 ^ 53" "unit_pos u"
  shows "\<exists>w. f_mul (Fin v) u = Fin w \<and> 0 \<le> w \<and> w \<le> of_int m"
proof -
  from assms(4) obtain y where u: "u = Fin y" "0 \<le> y" "y \<le> 1" by (auto simp: unit_pos_def)
  with assms have "0 \<le> v * y" "v * y \<le> of_int m"
    by (auto intro: order_trans [OF mult_left_le])
  with rnd64_int_le [OF this assms(3)] u assms show ?thesis
    by (auto simp: f_mul_def Let_def not_less)
qed

lemma duration_cap:
  assumes "r = NaN \<or> (\<exists>v. r = Fin v \<and> 0 \<le> v \<and> v \<le> of_int m)" "m * 1000000 \<le> max_i64"
  shows "0 \<le> duration_of_ms r \<and> duration_of_ms r \<le> max 0 m * 1000000"
proof (cases "r = NaN")
  case True
  then show ?thesis by (simp add: duration_of_ms_def f_to_i64_def min_i64_def w64_def)
next
  case False
  with assms obtain v where v: "r = Fin v" "0 \<le> v" "v \<le> of_int m" by blast
  then have f: "0 \<le> floor v" "floor v \<le> m" by (simp_all add: floor_le_iff)
  moreover have "in_i64 n \<and> in_i64 (n * 1000000)" if "0 \<le> n" "n \<le> m" for n
    using assms(2) that unfolding in_i64_def min_i64_def max_i64_def by linarith
  ultimately have "in_i64 (floor v)" "in_i64 (floor v * 1000000)" by blast+
  with f v show ?thesis
    by (auto simp: duration_of_ms_def f_to_i64_def trunc_rat_def w64_id)
qed

lemma f_mul_NaN [simp]: "f_mul NaN u = NaN"
  by (simp add: f_mul_def)

lemma delay_cap:
  assumes "0 \<le> rp_base_delay_ms p" "\<not> f_neg (rp_multiplier p)"
    and "0 < rp_max_delay_ms p" "rp_max_delay_ms p * 1000000 \<le> max_i64"
    and "f_lt (Fin 0) (rp_jitter p) \<longrightarrow> unit_pos (rp_jitter p) \<and> unit_pos u"
  shows "0 \<le> delay_for n p u \<and> delay_for n p u \<le> rp_max_delay_ms p * 1000000"
proof -
  let ?m = "rp_max_delay_ms p" and ?raw = "backoff_raw n p"
  have m: "?m \<le> 2 ^ 53" using assms(4) by (simp add: max_i64_def)
  have raw: "?raw = NaN \<or> (\<exists>v. ?raw = Fin v \<and> 0 \<le> v \<and> v \<le> of_int ?m)"
    using assms m
    by (simp add: backoff_raw_def Let_def f_min_cap f_mul_sign f_of_int_sign math_pow_sign)
  have "with_jitter ?raw (rp_jitter p) u = NaN \<or>
        (\<exists>v. with_jitter ?raw (rp_jitter p) u = Fin v \<and> 0 \<le> v \<and> v \<le> of_int ?m)"
    if "f_lt (Fin 0) (rp_jitter p)"
  proof -
    have "unit_pos (f_sub (Fin 1) (f_mul (rp_jitter p) u))"
      using assms(5) that by (intro one_minus_unit f_mul_unit) auto
    with raw m show ?thesis
      unfolding with_jitter_def by (metis f_mul_NaN mul_unit_cap)
  qed
  with raw show ?thesis
    using duration_cap [OF _ assms(4)] assms(3) by (auto simp: delay_for_def)
qed

section \<open>Doubling\<close>

lemma ulp_exp_pow2: "- 1022 \<le> e \<Longrightarrow> ulp_exp (pow2 e) = e - 52"
proof -
  assume "- 1022 \<le> e"
  moreover have "rlog2 (pow2 e) = e" by (rule rlog2_unique) (simp_all add: pow2_less_iff)
  ultimately show ?thesis by (simp add: ulp_exp_def)
qed

lemma rnd_pos_pow2: "- 1022 \<le> e \<Longrightarrow> rnd_pos (pow2 e) = pow2 e"
proof -
  assume e: "- 1022 \<le> e"
  have "pow2 e / pow2 (e - 52) = pow2 52" by (simp add: pow2_diff)
  also have "\<dots> = of_int (2 ^ 52)" by (simp add: pow2_def)
  finally have "pow2 e / pow2 (ulp_exp (pow2 e)) = of_int (2 ^ 52)" by (simp add: ulp_exp_pow2 e)
  then show ?thesis by (rule rnd_pos_exact)
qed

lemma f64_limit_pow2: "f64_limit = pow2 1024"
  by (simp add: f64_limit_def pow2_def)

lemma rnd64_pow2: "- 1022 \<le> e \<Longrightarrow> e < 1024 \<Longrightarrow> rnd64 (pow2 e) = Fin (pow2 e)"
proof -
  assume e: "- 1022 \<le> e" "e < 1024"
  then have "\<not> f64_limit \<le> pow2 e" by (simp add: f64_limit_pow2 not_le pow2_less_iff)
  with e show ?thesis
    using rnd_pos_pow2 [OF e(1)] pow2_pos [of e] by (simp add: rnd64_def Let_def less_imp_le abs_of_pos sgn_pos)
qed

lemma f_mul_pow2:
  "- 1022 \<le> a + b \<Longrightarrow> a + b < 1024 \<Longrightarrow> f_mul (Fin (pow2 a)) (Fin (pow2 b)) = Fin (pow2 (a + b))"
  by (simp add: f_mul_def rnd64_pow2 less_imp_le not_less flip: pow2_add)

lemma frexp_two: "frexp 2 = (1 / 2, 2)"
proof -
  have "rlog2 2 = 1" by (rule rlog2_unique) (simp_all add: pow2_def)
  then show ?thesis by (simp add: frexp_def pow2_def)
qed

text \<open>
  The loop with base \<open>2 = 1/2 * 2 ^ 2\<close>: the mantissa stays \<open>1/2\<close>, the product stays a power of
  two, and the represented value is multiplied by \<open>2 ^ (k * i)\<close>.
\<close>

lemma pow_loop_two:
  assumes "0 \<le> k" "k * int i \<le> 1023" "0 \<le> j" "j + int i \<le> 1022"
  shows "\<exists>j' ae'. pow_loop i (Fin (pow2 (- j))) ae (Fin (1 / 2)) (k + 1) = (Fin (pow2 (- j')), ae') \<and>
           ae' - j' = ae - j + k * int i \<and> 0 \<le> j' \<and> j' \<le> 1023"
  using assms
proof (induction i arbitrary: j ae k rule: less_induct)
  case (less i)
  have half: "Fin (1 / 2) = Fin (pow2 (- 1))" by (simp add: pow2_def)
  have sq: "f_mul (Fin (1 / 2)) (Fin (1 / 2)) = Fin (pow2 (- 2))"
    unfolding half by (simp add: f_mul_pow2)
  have two: "f_mul (Fin (pow2 (- 2))) (Fin 2) = Fin (1 / 2)"
    using f_mul_pow2 [of "- 2" 1] by (simp add: pow2_def)
  show ?case
  proof (cases "i = 0")
    case True
    with less.prems show ?thesis by (subst pow_loop.simps) auto
  next
    case False
    let ?i = "i div 2"
    from False have i: "?i < i" by simp
    have "k * 1 \<le> k * int i" using False less.prems(1) by (intro mult_left_mono) auto
    with less.prems have ke: "\<not> (k + 1 < - 4096 \<or> 4096 < k + 1)" by simp
    have lt: "2 * pow2 (- 2) < 1" by (simp add: pow2_def)
    show ?thesis
    proof (cases "odd i")
      case True
      then have i2: "int i = 2 * int ?i + 1" by presburger
      have m: "f_mul (Fin (pow2 (- j))) (Fin (1 / 2)) = Fin (pow2 (- (j + 1)))"
        using less.prems i2 f_mul_pow2 [of "- j" "- 1"] unfolding half by simp
      have "pow_loop i (Fin (pow2 (- j))) ae (Fin (1 / 2)) (k + 1) =
            pow_loop ?i (Fin (pow2 (- (j + 1)))) (ae + (k + 1)) (Fin (1 / 2)) (2 * k + 1)"
        using False ke True by (subst pow_loop.simps) (simp add: Let_def sq two lt m algebra_simps)
      moreover have "\<exists>j' ae'. pow_loop ?i (Fin (pow2 (- (j + 1)))) (ae + (k + 1)) (Fin (1 / 2)) (2 * k + 1) =
          (Fin (pow2 (- j')), ae') \<and> ae' - j' = ae + (k + 1) - (j + 1) + 2 * k * int ?i \<and> 0 \<le> j' \<and> j' \<le> 1023"
        using less.prems i2 by (intro less.IH [OF i]) (auto simp: algebra_simps)
      ultimately show ?thesis using i2 by (auto simp: algebra_simps)
    next
      case False
      then have i2: "int i = 2 * int ?i" by presburger
      have "pow_loop i (Fin (pow2 (- j))) ae (Fin (1 / 2)) (k + 1) =
            pow_loop ?i (Fin (pow2 (- j))) ae (Fin (1 / 2)) (2 * k + 1)"
        using \<open>i \<noteq> 0\<close> ke False by (subst pow_loop.simps) (simp add: Let_def sq two lt algebra_simps)
      moreover have "\<exists>j' ae'. pow_loop ?i (Fin (pow2 (- j))) ae (Fin (1 / 2)) (2 * k + 1) =
          (Fin (pow2 (- j')), ae') \<and> ae' - j' = ae - j + 2 * k * int ?i \<and> 0 \<le> j' \<and> j' \<le> 1023"
        using less.prems i2 by (intro less.IH [OF i]) (auto simp: algebra_simps)
      ultimately show ?thesis using i2 by (auto simp: algebra_simps)
    qed
  qed
qed

lemma math_pow_two: "0 \<le> n \<Longrightarrow> n \<le> 1022 \<Longrightarrow> math_pow (Fin 2) n = Fin (pow2 n)"
proof -
  assume n: "0 \<le> n" "n \<le> 1022"
  obtain j ae where p: "pow_loop (nat n) (Fin (pow2 (- 0))) 0 (Fin (1 / 2)) (1 + 1) = (Fin (pow2 (- j)), ae)"
    and e: "ae - j = n" "0 \<le> j" "j \<le> 1023"
    using pow_loop_two [of 1 "nat n" 0 0] n by auto
  have j: "rlog2 (pow2 (- j)) = - j" by (rule rlog2_unique) (simp_all add: pow2_less_iff)
  have "ldexp (Fin (pow2 (- j))) ae = Fin (pow2 n)"
    using e n pow2_pos [of "- j"]
    by (simp add: ldexp_def j abs_of_pos rnd64_pow2 flip: pow2_add)
  with p n show ?thesis
    by (cases "n = 0 \<or> n = 1") (auto simp: math_pow_def frexp_two Let_def pow2_def)
qed

text \<open>Multiplication by a power of two saturates at the cap and is exact below it.\<close>

lemma backoff_raw_two:
  assumes "0 \<le> n" "n \<le> 1022" "0 < b" "0 < m" "m \<le> 2 ^ 53"
  shows "f_min (f_mul (f_of_int b) (Fin (pow2 n))) (f_of_int m) = Fin (of_int (min (b * 2 ^ nat n) m))"
proof -
  have m: "f_of_int m = Fin (of_int m)" using assms by (simp add: f_of_int_def rnd64_int)
  have pn: "pow2 n = of_int (2 ^ nat n)" using assms by (simp add: pow2_def)
  show ?thesis
  proof (cases "b \<le> 2 ^ 53 \<and> b * 2 ^ nat n \<le> m")
    case True
    then have "f_of_int b = Fin (of_int b)" using assms by (simp add: f_of_int_def rnd64_int)
    moreover have "rnd64 (of_int b * of_int (2 ^ nat n)) = Fin (of_int (b * 2 ^ nat n))"
      using True assms rnd64_int [of "b * 2 ^ nat n"] by simp
    ultimately show ?thesis
      using True assms of_int_le_iff [of "b * 2 ^ nat n" m, where ?'a = rat]
      by (auto simp: f_mul_def pn m f_min_def not_less min_def intro: antisym)
  next
    case False
    have big: "\<exists>v. rnd64 r = Infinite False \<or> rnd64 r = Fin v \<and> of_int m \<le> v"
      if "of_int m \<le> r" for r
    proof -
      from that assms have r: "0 < r" by (meson less_le_trans of_int_0_less_iff)
      have "of_int m \<le> rnd_pos r"
        using rnd_pos_mono [of "of_int m" r] rnd_pos_int [of m] assms that by simp
      moreover have "rnd_pos r \<noteq> 0" using calculation assms by auto
      ultimately show ?thesis using r by (auto simp: rnd64_def Let_def)
    qed
    have one: "1 \<le> (2 :: int) ^ nat n" by simp
    have b1: "b * 1 \<le> b * 2 ^ nat n" using assms one by (intro mult_left_mono) auto
    have lt: "m \<le> b * 2 ^ nat n" using False b1 assms by linarith
    have prod: "\<exists>v. f_mul (f_of_int b) (Fin (pow2 n)) = Infinite False \<or>
                f_mul (f_of_int b) (Fin (pow2 n)) = Fin v \<and> of_int m \<le> v"
    proof (cases "b \<le> 2 ^ 53")
      case True
      then have "f_of_int b = Fin (of_int b)" using assms by (simp add: f_of_int_def rnd64_int)
      moreover have "of_int m \<le> (of_int b * of_int (2 ^ nat n) :: rat)"
        using lt by (metis of_int_le_iff of_int_mult)
      ultimately show ?thesis using big assms by (auto simp: f_mul_def pn not_less)
    next
      case b: False
      have *: "rnd64 (of_int b) = Infinite False \<or> (\<exists>v. rnd64 (of_int b) = Fin v \<and> of_int m \<le> v)"
        using big [of "of_int b"] b assms by auto
      have "of_int m \<le> v * of_int (2 ^ nat n)" if "of_int m \<le> v" for v :: rat
      proof -
        have "0 < v" using that assms by (meson less_le_trans of_int_0_less_iff)
        then have "v * 1 \<le> v * of_int (2 ^ nat n)" by (intro mult_left_mono) auto
        with that show ?thesis by simp
      qed
      with * big show ?thesis
        using assms by (fastforce simp: f_of_int_def f_mul_def pn not_less)
    qed
    have "f_min x (Fin (of_int m)) = Fin (of_int m)" if "x = Infinite False \<or> x = Fin v \<and> of_int m \<le> v" for x v
      using that assms by (auto simp: f_min_def)
    with prod lt show ?thesis by (metis m min_absorb2)
  qed
qed

lemma delay_doubles:
  assumes "0 \<le> n" "n \<le> 1022" "rp_multiplier p = Fin 2" "\<not> f_lt (Fin 0) (rp_jitter p)"
    and "0 < rp_base_delay_ms p" "0 < rp_max_delay_ms p" "rp_max_delay_ms p * 1000000 \<le> max_i64"
  shows "delay_for n p u = min (rp_base_delay_ms p * 2 ^ nat n) (rp_max_delay_ms p) * 1000000"
proof -
  let ?d = "min (rp_base_delay_ms p * 2 ^ nat n) (rp_max_delay_ms p)"
  have m: "rp_max_delay_ms p \<le> 2 ^ 53" using assms(7) by (simp add: max_i64_def)
  have raw: "backoff_raw n p = Fin (of_int ?d)"
    using backoff_raw_two [OF assms(1,2,5,6) m] assms(1-3,6)
    by (simp add: backoff_raw_def Let_def math_pow_two del: of_int_min)
  have "0 \<le> ?d" "?d * 1000000 \<le> max_i64" using assms(5-7) by (auto simp: min_def)
  then have "in_i64 ?d" "in_i64 (?d * 1000000)"
    unfolding in_i64_def min_i64_def max_i64_def by linarith+
  moreover have "trunc_rat (of_int ?d) = ?d"
    using \<open>0 \<le> ?d\<close> unfolding trunc_rat_def by (simp only: of_int_0_le_iff if_True floor_of_int)
  ultimately show ?thesis
    using assms(4) by (simp add: delay_for_def raw duration_of_ms_def f_to_i64_def w64_id del: of_int_min)
qed

section \<open>Properties\<close>

text \<open>C37
  The cap: with non-negative base and multiplier, a positive maximum and a jitter factor of at most
  one, every delay lies between zero and the maximum, for every attempt number and random draw, even
  where the exponential overflows to infinity; no wrap-around of the 64-bit duration occurs.\<close>

theorem backoff_cap:
  assumes "0 \<le> rp_base_delay_ms p" "\<not> f_neg (rp_multiplier p)"
    and "0 < rp_max_delay_ms p" "rp_max_delay_ms p * 1000000 \<le> max_i64"
    and "f_lt (Fin 0) (rp_jitter p) \<longrightarrow> unit_pos (rp_jitter p) \<and> unit_pos u"
  shows "run (\<lambda>c w. (Reply_Float u, w)) (calculate_backoff n p None) w = (Inr d, w') \<longrightarrow>
         0 \<le> d \<and> d \<le> rp_max_delay_ms p * 1000000"
  using delay_cap [OF assms] delay_cap [OF assms(1-4), of "Fin 0" n] assms(5)
  by (auto simp: calculate_backoff_none run_bind)

theorem backoff_cap_witness:
  "0 \<le> (1000000 :: int) * 1000000 \<and>
   run (\<lambda>c w. (Reply_Float (Fin (1 / 2)), w)) (calculate_backoff 50
     \<lparr>rp_max_attempts = 5, rp_base_delay_ms = 1000, rp_max_delay_ms = 1000000, rp_multiplier = Fin 2,
      rp_jitter = Fin 0\<rparr> None) () = (Inr (1000000 * 1000000), ())"
proof -
  let ?p = "\<lparr>rp_max_attempts = 5, rp_base_delay_ms = 1000, rp_max_delay_ms = 1000000,
              rp_multiplier = Fin 2, rp_jitter = Fin 0\<rparr>"
  have "delay_for 50 ?p (Fin 0) = 1000000 * 1000000"
    by (subst delay_doubles) (simp_all add: max_i64_def)
  then have r: "run (\<lambda>c w. (Reply_Float (Fin (1 / 2)), w)) (calculate_backoff 50 ?p None) () =
      (Inr (1000000 * 1000000), ())"
    by (simp add: calculate_backoff_none)
  have "0 \<le> (1000000 :: int) * 1000000 \<and> (1000000 :: int) * 1000000 \<le> rp_max_delay_ms ?p * 1000000"
    by (rule backoff_cap [THEN mp, OF _ _ _ _ _ r]) (simp_all add: max_i64_def)
  with r show ?thesis by simp
qed

text \<open>C38
  With a multiplier of exactly two and no jitter, a positive base and a positive maximum that fits a
  duration, the delay for attempt \<open>n\<close>, at most 1022, is exactly the base doubled \<open>n\<close> times, cut off at the
  maximum: the float computation loses nothing. Other multipliers are rounded.\<close>

theorem backoff_doubles:
  assumes "0 \<le> n" "n \<le> 1022" "rp_multiplier p = Fin 2" "\<not> f_lt (Fin 0) (rp_jitter p)"
    and "0 < rp_base_delay_ms p" "0 < rp_max_delay_ms p" "rp_max_delay_ms p * 1000000 \<le> max_i64"
  shows "calculate_backoff n p None =
         Ret (min (rp_base_delay_ms p * 2 ^ nat n) (rp_max_delay_ms p) * 1000000)"
  using delay_doubles [OF assms] assms(4) by (simp add: calculate_backoff_none)

theorem backoff_doubles_witness:
  "calculate_backoff 3 \<lparr>rp_max_attempts = 5, rp_base_delay_ms = 100, rp_max_delay_ms = 1000000,
     rp_multiplier = Fin 2, rp_jitter = Fin 0\<rparr> None = Ret 800000000"
  by (subst backoff_doubles) (simp_all add: max_i64_def)

end
