(* ===== verification/Rabbit_MQ.thy ===== *)
theory Rabbit_MQ
  imports Go_Json Effects
begin

text \<open>
  \<open>port.MQClient\<close> and its implementation \<open>rabbitmq.Client\<close> (\<open>internal/mq/rabbitmq/mq.go\<close>): the
  set-up of exchanges, queues and bindings, the three publications, and the declared
  \<open>DefaultTopology\<close> (\<open>topology.go\<close>). The broker and the AMQP library answer the calls.
\<close>

section \<open>The interface\<close>

record mq_client =
  mq_publish_trigger :: "string \<Rightarrow> go_error option prog"
  mq_publish_delivery :: "string \<Rightarrow> string \<Rightarrow> go_error option prog"
  mq_publish_delayed :: "string \<Rightarrow> string \<Rightarrow> int \<Rightarrow> go_error option prog"

section \<open>Names\<close>

definition trigger_exchange :: string where "trigger_exchange = ''notification.trigger''"
definition trigger_queue :: string where "trigger_queue = ''notification.trigger.q''"
definition delivery_exchange :: string where "delivery_exchange = ''notification.delivery''"
definition delivery_queue :: string where "delivery_queue = ''notification.delivery.q''"
definition dlx_exchange :: string where "dlx_exchange = ''notification.dlx''"
definition retry_queue :: string where "retry_queue = ''notification.retry.q''"

section \<open>\<open>NewClient\<close>\<close>

text \<open>
  Calls to the AMQP library while connecting. \<open>Exchange_Declare name kind durable\<close> and
  \<open>Queue_Declare name durable dead_letter_exchange\<close>; the remaining flags are false in every call.
\<close>

datatype amqp_op =
    Dial string
  | Open_Channel
  | Exchange_Declare string string bool
  | Queue_Declare string bool "string option"
  | Queue_Bind string string string
  | Close_Channel
  | Close_Connection

type_synonym 's amqp = "amqp_op \<Rightarrow> 's \<Rightarrow> go_error option \<times> 's"

definition declarations :: "(amqp_op \<times> string) list" where
  "declarations =
     [(Exchange_Declare trigger_exchange ''topic'' True, ''declare trigger exchange: %w''),
      (Queue_Declare trigger_queue True None, ''declare trigger queue: %w''),
      (Queue_Bind trigger_queue ''#'' trigger_exchange, ''bind trigger queue: %w''),
      (Exchange_Declare delivery_exchange ''topic'' True, ''declare delivery exchange: %w''),
      (Queue_Declare delivery_queue True (Some dlx_exchange), ''declare delivery queue: %w''),
      (Queue_Bind delivery_queue ''#'' delivery_exchange, ''bind delivery queue: %w''),
      (Exchange_Declare dlx_exchange ''topic'' True, ''declare dlx exchange: %w''),
      (Queue_Declare retry_queue True (Some delivery_exchange), ''declare retry queue: %w''),
      (Queue_Bind retry_queue ''#'' dlx_exchange, ''bind retry queue: %w'')]"

text \<open>Each declaration that fails closes the channel and the connection; their errors are dropped.\<close>

fun declare_all :: "'s amqp \<Rightarrow> (amqp_op \<times> string) list \<Rightarrow> 's \<Rightarrow> go_error option \<times> 's" where
  "declare_all am [] s = (None, s)"
| "declare_all am ((op, fmt) # ops) s =
     (case am op s of
        (Some e, s1) \<Rightarrow>
          (let s2 = snd (am Close_Channel s1); s3 = snd (am Close_Connection s2)
           in (Some (Errorf fmt [ArgErr e]), s3))
      | (None, s1) \<Rightarrow> declare_all am ops s1)"

section \<open>Publications\<close>

text \<open>\<open>json.Marshal(map[string]string{...})\<close>, the body of both delivery messages.\<close>

definition delivery_body :: "string \<Rightarrow> string \<Rightarrow> go_error + string" where
  "delivery_body vendor task_id =
     json_marshal (VMap [(''delivery_task_id'', VStr task_id), (''vendor_id'', VStr vendor)])"

definition rmq_publish_trigger :: "string \<Rightarrow> go_error option prog" where
  "rmq_publish_trigger nid =
     wrap_opt ''publish trigger: %w''
       (ask (Publish trigger_exchange []
          \<lparr>pb_content_type = ''text/plain'', pb_persistent = False, pb_headers = [],
           pb_expiration = [], pb_body = nid\<rparr>) scan_done)"

definition rmq_publish_delivery :: "string \<Rightarrow> string \<Rightarrow> go_error option prog" where
  "rmq_publish_delivery vendor task_id =
     (case delivery_body vendor task_id of
        Inl e \<Rightarrow> Ret (Some (Errorf ''marshal delivery message: %w'' [ArgErr e]))
      | Inr body \<Rightarrow>
          wrap_opt ''publish delivery: %w''
            (ask (Publish delivery_exchange []
               \<lparr>pb_content_type = ''application/json'', pb_persistent = True, pb_headers = [],
                pb_expiration = [], pb_body = body\<rparr>) scan_done))"

definition rmq_publish_delayed :: "string \<Rightarrow> string \<Rightarrow> int \<Rightarrow> go_error option prog" where
  "rmq_publish_delayed vendor task_id delay_ms =
     (case delivery_body vendor task_id of
        Inl e \<Rightarrow> Ret (Some (Errorf ''marshal delayed message: %w'' [ArgErr e]))
      | Inr body \<Rightarrow>
          wrap_opt ''publish delayed: %w''
            (ask (Publish dlx_exchange []
               \<lparr>pb_content_type = ''application/json'', pb_persistent = True,
                pb_headers = [(''x-original-routing-key'', VStr ''delivery'')],
                pb_expiration = show_int delay_ms, pb_body = body\<rparr>) scan_done))"

definition rmq_client :: mq_client where
  "rmq_client = \<lparr>mq_publish_trigger = rmq_publish_trigger,
     mq_publish_delivery = rmq_publish_delivery, mq_publish_delayed = rmq_publish_delayed\<rparr>"

definition rmq_new_client :: "'s amqp \<Rightarrow> string \<Rightarrow> 's \<Rightarrow> (go_error + mq_client) \<times> 's" where
  "rmq_new_client am url s =
     (case am (Dial url) s of
        (Some e, s1) \<Rightarrow> (Inl (Errorf ''amqp dial: %w'' [ArgErr e]), s1)
      | (None, s1) \<Rightarrow>
          (case am Open_Channel s1 of
             (Some e, s2) \<Rightarrow>
               (Inl (Errorf ''amqp channel: %w'' [ArgErr e]), snd (am Close_Connection s2))
           | (None, s2) \<Rightarrow>
               (case declare_all am declarations s2 of
                  (Some e, s3) \<Rightarrow> (Inl e, s3)
                | (None, s3) \<Rightarrow> (Inr rmq_client, s3))))"

definition rmq_close :: "'s amqp \<Rightarrow> 's \<Rightarrow> 's" where
  "rmq_close am s = snd (am Close_Connection (snd (am Close_Channel s)))"

text \<open>\<open>Consume\<close>: the library's channel of messages, or its error wrapped with the queue's name.\<close>

definition rmq_consume ::
  "(string \<Rightarrow> string \<Rightarrow> bool \<Rightarrow> go_error + 'ch) \<Rightarrow> string \<Rightarrow> string \<Rightarrow> bool \<Rightarrow> go_error + 'ch" where
  "rmq_consume consume queue consumer auto_ack =
     (case consume queue consumer auto_ack of
        Inl e \<Rightarrow> Inl (Errorf ''consume %s: %w'' [ArgStr queue, ArgErr e])
      | Inr ch \<Rightarrow> Inr ch)"

section \<open>Reading a delivery message\<close>

text \<open>The anonymous struct of \<open>worker.go\<close>: the fields \<open>delivery_task_id\<close> and \<open>vendor_id\<close>.\<close>

fun decode_delivery_fields :: "(string \<times> json) list \<Rightarrow> string \<times> string \<Rightarrow> (string \<times> string) option" where
  "decode_delivery_fields [] p = Some p"
| "decode_delivery_fields ((k, v) # ms) (t, vid) =
     (if field_is ''delivery_task_id'' k then
        (case json_into_string t v of None \<Rightarrow> None | Some t' \<Rightarrow> decode_delivery_fields ms (t', vid))
      else if field_is ''vendor_id'' k then
        (case json_into_string vid v of None \<Rightarrow> None | Some v' \<Rightarrow> decode_delivery_fields ms (t, v'))
      else decode_delivery_fields ms (t, vid))"

definition decode_delivery :: "string \<Rightarrow> (string \<times> string) option" where
  "decode_delivery body =
     (case json_text body of
        Some (JObj ms) \<Rightarrow> decode_delivery_fields ms ([], [])
      | Some JNull \<Rightarrow> Some ([], [])
      | _ \<Rightarrow> None)"

section \<open>\<open>topology.go\<close>\<close>

record retry_slot =
  sl_key :: string
  sl_queue :: string
  sl_ttl_ms :: int

record exchange_decl =
  ex_name :: string
  ex_type :: string
  ex_durable :: bool
  ex_auto_delete :: bool

record queue_decl =
  qu_name :: string
  qu_durable :: bool
  qu_auto_delete :: bool
  qu_args :: "(string, gval) gomap"

record binding_decl =
  bi_queue :: string
  bi_exchange :: string
  bi_key :: string

record topology =
  to_exchanges :: "exchange_decl list"
  to_queues :: "queue_decl list"
  to_bindings :: "binding_decl list"

definition retry_exchange :: string where "retry_exchange = ''notification.retry''"

definition retry_slots :: "retry_slot list" where
  "retry_slots =
     [\<lparr>sl_key = ''retry.2s'', sl_queue = ''notification.retry.2s.queue'', sl_ttl_ms = 2000\<rparr>,
      \<lparr>sl_key = ''retry.5s'', sl_queue = ''notification.retry.5s.queue'', sl_ttl_ms = 5000\<rparr>,
      \<lparr>sl_key = ''retry.10s'', sl_queue = ''notification.retry.10s.queue'', sl_ttl_ms = 10000\<rparr>,
      \<lparr>sl_key = ''retry.30s'', sl_queue = ''notification.retry.30s.queue'', sl_ttl_ms = 30000\<rparr>]"

definition add_slot :: "retry_slot \<Rightarrow> topology \<Rightarrow> topology" where
  "add_slot slot t =
     t\<lparr>to_queues := to_queues t @
         [\<lparr>qu_name = sl_queue slot, qu_durable = False, qu_auto_delete = False,
           qu_args = [(''x-message-ttl'', VInt (sl_ttl_ms slot)),
                      (''x-dead-letter-exchange'', VStr delivery_exchange),
                      (''x-dead-letter-routing-key'', VStr [])]\<rparr>],
       to_bindings := to_bindings t @
         [\<lparr>bi_queue = sl_queue slot, bi_exchange = retry_exchange, bi_key = sl_key slot\<rparr>]\<rparr>"

definition direct_exchange :: "string \<Rightarrow> exchange_decl" where
  "direct_exchange n = \<lparr>ex_name = n, ex_type = ''direct'', ex_durable = True, ex_auto_delete = False\<rparr>"

definition durable_queue :: "string \<Rightarrow> queue_decl" where
  "durable_queue n = \<lparr>qu_name = n, qu_durable = True, qu_auto_delete = False, qu_args = []\<rparr>"

definition default_topology :: topology where
  "default_topology = fold add_slot retry_slots
     \<lparr>to_exchanges = map direct_exchange [trigger_exchange, delivery_exchange, retry_exchange],
      to_queues = map durable_queue [trigger_queue, delivery_queue],
      to_bindings =
        [\<lparr>bi_queue = trigger_queue, bi_exchange = trigger_exchange, bi_key = ''#''\<rparr>,
         \<lparr>bi_queue = delivery_queue, bi_exchange = delivery_exchange, bi_key = ''#''\<rparr>]\<rparr>"

section \<open>Facts\<close>

lemma marshal_delivery:
  "delivery_body v i = Inr (CHR ''{'' # json_string ''delivery_task_id'' @ CHR '':'' # json_string i @
     CHR '','' # json_string ''vendor_id'' @ CHR '':'' # json_string v @ ''}'')"
  by (simp add: delivery_body_def sort_entries_def json_entry_def)

lemma json_members_key:
  assumes "ascii key" "json_value k s = Some (v, r)"
  shows "json_members (Suc k) (json_string key @ CHR '':'' # s) =
         (case skip_ws r of
            d # r' \<Rightarrow>
              if d = CHR '','' then map_option (\<lambda>(ms, r''). ((key, v) # ms, r'')) (json_members k r')
              else if d = CHR ''}'' then Some ([(key, v)], r')
              else None
          | [] \<Rightarrow> None)"
proof -
  define X where "X = json_chars key @ CHR 0x22 # CHR '':'' # s"
  have st: "json_str (Suc (length X)) X = Some (key, CHR '':'' # s)"
    unfolding X_def using length_json_chars [OF assms(1)] by (intro json_str_chars assms(1)) simp
  have head: "json_string key @ CHR '':'' # s = CHR 0x22 # X"
    by (simp add: json_string_def X_def)
  have ws: "\<not> is_ws (CHR 0x22)" "\<not> is_ws (CHR '':'')" by (simp_all add: is_ws_def)
  show ?thesis
    unfolding head by (simp add: st ws assms(2) del: json_str.simps json_value.simps)
qed

lemma json_members_two:
  assumes "ascii k1" "ascii v1" "ascii k2" "ascii v2"
  shows "json_members (Suc (Suc (Suc n))) (json_string k1 @ CHR '':'' # json_string v1 @ CHR '','' #
           json_string k2 @ CHR '':'' # json_string v2 @ CHR ''}'' # r) =
         Some ([(k1, JStr v1), (k2, JStr v2)], r)"
proof -
  have ws: "\<not> is_ws (CHR '','')" "\<not> is_ws (CHR ''}'')" by (simp_all add: is_ws_def)
  have second: "json_members (Suc (Suc n)) (json_string k2 @ CHR '':'' # json_string v2 @ CHR ''}'' # r) =
      Some ([(k2, JStr v2)], r)"
    using json_members_key [OF assms(3) json_value_string [OF assms(4)]] by (simp add: ws)
  show ?thesis
    using json_members_key [OF assms(1) json_value_string [OF assms(2)],
        of "Suc n" "CHR '','' # json_string k2 @ CHR '':'' # json_string v2 @ CHR ''}'' # r"]
    by (simp add: ws second del: json_members.simps)
qed

lemma json_value_object:
  assumes "json_members k (CHR 0x22 # s) = Some (ms, r)"
  shows "json_value (Suc k) (CHR ''{'' # CHR 0x22 # s) = Some (JObj ms, r)"
proof -
  have "\<not> is_ws (CHR 0x22)" "\<not> is_ws (CHR ''{'')" by (simp_all add: is_ws_def)
  with assms show ?thesis by simp
qed

text \<open>What \<open>PublishDelivery\<close> and \<open>PublishDelayed\<close> write, the worker reads back.\<close>

lemma decode_delivery_body:
  assumes "ascii v" "ascii i" "delivery_body v i = Inr body"
  shows "decode_delivery body = Some (i, v)"
proof -
  let ?rest = "json_string i @ CHR '','' # json_string ''vendor_id'' @ CHR '':'' # json_string v @ CHR ''}'' # []"
  have b: "body = CHR ''{'' # json_string ''delivery_task_id'' @ CHR '':'' # ?rest"
    using assms(3) by (simp add: marshal_delivery)
  obtain n where n: "2 * length body + 2 = Suc (Suc (Suc (Suc n)))"
    using b by (cases "length body") auto
  have keys: "ascii ''delivery_task_id''" "ascii ''vendor_id''" by (simp_all add: ascii_def)
  have "json_members (Suc (Suc (Suc n))) (json_string ''delivery_task_id'' @ CHR '':'' # ?rest) =
      Some ([(''delivery_task_id'', JStr i), (''vendor_id'', JStr v)], [])"
    using json_members_two [OF keys(1) assms(2) keys(2) assms(1)] by simp
  then have "json_value (Suc (Suc (Suc (Suc n)))) body =
      Some (JObj [(''delivery_task_id'', JStr i), (''vendor_id'', JStr v)], [])"
    unfolding b json_string_def [of "''delivery_task_id''"] append_Cons by (rule json_value_object)
  then have "json_text body = Some (JObj [(''delivery_task_id'', JStr i), (''vendor_id'', JStr v)])"
    unfolding json_text_def n by (simp add: skip_ws_def del: json_value.simps)
  moreover have "field_is ''delivery_task_id'' ''delivery_task_id''" "field_is ''vendor_id'' ''vendor_id''"
    "\<not> field_is ''delivery_task_id'' ''vendor_id''"
    by code_simp+
  ultimately show ?thesis
    by (simp add: decode_delivery_def)
qed

end
