(* ===== verification/Store.thy ===== *)
theory Store
  imports Effects
begin

text \<open>
  The database as the migrations define it, and the effect of each SQL statement of
  \<open>internal/db/postgres/db.go\<close> on its tables. A statement is atomic: it applies completely or not
  at all. A table is the list of its rows, in insertion order; rows that an \<open>ORDER BY\<close> leaves tied
  are returned in that order.
\<close>

section \<open>Tables\<close>

record schema_row =
  sr_event_type :: string
  sr_version :: int
  sr_schema :: string
  sr_status :: string

text \<open>
  How a statement ends: \<open>Healthy\<close>, \<open>Lost\<close> (not executed, the client sees an error), \<open>Unacked\<close>
  (executed and committed, but the client sees an error), or \<open>Cut n\<close> (the connection breaks after
  \<open>n\<close> rows of the result; a statement with at most one row is then \<open>Unacked\<close>).
\<close>

datatype fault = Healthy | Lost | Unacked | Cut nat

text \<open>
  \<open>st_ids\<close> are the values \<open>gen_random_uuid()\<close> returns, \<open>st_drawn\<close> of them used so far; \<open>st_uuid\<close> is
  the reading of a text as a \<open>uuid\<close>. Both belong to PostgreSQL.
\<close>

record store =
  st_notifs :: "notification list"
  st_tasks :: "delivery_task list"
  st_schemas :: "schema_row list"
  st_now :: int
  st_ids :: "nat \<Rightarrow> string"
  st_drawn :: nat
  st_uuid :: "string \<Rightarrow> string option"
  st_faults :: "fault list"

definition notif_statuses :: "string list" where
  "notif_statuses = [''PENDING'', ''DELIVERING'', ''SUCCEEDED'', ''PARTIALLY_FAILED'', ''FAILED'']"

definition task_statuses :: "string list" where
  "task_statuses =
     [''PENDING'', ''DELIVERING'', ''SUCCEEDED'', ''FAILED'', ''DEAD_LETTER'', ''IGNORED'']"

text \<open>
  A text assigned to a \<open>VARCHAR(n)\<close> column: it must have at most \<open>n\<close> characters, except that
  excess blanks are cut off. Characters are counted in UTF-8.
\<close>

fun utf8_split :: "nat \<Rightarrow> string \<Rightarrow> string \<times> string" where
  "utf8_split n [] = ([], [])"
| "utf8_split n (c # cs) =
     (if byte_in c 128 191 then (case utf8_split n cs of (a, b) \<Rightarrow> (c # a, b))
      else if n = 0 then ([], c # cs)
      else (case utf8_split (n - 1) cs of (a, b) \<Rightarrow> (c # a, b)))"

definition varchar :: "nat \<Rightarrow> string \<Rightarrow> string option" where
  "varchar n s =
     (case utf8_split n s of (a, b) \<Rightarrow> if list_all (\<lambda>c. c = CHR '' '') b then Some a else None)"

definition upd_where :: "('a \<Rightarrow> bool) \<Rightarrow> ('a \<Rightarrow> 'a) \<Rightarrow> 'a list \<Rightarrow> 'a list" where
  "upd_where P f xs = map (\<lambda>x. if P x then f x else x) xs"

definition notif_row :: "store \<Rightarrow> string \<Rightarrow> notification option" where
  "notif_row s i = find (\<lambda>n. n_id n = i) (st_notifs s)"

definition task_row :: "store \<Rightarrow> string \<Rightarrow> delivery_task option" where
  "task_row s i = find (\<lambda>t. t_id t = i) (st_tasks s)"

definition tasks_of :: "store \<Rightarrow> string \<Rightarrow> delivery_task list" where
  "tasks_of s i = filter (\<lambda>t. t_notification_id t = i) (st_tasks s)"

definition violation :: "string \<Rightarrow> reply" where
  "violation c = Failed (ErrExternal c)"

definition no_rows :: reply where
  "no_rows = Failed (ErrExternal ''no rows in result set'')"

definition with_uuid :: "string \<Rightarrow> (string \<Rightarrow> store \<Rightarrow> reply \<times> store) \<Rightarrow> store \<Rightarrow> reply \<times> store" where
  "with_uuid i f s =
     (case st_uuid s i of
        None \<Rightarrow> (violation ''invalid input syntax for type uuid'', s)
      | Some u \<Rightarrow> f u s)"

section \<open>Statements\<close>

definition new_notification ::
  "string \<Rightarrow> upsert_params \<Rightarrow> (string, gval) gomap \<Rightarrow> int \<Rightarrow> notification" where
  "new_notification i p payload now =
     \<lparr>n_id = i, n_shard_id = 0, n_caller_id = up_caller_id p,
      n_idempotent_key = up_idempotent_key p, n_event_type = up_event_type p,
      n_payload = Some payload, n_status = ''PENDING'', n_created_at = now, n_updated_at = now\<rparr>"

definition insert_notification :: "upsert_params \<Rightarrow> (string, gval) gomap \<Rightarrow> store \<Rightarrow> reply \<times> store" where
  "insert_notification p payload s =
     (let i = st_ids s (st_drawn s); s' = s\<lparr>st_drawn := Suc (st_drawn s)\<rparr>
      in if notif_row s i \<noteq> None then (violation ''notifications_pkey'', s')
         else (Row_Upsert i True,
               s'\<lparr>st_notifs := st_notifs s @ [new_notification i p payload (st_now s)]\<rparr>))"

text \<open>\<open>INSERT ... ON CONFLICT (caller_id, idempotent_key) DO UPDATE SET updated_at = NOW()\<close>\<close>

definition same_key :: "upsert_params \<Rightarrow> notification \<Rightarrow> bool" where
  "same_key p n \<longleftrightarrow> n_caller_id n = up_caller_id p \<and> n_idempotent_key n = up_idempotent_key p"

definition sql_upsert :: "upsert_params \<Rightarrow> store \<Rightarrow> reply \<times> store" where
  "sql_upsert p s =
     (case (varchar 64 (up_caller_id p), varchar 128 (up_idempotent_key p),
            varchar 128 (up_event_type p)) of
        (Some c, Some k, Some ev) \<Rightarrow>
          (case up_payload p of
             None \<Rightarrow> (violation ''null value in column payload'', s)
           | Some m \<Rightarrow>
               (let q = p\<lparr>up_caller_id := c, up_idempotent_key := k, up_event_type := ev\<rparr>
                in case find (same_key q) (st_notifs s) of
                     Some n \<Rightarrow>
                       (Row_Upsert (n_id n) (n_created_at n = st_now s),
                        s\<lparr>st_notifs := upd_where (same_key q) (n_updated_at_update (\<lambda>_. st_now s))
                                          (st_notifs s)\<rparr>)
                   | None \<Rightarrow> insert_notification q m s))
      | _ \<Rightarrow> (violation ''value too long for type character varying'', s))"

definition sql_set_notif_status :: "string \<Rightarrow> string \<Rightarrow> store \<Rightarrow> reply \<times> store" where
  "sql_set_notif_status i status s =
     (if notif_row s i = None then (Done, s)
      else if status \<notin> set notif_statuses then (violation ''chk_notifications_status'', s)
      else (Done, s\<lparr>st_notifs := upd_where (\<lambda>n. n_id n = i)
              (\<lambda>n. n\<lparr>n_status := status, n_updated_at := st_now s\<rparr>) (st_notifs s)\<rparr>))"

definition new_task :: "string \<Rightarrow> string \<Rightarrow> string \<Rightarrow> string \<Rightarrow> int \<Rightarrow> delivery_task" where
  "new_task i nid vendor ev now =
     \<lparr>t_id = i, t_shard_id = 0, t_notification_id = nid, t_event_type = ev, t_vendor_id = vendor,
      t_status = ''PENDING'', t_retry_count = 0, t_max_retries = 5, t_next_retry_at = None,
      t_last_error = No_Error, t_created_at = now, t_updated_at = now\<rparr>"

definition sql_insert_task :: "string \<Rightarrow> string \<Rightarrow> string \<Rightarrow> store \<Rightarrow> reply \<times> store" where
  "sql_insert_task nid vendor ev s =
     (case (varchar 64 vendor, varchar 128 ev) of
        (Some v, Some e) \<Rightarrow>
          (let i = st_ids s (st_drawn s); s' = s\<lparr>st_drawn := Suc (st_drawn s)\<rparr>;
               t = new_task i nid v e (st_now s)
           in if task_row s i \<noteq> None then (violation ''delivery_tasks_pkey'', s')
              else if list_ex (\<lambda>t. t_vendor_id t = v) (tasks_of s nid)
                then (violation ''uq_delivery_tasks_notification_vendor'', s')
              else if notif_row s nid = None
                then (violation ''fk_delivery_tasks_notification'', s')
              else (Row_Task t, s'\<lparr>st_tasks := st_tasks s @ [t]\<rparr>))
      | _ \<Rightarrow> (violation ''value too long for type character varying'', s))"

definition upd_task :: "string \<Rightarrow> (delivery_task \<Rightarrow> delivery_task) \<Rightarrow> store \<Rightarrow> store" where
  "upd_task i f s =
     s\<lparr>st_tasks := upd_where (\<lambda>t. t_id t = i) (\<lambda>t. (f t)\<lparr>t_updated_at := st_now s\<rparr>) (st_tasks s)\<rparr>"

definition sql_set_task_status :: "string \<Rightarrow> string \<Rightarrow> store \<Rightarrow> reply \<times> store" where
  "sql_set_task_status i status s =
     (if task_row s i = None then (Done, s)
      else if status \<notin> set task_statuses then (violation ''chk_delivery_tasks_status'', s)
      else (Done, upd_task i (t_status_update (\<lambda>_. status)) s))"

text \<open>
  \<open>retry_count\<close> is an \<open>INT\<close>, 32 bits wide; the due time arrives in nanoseconds and is kept in
  microseconds.
\<close>

definition in_i32 :: "int \<Rightarrow> bool" where
  "in_i32 n \<longleftrightarrow> - 2147483648 \<le> n \<and> n \<le> 2147483647"

definition sql_set_retry :: "string \<Rightarrow> int \<Rightarrow> int \<Rightarrow> last_error \<Rightarrow> store \<Rightarrow> reply \<times> store" where
  "sql_set_retry i n due err s =
     (if \<not> in_i32 n then (violation ''integer out of range'', s)
      else (Done, upd_task i (\<lambda>t. t\<lparr>t_retry_count := n, t_next_retry_at := Some (due div 1000),
                                    t_last_error := err\<rparr>) s))"

definition sql_dead_letter :: "string \<Rightarrow> last_error \<Rightarrow> store \<Rightarrow> reply \<times> store" where
  "sql_dead_letter i err s =
     (Done, upd_task i (\<lambda>t. t\<lparr>t_status := ''DEAD_LETTER'', t_last_error := err\<rparr>) s)"

definition count_status :: "string \<Rightarrow> delivery_task list \<Rightarrow> int" where
  "count_status st ts = int (length (filter (\<lambda>t. t_status t = st) ts))"

definition sql_count_tasks :: "string \<Rightarrow> store \<Rightarrow> reply \<times> store" where
  "sql_count_tasks i s =
     (let ts = tasks_of s i
      in (Row_Counts (int (length ts)) (count_status ''SUCCEEDED'' ts) (count_status ''DEAD_LETTER'' ts), s))"

definition matching :: "string option \<Rightarrow> string option \<Rightarrow> store \<Rightarrow> notification list" where
  "matching caller ev s =
     filter (\<lambda>n. (case caller of None \<Rightarrow> True | Some c \<Rightarrow> n_caller_id n = c) \<and>
                 (case ev of None \<Rightarrow> True | Some e \<Rightarrow> n_event_type n = e)) (st_notifs s)"

definition newest_first :: "notification list \<Rightarrow> notification list" where
  "newest_first ns = sort_key (\<lambda>n. - n_created_at n) ns"

definition sql_page :: "string option \<Rightarrow> string option \<Rightarrow> int \<Rightarrow> int \<Rightarrow> store \<Rightarrow> reply \<times> store" where
  "sql_page caller ev lmt off s =
     (if lmt < 0 then 
        (Rows_Notifications [] (Some (ErrExternal ''LIMIT must not be negative'')), s)
      else if off < 0 then 
        (Rows_Notifications [] (Some (ErrExternal ''OFFSET must not be negative'')), s)
      else (Rows_Notifications
              (take (nat lmt) (drop (nat off) (newest_first (matching caller ev s)))) None, s))"

definition sql_schema :: "string \<Rightarrow> store \<Rightarrow> reply \<times> store" where
  "sql_schema ev s =
     (case sort_key (\<lambda>r. - sr_version r)
             (filter (\<lambda>r. sr_event_type r = ev \<and> sr_status r = ''ACTIVE'') (st_schemas s)) of
        [] \<Rightarrow> (no_rows, s)
      | r # _ \<Rightarrow> (Row_Text (sr_schema r), s))"

definition select_notif :: "(notification \<Rightarrow> reply) \<Rightarrow> string \<Rightarrow> store \<Rightarrow> reply \<times> store" where
  "select_notif f i s = (case notif_row s i of None \<Rightarrow> (no_rows, s) | Some n \<Rightarrow> (f n, s))"

fun sql :: "stmt \<Rightarrow> store \<Rightarrow> reply \<times> store" where
  "sql (Upsert_Notification p) s = sql_upsert p s"
| "sql (Select_Notification i) s = with_uuid i (select_notif Row_Notification) s"
| "sql (Select_Payload i) s = with_uuid i (select_notif (\<lambda>n. Row_Payload (n_payload n))) s"
| "sql (Update_Notification_Status i st) s = with_uuid i (\<lambda>u. sql_set_notif_status u st) s"
| "sql (Select_Event_Type i) s = with_uuid i (select_notif (\<lambda>n. Row_Text (n_event_type n))) s"
| "sql (Insert_Task nid v ev) s = with_uuid nid (\<lambda>u. sql_insert_task u v ev) s"
| "sql (Select_Task i) s =
     with_uuid i (\<lambda>u s. case task_row s u of None \<Rightarrow> (no_rows, s) | Some t \<Rightarrow> (Row_Task t, s)) s"
| "sql (Update_Task_Status i st) s = with_uuid i (\<lambda>u. sql_set_task_status u st) s"
| "sql (Update_Task_Retry i n due err) s = with_uuid i (\<lambda>u. sql_set_retry u n due err) s"
| "sql (Update_Dead_Letter i err) s = with_uuid i (\<lambda>u. sql_dead_letter u err) s"
| "sql (Count_Tasks i) s = with_uuid i sql_count_tasks s"
| "sql (Select_Tasks i) s =
     with_uuid i (\<lambda>u s. (Rows_Tasks (sort_key t_created_at (tasks_of s u)) None, s)) s"
| "sql (Count_Notifications c ev) s = (Row_Int (int (length (matching c ev s))), s)"
| "sql (Page_Notifications c ev lmt off) s = sql_page c ev lmt off s"
| "sql (Select_Schema ev) s = sql_schema ev s"

text \<open>A statement sent over a connection that may fail.\<close>

definition connection_lost :: reply where
  "connection_lost = Failed (ErrExternal ''connection lost'')"

definition cut_reply :: "nat \<Rightarrow> reply \<Rightarrow> reply" where
  "cut_reply n r =
     (case r of
        Rows_Tasks ts late \<Rightarrow> Rows_Tasks (take n ts) (Some (ErrExternal ''connection lost''))
      | Rows_Notifications ns late \<Rightarrow>
          Rows_Notifications (take n ns) (Some (ErrExternal ''connection lost''))
      | _ \<Rightarrow> connection_lost)"

definition exec_sql :: "stmt \<Rightarrow> store \<Rightarrow> reply \<times> store" where
  "exec_sql c s =
     (case st_faults s of
        [] \<Rightarrow> sql c s
      | f # fs \<Rightarrow>
          (let s' = s\<lparr>st_faults := fs\<rparr>
           in case f of
                Healthy \<Rightarrow> sql c s'
              | Lost \<Rightarrow> (connection_lost, s')
              | Unacked \<Rightarrow> (connection_lost, snd (sql c s'))
              | Cut n \<Rightarrow> (case sql c s' of (r, s'') \<Rightarrow> (cut_reply n r, s''))))"

end
