(* ===== verification/Postgres.thy ===== *)
theory Postgres
  imports Store
begin

text \<open>
  \<open>port.DBClient\<close>, and its implementation \<open>postgres.Client\<close> (\<open>internal/db/postgres/db.go\<close>): each
  method as the sequence of its SQL statements with its error wrapping.
\<close>

section \<open>The interface\<close>

record db_client =
  db_upsert_notification :: "upsert_params \<Rightarrow> (go_error + string \<times> bool) prog"
  db_get_notification :: "string \<Rightarrow> (go_error + notification) prog"
  db_get_payload :: "string \<Rightarrow> (go_error + (string, gval) gomap option) prog"
  db_update_notification_status :: "string \<Rightarrow> string \<Rightarrow> go_error option prog"
  db_create_tasks :: "string \<Rightarrow> string list \<Rightarrow> (go_error + delivery_task list) prog"
  db_get_task :: "string \<Rightarrow> (go_error + delivery_task) prog"
  db_update_task_status :: "string \<Rightarrow> string \<Rightarrow> go_error option prog"
  db_update_task_retry :: "string \<Rightarrow> int \<Rightarrow> int \<Rightarrow> last_error \<Rightarrow> go_error option prog"
  db_insert_dead_letter :: "delivery_task \<Rightarrow> last_error \<Rightarrow> go_error option prog"
  db_get_task_counts :: "string \<Rightarrow> (go_error + int \<times> int \<times> int) prog"
  db_get_tasks :: "string \<Rightarrow> (go_error + delivery_task list) prog"
  db_list_notifications :: "string \<Rightarrow> string \<Rightarrow> int \<Rightarrow> int \<Rightarrow> (go_error + notification list \<times> int) prog"
  db_get_event_schema :: "string \<Rightarrow> (go_error + string) prog"

section \<open>\<open>postgres.Client\<close>\<close>

definition pg_upsert_notification :: "upsert_params \<Rightarrow> (go_error + string \<times> bool) prog" where
  "pg_upsert_notification p =
     wrap_err ''upsert notification: %w'' (ask (Sql (Upsert_Notification p)) scan_upsert)"

definition pg_get_notification :: "string \<Rightarrow> (go_error + notification) prog" where
  "pg_get_notification i =
     wrap_err ''get notification: %w'' (ask (Sql (Select_Notification i)) scan_notification)"

definition pg_get_payload :: "string \<Rightarrow> (go_error + (string, gval) gomap option) prog" where
  "pg_get_payload i =
     wrap_err ''get notification payload: %w'' (ask (Sql (Select_Payload i)) scan_payload)"

definition pg_update_notification_status :: "string \<Rightarrow> string \<Rightarrow> go_error option prog" where
  "pg_update_notification_status i st =
     wrap_opt ''update notification status: %w''
       (ask (Sql (Update_Notification_Status i st)) scan_done)"

text \<open>The loop of \<open>CreateDeliveryTasks\<close>; \<open>tasks\<close> are the rows inserted so far.\<close>

fun pg_insert_tasks ::
  "string \<Rightarrow> string \<Rightarrow> string list \<Rightarrow> delivery_task list \<Rightarrow> (go_error + delivery_task list) prog" where
  "pg_insert_tasks nid ev [] tasks = Ret (Inr tasks)"
| "pg_insert_tasks nid ev (v # vs) tasks =
     try_call (ask (Sql (Insert_Task nid v ev)) scan_task)
       (\<lambda>e. Ret (Inl (Errorf ''insert delivery task for vendor %s: %w'' [ArgStr v, ArgErr e])))
       (\<lambda>t. pg_insert_tasks nid ev vs (tasks @ [t]))"

definition pg_create_tasks :: "string \<Rightarrow> string list \<Rightarrow> (go_error + delivery_task list) prog" where
  "pg_create_tasks nid vendors =
     try_call (ask (Sql (Select_Event_Type nid)) scan_text)
       (\<lambda>e. Ret (Inl (Errorf ''get notification event_type: %w'' [ArgErr e])))
       (\<lambda>ev. pg_insert_tasks nid ev vendors [])"

definition pg_get_task :: "string \<Rightarrow> (go_error + delivery_task) prog" where
  "pg_get_task i = wrap_err ''get delivery task: %w'' (ask (Sql (Select_Task i)) scan_task)"

definition pg_update_task_status :: "string \<Rightarrow> string \<Rightarrow> go_error option prog" where
  "pg_update_task_status i st =
     wrap_opt ''update delivery task status: %w'' (ask (Sql (Update_Task_Status i st)) scan_done)"

definition pg_update_task_retry ::
  "string \<Rightarrow> int \<Rightarrow> int \<Rightarrow> last_error \<Rightarrow> go_error option prog" where
  "pg_update_task_retry i n due err =
     wrap_opt ''update delivery task retry: %w''
       (ask (Sql (Update_Task_Retry i n due err)) scan_done)"

definition pg_insert_dead_letter :: "delivery_task \<Rightarrow> last_error \<Rightarrow> go_error option prog" where
  "pg_insert_dead_letter t err =
     wrap_opt ''insert dead letter: %w'' (ask (Sql (Update_Dead_Letter (t_id t) err)) scan_done)"

definition pg_get_task_counts :: "string \<Rightarrow> (go_error + int \<times> int \<times> int) prog" where
  "pg_get_task_counts i =
     wrap_err ''get delivery task counts: %w'' (ask (Sql (Count_Tasks i)) scan_counts)"

definition pg_get_tasks :: "string \<Rightarrow> (go_error + delivery_task list) prog" where
  "pg_get_tasks i =
     wrap_err ''get delivery tasks by notification: %w'' (ask (Sql (Select_Tasks i)) scan_tasks)"

text \<open>\<open>pageSize\<close> and \<open>page\<close> after the clamping at the head of \<open>ListNotifications\<close>.\<close>

definition clamp_page_size :: "int \<Rightarrow> int" where
  "clamp_page_size n = (let m = (if n \<le> 0 then 20 else n) in if m > 100 then 100 else m)"

definition clamp_page :: "int \<Rightarrow> int" where
  "clamp_page n = (if n < 1 then 1 else n)"

definition text_filter :: "string \<Rightarrow> string option" where
  "text_filter s = (if s = [] then None else Some s)"

definition pg_list_notifications ::
  "string \<Rightarrow> string \<Rightarrow> int \<Rightarrow> int \<Rightarrow> (go_error + notification list \<times> int) prog" where
  "pg_list_notifications caller ev page psize =
     (let psize' = clamp_page_size psize; page' = clamp_page page; off = w64 ((page' - 1) * psize');
          c = text_filter caller; e = text_filter ev
      in try_call (ask (Sql (Count_Notifications c e)) scan_int)
           (\<lambda>err. Ret (Inl (Errorf ''count notifications: %w'' [ArgErr err])))
           (\<lambda>total. try_call (ask (Sql (Page_Notifications c e psize' off)) scan_notifications)
              (\<lambda>err. Ret (Inl (Errorf ''list notifications: %w'' [ArgErr err])))
              (\<lambda>ns. Ret (Inr (ns, total)))))"

definition pg_get_event_schema :: "string \<Rightarrow> (go_error + string) prog" where
  "pg_get_event_schema ev =
     wrap_err ''get event schema: %w'' (ask (Sql (Select_Schema ev)) scan_text)"

definition pg_client :: db_client where
  "pg_client = \<lparr>
     db_upsert_notification = pg_upsert_notification,
     db_get_notification = pg_get_notification,
     db_get_payload = pg_get_payload,
     db_update_notification_status = pg_update_notification_status,
     db_create_tasks = pg_create_tasks,
     db_get_task = pg_get_task,
     db_update_task_status = pg_update_task_status,
     db_update_task_retry = pg_update_task_retry,
     db_insert_dead_letter = pg_insert_dead_letter,
     db_get_task_counts = pg_get_task_counts,
     db_get_tasks = pg_get_tasks,
     db_list_notifications = pg_list_notifications,
     db_get_event_schema = pg_get_event_schema\<rparr>"

text \<open>\<open>NewClient\<close>: the pool is created by \<open>pgxpool\<close>, which may reject the DSN.\<close>

definition pg_new_client :: "(string \<Rightarrow> go_error option) \<Rightarrow> string \<Rightarrow> go_error + db_client" where
  "pg_new_client pool_new dsn =
     (case pool_new dsn of
        Some e \<Rightarrow> Inl (Errorf ''pgxpool new: %w'' [ArgErr e])
      | None \<Rightarrow> Inr pg_client)"

end
