(* ===== verification/Worker.thy ===== *)
theory Worker
  imports Backoff Rabbit_MQ Postgres "HOL-Library.Signed_Division"
begin

text \<open>
  \<open>internal/delivery/worker.go\<close>: what a worker does with one delivery message. The functions follow
  the methods of \<open>WorkerPool\<close>; the interfaces of \<open>WorkerDeps\<close> are a record.
\<close>

section \<open>Dependencies\<close>

type_synonym request_builder =
  "vendor_config option \<Rightarrow> mapping_config option \<Rightarrow> (string, gval) gomap option \<Rightarrow>
   go_error + http_request option"

record worker_deps =
  wd_db :: db_client
  wd_mq :: mq_client
  wd_config :: config_provider
  wd_engine :: request_builder

section \<open>Outcomes\<close>

text \<open>
  \<open>resolveNotificationStatus\<close>. \<open>resolved_status\<close> is its decision once the counts are read;
  \<open>None\<close> is the early return while tasks are outstanding.
\<close>

definition resolved_status :: "int \<Rightarrow> int \<Rightarrow> int \<Rightarrow> string option" where
  "resolved_status cnt succeeded dead =
     (if succeeded + dead < cnt then None
      else if dead = 0 then Some ''SUCCEEDED''
      else if succeeded = 0 then Some ''FAILED''
      else Some ''PARTIALLY_FAILED'')"

definition resolve_notification_status :: "worker_deps \<Rightarrow> string \<Rightarrow> unit prog" where
  "resolve_notification_status d nid =
     try_call (db_get_task_counts (wd_db d) nid)
       (\<lambda>e. Ret ())
       (\<lambda>(cnt, succeeded, dead).
          case resolved_status cnt succeeded dead of
            None \<Rightarrow> Ret ()
          | Some st \<Rightarrow> bind (db_update_notification_status (wd_db d) nid st) (\<lambda>_. Ret ()))"

definition handle_dead_letter ::
  "worker_deps \<Rightarrow> delivery_task \<Rightarrow> last_error \<Rightarrow> go_error option prog" where
  "handle_dead_letter d task err =
     check_err (db_update_task_status (wd_db d) (t_id task) ''DEAD_LETTER'')
       (\<lambda>e. Ret (Some (Errorf ''update delivery task status to dead_letter: %w'' [ArgErr e])))
       (check_err (db_insert_dead_letter (wd_db d) task err)
          (\<lambda>e. Ret (Some (Errorf ''insert dead letter: %w'' [ArgErr e])))
          (bind (resolve_notification_status d (t_notification_id task)) (\<lambda>_. Ret None)))"

definition retry_or_dead_letter ::
  "worker_deps \<Rightarrow> delivery_task \<Rightarrow> retry_policy \<Rightarrow> last_error \<Rightarrow> go_error option prog" where
  "retry_or_dead_letter d task policy err =
     (let next_retry = t_retry_count task + 1
      in if next_retry \<ge> rp_max_attempts policy then handle_dead_letter d task err
         else bind (ask Time_Now time_reply) (\<lambda>now.
                bind (calculate_backoff next_retry policy None) (\<lambda>delay.
                  check_err
                    (db_update_task_retry (wd_db d) (t_id task) next_retry (now + delay) err)
                    (\<lambda>e. Ret (Some (Errorf ''update delivery task retry: %w'' [ArgErr e])))
                    (check_err
                       (mq_publish_delayed (wd_mq d) (t_vendor_id task) (t_id task)
                          (delay sdiv 1000000))
                       (\<lambda>e. Ret (Some (Errorf ''publish delayed: %w'' [ArgErr e])))
                       (Ret None)))))"

definition handle_http_error ::
  "worker_deps \<Rightarrow> delivery_task \<Rightarrow> retry_policy \<Rightarrow> last_error \<Rightarrow> go_error option prog" where
  "handle_http_error d task policy err = retry_or_dead_letter d task policy err"

text \<open>A failed status update is logged only: the vendor has the request.\<close>

definition handle_delivery_success :: "worker_deps \<Rightarrow> delivery_task \<Rightarrow> go_error option prog" where
  "handle_delivery_success d task =
     bind (db_update_task_status (wd_db d) (t_id task) ''SUCCEEDED'') (\<lambda>_.
       bind (resolve_notification_status d (t_notification_id task)) (\<lambda>_. Ret None))"

definition is_http_success :: "int \<Rightarrow> bool" where
  "is_http_success code \<longleftrightarrow> code \<ge> 200 \<and> code < 300"

definition is_http_retryable :: "int \<Rightarrow> bool" where
  "is_http_retryable code \<longleftrightarrow> code \<ge> 500 \<or> code = 429"

section \<open>\<open>ProcessMessage\<close>\<close>

definition effective_policy :: "vendor_config \<Rightarrow> delivery_spec \<Rightarrow> retry_policy" where
  "effective_policy vc spec = (case ds_retry spec of Some r \<Rightarrow> r | None \<Rightarrow> vc_retry vc)"

text \<open>Steps 6 and 7: the request is sent and the response judged by its status code.\<close>

definition send_and_judge ::
  "worker_deps \<Rightarrow> delivery_task \<Rightarrow> retry_policy \<Rightarrow> http_request \<Rightarrow> go_error option prog" where
  "send_and_judge d task policy req =
     try_call (ask (Http_Do req) http_reply)
       (\<lambda>e. handle_http_error d task policy (Error_Text e))
       (\<lambda>(code, status).
          if is_http_success code then handle_delivery_success d task
          else if is_http_retryable code then retry_or_dead_letter d task policy (Status_Line status)
          else handle_dead_letter d task (Status_Line status))"

text \<open>Steps 3 to 5: configuration and request. Sending a nil request panics.\<close>

definition deliver ::
  "worker_deps \<Rightarrow> delivery_task \<Rightarrow> (string, gval) gomap option \<Rightarrow> go_error option prog" where
  "deliver d task payload =
     (case cp_vendor_config (wd_config d) (t_vendor_id task) of
        Inl e \<Rightarrow> handle_dead_letter d task (Error_Text e)
      | Inr vendor \<Rightarrow>
          bind (cp_delivery_spec (wd_config d) (t_vendor_id task) (t_event_type task)) (\<lambda>r.
            case r of
              Inl e \<Rightarrow> handle_dead_letter d task (Error_Text e)
            | Inr found \<Rightarrow>
                (case (vendor, found) of
                   (Some vc, Some spec) \<Rightarrow>
                     (let policy = effective_policy vc spec
                      in case wd_engine d (Some vc) (Some (ds_mapping spec)) payload of
                           Inl e \<Rightarrow> retry_or_dead_letter d task policy (Error_Text e)
                         | Inr None \<Rightarrow> Panic ''nil pointer dereference''
                         | Inr (Some req) \<Rightarrow> send_and_judge d task policy req)
                 | _ \<Rightarrow> Panic ''nil pointer dereference'')))"

definition process_message :: "worker_deps \<Rightarrow> string \<Rightarrow> go_error option prog" where
  "process_message d task_id =
     try_call (db_get_task (wd_db d) task_id)
       (\<lambda>e. Ret (Some (Errorf ''get delivery task: %w'' [ArgErr e])))
       (\<lambda>task. try_call (db_get_payload (wd_db d) (t_notification_id task))
          (\<lambda>e. Ret (Some (Errorf ''get notification payload: %w'' [ArgErr e])))
          (\<lambda>payload. deliver d task payload))"

section \<open>The consumption loop\<close>

text \<open>The body of the loop in \<open>Start\<close>: a message is acknowledged, or rejected without requeueing.\<close>

datatype settlement = Ack | Nack_Discard

definition handle_delivery :: "worker_deps \<Rightarrow> string \<Rightarrow> settlement prog" where
  "handle_delivery d body =
     (case decode_delivery body of
        None \<Rightarrow> Ret Nack_Discard
      | Some (task_id, vendor) \<Rightarrow>
          bind (process_message d task_id)
            (\<lambda>r. Ret (case r of Some e \<Rightarrow> Nack_Discard | None \<Rightarrow> Ack)))"

end
