(* ===== verification/Store_Facts.thy ===== *)
theory Store_Facts
  imports Postgres
begin

text \<open>
  The constraints of the tables as an invariant that every statement preserves, and what a statement
  may change of rows that exist: never their identity, keys, payload or creation time.
\<close>

section \<open>Updating rows\<close>

lemma upd_where_set: "x \<in> set (upd_where P f xs) \<longleftrightarrow> (\<exists>y \<in> set xs. x = (if P y then f y else y))"
  by (auto simp: upd_where_def)

lemma map_upd_where: "(\<And>x. g (f x) = g x) \<Longrightarrow> map g (upd_where P f xs) = map g xs"
  by (induction xs) (auto simp: upd_where_def)

lemma length_upd_where [simp]: "length (upd_where P f xs) = length xs"
  by (simp add: upd_where_def)

lemma find_upd_where:
  "(\<And>x. Q (f x) = Q x) \<Longrightarrow>
   find Q (upd_where P f xs) = map_option (\<lambda>x. if P x then f x else x) (find Q xs)"
  by (induction xs) (auto simp: upd_where_def)

lemma find_append: "find P (xs @ ys) = (case find P xs of Some x \<Rightarrow> Some x | None \<Rightarrow> find P ys)"
  by (induction xs) auto

lemma find_Some_in: "find P xs = Some x \<Longrightarrow> x \<in> set xs \<and> P x"
  by (induction xs) (auto split: if_splits)

lemma find_None: "find P xs = None \<longleftrightarrow> (\<forall>x \<in> set xs. \<not> P x)"
  by (induction xs) auto

lemma find_key:
  "distinct (map key xs) \<Longrightarrow> x \<in> set xs \<Longrightarrow> find (\<lambda>y. key y = key x) xs = Some x"
  by (induction xs) force+

section \<open>The constraints\<close>

definition notif_key :: "notification \<Rightarrow> string \<times> string" where
  "notif_key n = (n_caller_id n, n_idempotent_key n)"

definition task_key :: "delivery_task \<Rightarrow> string \<times> string" where
  "task_key t = (t_notification_id t, t_vendor_id t)"

definition wf_store :: "store \<Rightarrow> bool" where
  "wf_store s \<longleftrightarrow>
     distinct (map n_id (st_notifs s)) \<and> distinct (map notif_key (st_notifs s)) \<and>
     distinct (map t_id (st_tasks s)) \<and> distinct (map task_key (st_tasks s)) \<and>
     t_notification_id ` set (st_tasks s) \<subseteq> n_id ` set (st_notifs s) \<and>
     n_status ` set (st_notifs s) \<subseteq> set notif_statuses \<and>
     t_status ` set (st_tasks s) \<subseteq> set task_statuses"

lemma notif_row_in: "wf_store s \<Longrightarrow> n \<in> set (st_notifs s) \<Longrightarrow> notif_row s (n_id n) = Some n"
  unfolding notif_row_def wf_store_def by (rule find_key) auto

lemma task_row_in: "wf_store s \<Longrightarrow> t \<in> set (st_tasks s) \<Longrightarrow> task_row s (t_id t) = Some t"
  unfolding task_row_def wf_store_def by (rule find_key) auto

lemma notif_row_Some: "notif_row s i = Some n \<Longrightarrow> n \<in> set (st_notifs s) \<and> n_id n = i"
  unfolding notif_row_def by (drule find_Some_in) auto

lemma task_row_Some: "task_row s i = Some t \<Longrightarrow> t \<in> set (st_tasks s) \<and> t_id t = i"
  unfolding task_row_def by (drule find_Some_in) auto

lemma notif_row_None: "notif_row s i = None \<longleftrightarrow> i \<notin> n_id ` set (st_notifs s)"
  unfolding notif_row_def by (auto simp: find_None)

lemma task_row_None: "task_row s i = None \<longleftrightarrow> i \<notin> t_id ` set (st_tasks s)"
  unfolding task_row_def by (auto simp: find_None)

lemma tasks_of_iff: "t \<in> set (tasks_of s i) \<longleftrightarrow> t \<in> set (st_tasks s) \<and> t_notification_id t = i"
  by (auto simp: tasks_of_def)

text \<open>Changing a status or a time, or adding a row with fresh keys, keeps the constraints.\<close>

lemma wf_upd_notif:
  assumes "wf_store s" "\<And>n. n_id (f n) = n_id n" "\<And>n. notif_key (f n) = notif_key n"
    and "\<And>n. P n \<Longrightarrow> n_status n \<in> set notif_statuses \<Longrightarrow> n_status (f n) \<in> set notif_statuses"
  shows "wf_store (s\<lparr>st_notifs := upd_where P f (st_notifs s)\<rparr>)"
proof -
  have "n_id ` set (upd_where P f (st_notifs s)) = n_id ` set (st_notifs s)"
    using map_upd_where [of n_id f P "st_notifs s"] assms(2) by (metis list.set_map)
  moreover have "n_status ` set (upd_where P f (st_notifs s)) \<subseteq> set notif_statuses"
    using assms(1,4) by (auto simp: upd_where_set wf_store_def image_subset_iff)
  ultimately show ?thesis
    using assms(1) by (simp add: wf_store_def map_upd_where assms(2,3))
qed

lemma wf_upd_task:
  assumes "wf_store s" "\<And>t. t_id (f t) = t_id t" "\<And>t. task_key (f t) = task_key t"
    and "\<And>t. P t \<Longrightarrow> t_status t \<in> set task_statuses \<Longrightarrow> t_status (f t) \<in> set task_statuses"
  shows "wf_store (s\<lparr>st_tasks := upd_where P f (st_tasks s)\<rparr>)"
proof -
  have nid: "t_notification_id (f t) = t_notification_id t" for t
    using assms(3) [of t] by (simp add: task_key_def)
  have "t_notification_id ` set (upd_where P f (st_tasks s)) = t_notification_id ` set (st_tasks s)"
    using map_upd_where [of t_notification_id f P "st_tasks s"] nid by (metis list.set_map)
  moreover have "t_status ` set (upd_where P f (st_tasks s)) \<subseteq> set task_statuses"
    using assms(1,4) by (auto simp: upd_where_set wf_store_def image_subset_iff)
  ultimately show ?thesis
    using assms(1) by (simp add: wf_store_def map_upd_where assms(2,3))
qed

lemma wf_store_fields [simp]:
  "wf_store (s\<lparr>st_drawn := d\<rparr>) = wf_store s"
  "wf_store (s\<lparr>st_faults := fs\<rparr>) = wf_store s"
  "wf_store (s\<lparr>st_now := t\<rparr>) = wf_store s"
  by (simp_all add: wf_store_def)

lemma wf_sql_upsert: "wf_store s \<Longrightarrow> wf_store (snd (sql_upsert p s))"
proof -
  assume wf: "wf_store s"
  have touch: "wf_store (s\<lparr>st_notifs := upd_where P (n_updated_at_update (\<lambda>_. t)) (st_notifs s)\<rparr>)" for P t
    using wf by (intro wf_upd_notif) (auto simp: notif_key_def)
  have insert: "wf_store (snd (insert_notification q m s))"
    if "find (same_key q) (st_notifs s) = None" for q m
  proof -
    from that have "(up_caller_id q, up_idempotent_key q) \<notin> notif_key ` set (st_notifs s)"
      by (auto simp: find_None same_key_def notif_key_def)
    moreover have "n_id ` set (st_notifs s) \<subseteq> insert i (n_id ` set (st_notifs s))" for i by auto
    ultimately show ?thesis
      using wf by (auto simp: insert_notification_def new_notification_def Let_def wf_store_def notif_row_None notif_key_def
          notif_statuses_def)
  qed
  show ?thesis
    using wf touch insert by (auto simp: sql_upsert_def Let_def split: option.splits)
qed

lemma wf_sql_set_notif_status: "wf_store s \<Longrightarrow> wf_store (snd (sql_set_notif_status i st s))"
  by (auto simp: sql_set_notif_status_def notif_key_def intro!: wf_upd_notif)

lemma wf_sql_insert_task: "wf_store s \<Longrightarrow> wf_store (snd (sql_insert_task nid v ev s))"
proof -
  assume wf: "wf_store s"
  have "wf_store (s\<lparr>st_drawn := d, st_tasks := st_tasks s @ [new_task i nid v' ev' now]\<rparr>)"
    if "task_row s i = None" "\<not> list_ex (\<lambda>t. t_vendor_id t = v') (tasks_of s nid)" "notif_row s nid \<noteq> None"
    for i v' ev' now d
  proof -
    have "(nid, v') \<notin> task_key ` set (st_tasks s)"
      using that(2) by (auto simp: task_key_def list_ex_iff tasks_of_iff)
    with wf that show ?thesis
      by (auto simp: wf_store_def new_task_def task_row_None notif_row_None task_key_def task_statuses_def)
  qed
  then show ?thesis
    using wf by (auto simp: sql_insert_task_def Let_def split: option.splits)
qed

lemma wf_upd_task_fields:
  "wf_store s \<Longrightarrow> (\<And>t. t_id (f t) = t_id t \<and> task_key (f t) = task_key t) \<Longrightarrow>
   (\<And>t. t_status t \<in> set task_statuses \<Longrightarrow> t_status (f t) \<in> set task_statuses) \<Longrightarrow>
   wf_store (upd_task i f s)"
  unfolding upd_task_def by (rule wf_upd_task) (auto simp: task_key_def)

lemma wf_sql_set_task_status: "wf_store s \<Longrightarrow> wf_store (snd (sql_set_task_status i st s))"
  by (auto simp: sql_set_task_status_def task_key_def intro!: wf_upd_task_fields)

lemma wf_sql_set_retry: "wf_store s \<Longrightarrow> wf_store (snd (sql_set_retry i n due err s))"
  by (auto simp: sql_set_retry_def task_key_def intro!: wf_upd_task_fields)

lemma wf_sql_dead_letter: "wf_store s \<Longrightarrow> wf_store (snd (sql_dead_letter i err s))"
  by (auto simp: sql_dead_letter_def task_key_def task_statuses_def intro!: wf_upd_task_fields)

lemma wf_with_uuid:
  "(\<And>u. wf_store (snd (f u s))) \<Longrightarrow> wf_store s \<Longrightarrow> wf_store (snd (with_uuid i f s))"
  by (auto simp: with_uuid_def split: option.splits)

lemma same_with_uuid: "(\<And>u. snd (f u s) = s) \<Longrightarrow> snd (with_uuid i f s) = s"
  by (auto simp: with_uuid_def split: option.splits)

text \<open>The statements that only read.\<close>

fun is_query :: "stmt \<Rightarrow> bool" where
  "is_query (Upsert_Notification _) = False"
| "is_query (Update_Notification_Status _ _) = False"
| "is_query (Insert_Task _ _ _) = False"
| "is_query (Update_Task_Status _ _) = False"
| "is_query (Update_Task_Retry _ _ _ _) = False"
| "is_query (Update_Dead_Letter _ _) = False"
| "is_query _ = True"

lemma select_same [simp]: "snd (select_notif f i s) = s"
  by (auto simp: select_notif_def split: option.splits)

lemma query_same [simp]:
  "snd (sql_count_tasks i s) = s" "snd (sql_page c e l off s) = s" "snd (sql_schema ev s) = s"
  by (auto simp: sql_count_tasks_def sql_page_def sql_schema_def Let_def split: list.splits)

lemma select_task_same [simp]:
  "snd (case task_row s u of None \<Rightarrow> (no_rows, s) | Some t \<Rightarrow> (Row_Task t, s)) = s"
  by (simp split: option.split)

lemma query_no_change: "is_query c \<Longrightarrow> snd (sql c s) = s"
  by (cases c) (simp_all add: same_with_uuid)

lemma wf_sql: "wf_store s \<Longrightarrow> wf_store (snd (sql c s))"
proof (cases "is_query c")
  case True
  then show "wf_store s \<Longrightarrow> ?thesis" by (simp add: query_no_change)
next
  case False
  assume wf: "wf_store s"
  note lems = wf_sql_upsert wf_sql_set_notif_status wf_sql_insert_task wf_sql_set_task_status
    wf_sql_set_retry wf_sql_dead_letter
  from False show ?thesis
    by (cases c) (simp_all add: wf lems wf_with_uuid)
qed

lemma no_faults_id [simp]: "st_faults s = [] \<Longrightarrow> s\<lparr>st_faults := []\<rparr> = s"
  by (cases s) simp

lemma snd_exec_sql:
  "snd (exec_sql c s) \<in> {snd (sql c (s\<lparr>st_faults := tl (st_faults s)\<rparr>)), s\<lparr>st_faults := tl (st_faults s)\<rparr>}"
  by (auto simp: exec_sql_def Let_def split: list.splits fault.splits prod.splits)

lemma wf_exec_sql [inv_intros]: "wf_store s \<Longrightarrow> wf_store (snd (exec_sql c s))"
  using snd_exec_sql [of c s] wf_sql [of "s\<lparr>st_faults := tl (st_faults s)\<rparr>" c] by auto

end
