(* ===== verification/Worker_Facts.thy ===== *)
theory Worker_Facts
  imports Worker Store_Facts
begin

text \<open>
  The specification of one delivery and the proof that \<open>ProcessMessage\<close> meets it, over the laws of the
  interfaces it calls: the locale \<open>delivery_env\<close> states what the database, the queue, the vendor and the
  clock promise while nothing fails.
\<close>

section \<open>The decision table\<close>

datatype verdict = Succeed | Retry last_error | Bury last_error

definition within_attempts :: "retry_policy \<Rightarrow> delivery_task \<Rightarrow> last_error \<Rightarrow> verdict" where
  "within_attempts p t e = (if t_retry_count t + 1 < rp_max_attempts p then Retry e else Bury e)"

definition judge :: "retry_policy \<Rightarrow> delivery_task \<Rightarrow> go_error + int \<times> string \<Rightarrow> verdict" where
  "judge p t reply =
     (case reply of
        Inl e \<Rightarrow> within_attempts p t (Error_Text e)
      | Inr (code, status) \<Rightarrow>
          if 200 \<le> code \<and> code < 300 then Succeed
          else if 500 \<le> code \<or> code = 429 then within_attempts p t (Status_Line status)
          else Bury (Status_Line status))"

text \<open>The verdict on a task, the request sent on the way (if any), and the policy in force.\<close>

definition decide ::
  "config_provider \<Rightarrow> request_builder \<Rightarrow> delivery_task \<Rightarrow> (string, gval) gomap option \<Rightarrow>
   go_error + int \<times> string \<Rightarrow> verdict \<times> http_request list" where
  "decide cfg engine t payload reply =
     (case cp_vendor_config cfg (t_vendor_id t) of
        Inl e \<Rightarrow> (Bury (Error_Text e), [])
      | Inr (Some vc) \<Rightarrow>
          (case cp_delivery_spec cfg (t_vendor_id t) (t_event_type t) of
             Ret (Inl e) \<Rightarrow> (Bury (Error_Text e), [])
           | Ret (Inr (Some spec)) \<Rightarrow>
               (case engine (Some vc) (Some (ds_mapping spec)) payload of
                  Inl e \<Rightarrow> (within_attempts (effective_policy vc spec) t (Error_Text e), [])
                | Inr None \<Rightarrow> (Bury No_Error, [])
                | Inr (Some req) \<Rightarrow> (judge (effective_policy vc spec) t reply, [req]))
           | _ \<Rightarrow> (Bury No_Error, []))
      | Inr None \<Rightarrow> (Bury No_Error, []))"

text \<open>The effect of a verdict on a task; times aside.\<close>

definition strip_task :: "delivery_task \<Rightarrow> delivery_task" where
  "strip_task t = t\<lparr>t_next_retry_at := None, t_updated_at := 0\<rparr>"

definition strip_notif :: "notification \<Rightarrow> notification" where
  "strip_notif n = n\<lparr>n_updated_at := 0\<rparr>"

fun settle_task :: "verdict \<Rightarrow> delivery_task \<Rightarrow> delivery_task" where
  "settle_task Succeed t = t\<lparr>t_status := ''SUCCEEDED''\<rparr>"
| "settle_task (Retry e) t = t\<lparr>t_retry_count := t_retry_count t + 1, t_last_error := e\<rparr>"
| "settle_task (Bury e) t = t\<lparr>t_status := ''DEAD_LETTER'', t_last_error := e\<rparr>"

definition settle_tasks :: "verdict \<Rightarrow> delivery_task \<Rightarrow> delivery_task list \<Rightarrow> delivery_task list" where
  "settle_tasks v t ts =
     map (\<lambda>x. if t_id x = t_id t then strip_task (settle_task v (x\<lparr>t_retry_count := t_retry_count t\<rparr>))
              else strip_task x) ts"

text \<open>The status of a notification whose tasks are \<open>ts\<close>, after one of them was settled.\<close>

definition final_status :: "delivery_task list \<Rightarrow> string option" where
  "final_status ts =
     (if \<forall>t \<in> set ts. t_status t = ''SUCCEEDED'' \<or> t_status t = ''DEAD_LETTER'' then
        if \<forall>t \<in> set ts. t_status t = ''SUCCEEDED'' then Some ''SUCCEEDED''
        else if \<forall>t \<in> set ts. t_status t = ''DEAD_LETTER'' then Some ''FAILED''
        else Some ''PARTIALLY_FAILED''
      else None)"

definition settle_notifs ::
  "verdict \<Rightarrow> string \<Rightarrow> delivery_task list \<Rightarrow> notification list \<Rightarrow> notification list" where
  "settle_notifs v nid ts ns =
     (case v of
        Retry _ \<Rightarrow> map strip_notif ns
      | _ \<Rightarrow>
          (case final_status (filter (\<lambda>t. t_notification_id t = nid) ts) of
             None \<Rightarrow> map strip_notif ns
           | Some st \<Rightarrow>
               map (\<lambda>n. strip_notif (if n_id n = nid then n\<lparr>n_status := st\<rparr> else n)) ns))"

section \<open>Counting decides the status\<close>

lemma count_status_none: "count_status st ts = 0 \<longleftrightarrow> (\<forall>t \<in> set ts. t_status t \<noteq> st)"
  by (auto simp: count_status_def filter_empty_conv)

lemma count_two:
  "a \<noteq> b \<Longrightarrow> count_status a ts + count_status b ts \<le> int (length ts) \<and>
   (int (length ts) \<le> count_status a ts + count_status b ts \<longleftrightarrow>
      (\<forall>t \<in> set ts. t_status t = a \<or> t_status t = b))"
  by (induction ts) (auto simp: count_status_def)

lemma resolved_final:
  "resolved_status (int (length ts)) (count_status ''SUCCEEDED'' ts) (count_status ''DEAD_LETTER'' ts) =
   final_status ts"
proof -
  let ?s = "count_status ''SUCCEEDED'' ts" and ?d = "count_status ''DEAD_LETTER'' ts"
  have two: "int (length ts) \<le> ?s + ?d \<longleftrightarrow>
      (\<forall>t \<in> set ts. t_status t = ''SUCCEEDED'' \<or> t_status t = ''DEAD_LETTER'')"
    using count_two [of "''SUCCEEDED''" "''DEAD_LETTER''" ts] by simp
  show ?thesis
  proof (cases "\<forall>t \<in> set ts. t_status t = ''SUCCEEDED'' \<or> t_status t = ''DEAD_LETTER''")
    case False
    with two show ?thesis by (auto simp: resolved_status_def final_status_def)
  next
    case True
    then have "?d = 0 \<longleftrightarrow> (\<forall>t \<in> set ts. t_status t = ''SUCCEEDED'')"
      "?s = 0 \<longleftrightarrow> (\<forall>t \<in> set ts. t_status t = ''DEAD_LETTER'')"
      by (auto simp: count_status_none)
    with True two show ?thesis by (auto simp: resolved_status_def final_status_def)
  qed
qed

section \<open>The interfaces a worker relies on\<close>

text \<open>What a worker can observe of its environment.\<close>

record delivery_view =
  dv_tasks :: "delivery_task list"
  dv_notifs :: "notification list"
  dv_published :: "(string \<times> string \<times> publishing) list"
  dv_requests :: "http_request list"

text \<open>The environment is as it was, apart from what the verdict changes.\<close>

definition settled_by ::
  "(string \<Rightarrow> string \<Rightarrow> int \<Rightarrow> string \<times> string \<times> publishing) \<Rightarrow> verdict \<Rightarrow> delivery_task \<Rightarrow> int list \<Rightarrow> http_request list \<Rightarrow> delivery_view \<Rightarrow> delivery_view \<Rightarrow> bool" where
  "settled_by delayed_msg v t delays reqs a b \<longleftrightarrow>
     map strip_task (dv_tasks b) = settle_tasks v t (dv_tasks a) \<and>
     map strip_notif (dv_notifs b) = settle_notifs v (t_notification_id t) (dv_tasks b) (dv_notifs a) \<and>
     dv_published b = dv_published a @ map (delayed_msg (t_vendor_id t) (t_id t)) delays \<and>
     dv_requests b = dv_requests a @ reqs"

locale delivery_env =
  fixes d :: worker_deps
    and ex :: "'w exec"
    and view :: "'w \<Rightarrow> delivery_view"
    and vendor_reply :: "'w \<Rightarrow> go_error + int \<times> string"
    and delayed_msg :: "string \<Rightarrow> string \<Rightarrow> int \<Rightarrow> string \<times> string \<times> publishing"
    and healthy :: "'w \<Rightarrow> bool"
  assumes unique: "healthy w \<Longrightarrow> distinct (map t_id (dv_tasks (view w)))"
    and owned: "healthy w \<Longrightarrow> t \<in> set (dv_tasks (view w)) \<Longrightarrow>
      t_notification_id t \<in> n_id ` set (dv_notifs (view w))"
    and read_task: "healthy w \<Longrightarrow> t \<in> set (dv_tasks (view w)) \<Longrightarrow>
      run ex (db_get_task (wd_db d) (t_id t)) w = (Inr (Inr t), w)"
    and read_payload: "healthy w \<Longrightarrow> n \<in> set (dv_notifs (view w)) \<Longrightarrow>
      run ex (db_get_payload (wd_db d) (n_id n)) w = (Inr (Inr (n_payload n)), w)"
    and write_status: "healthy w \<Longrightarrow> t \<in> set (dv_tasks (view w)) \<Longrightarrow> st \<in> set task_statuses \<Longrightarrow>
      \<exists>w' u. run ex (db_update_task_status (wd_db d) (t_id t) st) w = (Inr None, w') \<and> healthy w' \<and>
        view w' = (view w)\<lparr>dv_tasks := upd_where (\<lambda>x. t_id x = t_id t)
                             (\<lambda>x. x\<lparr>t_status := st, t_updated_at := u\<rparr>) (dv_tasks (view w))\<rparr>"
    and write_retry: "healthy w \<Longrightarrow> t \<in> set (dv_tasks (view w)) \<Longrightarrow> in_i32 k \<Longrightarrow>
      \<exists>w' u a. run ex (db_update_task_retry (wd_db d) (t_id t) k due err) w = (Inr None, w') \<and> healthy w' \<and>
        view w' = (view w)\<lparr>dv_tasks := upd_where (\<lambda>x. t_id x = t_id t)
                             (\<lambda>x. x\<lparr>t_retry_count := k, t_next_retry_at := a, t_last_error := err,
                                    t_updated_at := u\<rparr>) (dv_tasks (view w))\<rparr>"
    and write_dead: "healthy w \<Longrightarrow> t' \<in> set (dv_tasks (view w)) \<Longrightarrow> t_id t' = t_id t \<Longrightarrow>
      \<exists>w' u. run ex (db_insert_dead_letter (wd_db d) t err) w = (Inr None, w') \<and> healthy w' \<and>
        view w' = (view w)\<lparr>dv_tasks := upd_where (\<lambda>x. t_id x = t_id t)
                             (\<lambda>x. x\<lparr>t_status := ''DEAD_LETTER'', t_last_error := err, t_updated_at := u\<rparr>)
                             (dv_tasks (view w))\<rparr>"
    and counts: "healthy w \<Longrightarrow> nid \<in> n_id ` set (dv_notifs (view w)) \<Longrightarrow>
      ts = filter (\<lambda>t. t_notification_id t = nid) (dv_tasks (view w)) \<Longrightarrow>
      run ex (db_get_task_counts (wd_db d) nid) w =
        (Inr (Inr (int (length ts), count_status ''SUCCEEDED'' ts, count_status ''DEAD_LETTER'' ts)), w)"
    and write_notif: "healthy w \<Longrightarrow> nid \<in> n_id ` set (dv_notifs (view w)) \<Longrightarrow> st \<in> set notif_statuses \<Longrightarrow>
      \<exists>w' u. run ex (db_update_notification_status (wd_db d) nid st) w = (Inr None, w') \<and> healthy w' \<and>
        view w' = (view w)\<lparr>dv_notifs := upd_where (\<lambda>n. n_id n = nid)
                             (\<lambda>n. n\<lparr>n_status := st, n_updated_at := u\<rparr>) (dv_notifs (view w))\<rparr>"
    and publish: "healthy w \<Longrightarrow>
      \<exists>w'. run ex (mq_publish_delayed (wd_mq d) v i ms) w = (Inr None, w') \<and> healthy w' \<and>
        view w' = (view w)\<lparr>dv_published := dv_published (view w) @ [delayed_msg v i ms]\<rparr>"
    and http: "healthy w \<Longrightarrow>
      \<exists>w'. run ex (ask (Http_Do req) http_reply) w = (Inr (vendor_reply w), w') \<and> healthy w' \<and>
        view w' = (view w)\<lparr>dv_requests := dv_requests (view w) @ [req]\<rparr>"
    and clock: "healthy w \<Longrightarrow> \<exists>now w'. run ex (ask Time_Now time_reply) w = (Inr now, w') \<and> healthy w' \<and> view w' = view w"
    and draw: "healthy w \<Longrightarrow> \<exists>rnd w'. run ex (ask Rand_Float float_reply) w = (Inr rnd, w') \<and> healthy w' \<and> view w' = view w"

begin

abbreviation settled ::
  "verdict \<Rightarrow> delivery_task \<Rightarrow> int list \<Rightarrow> http_request list \<Rightarrow> delivery_view \<Rightarrow> delivery_view \<Rightarrow> bool" where
  "settled \<equiv> settled_by delayed_msg"

lemma resolve_spec:
  assumes "healthy w" "nid \<in> n_id ` set (dv_notifs (view w))"
  shows "\<exists>w'. run ex (resolve_notification_status d nid) w = (Inr (), w') \<and> healthy w' \<and>
           dv_tasks (view w') = dv_tasks (view w) \<and> dv_published (view w') = dv_published (view w) \<and>
           dv_requests (view w') = dv_requests (view w) \<and>
           map strip_notif (dv_notifs (view w')) = settle_notifs Succeed nid (dv_tasks (view w)) (dv_notifs (view w))"
proof -
  let ?ts = "filter (\<lambda>t. t_notification_id t = nid) (dv_tasks (view w))"
  have r: "run ex (resolve_notification_status d nid) w =
      run ex (case final_status ?ts of None \<Rightarrow> Ret ()
              | Some st \<Rightarrow> bind (db_update_notification_status (wd_db d) nid st) (\<lambda>_. Ret ())) w"
    unfolding resolve_notification_status_def
    by (subst run_try_Inr [OF counts [OF assms refl]]) (simp add: resolved_final)
  show ?thesis
  proof (cases "final_status ?ts")
    case None
    then show ?thesis using r assms(1) by (auto simp: settle_notifs_def)
  next
    case (Some st)
    then have "st \<in> set notif_statuses"
      by (auto simp: final_status_def notif_statuses_def split: if_splits)
    from write_notif [OF assms this] obtain w' u where
      "run ex (db_update_notification_status (wd_db d) nid st) w = (Inr None, w')" "healthy w'"
      "view w' = (view w)\<lparr>dv_notifs := upd_where (\<lambda>n. n_id n = nid)
                            (\<lambda>n. n\<lparr>n_status := st, n_updated_at := u\<rparr>) (dv_notifs (view w))\<rparr>"
      by blast
    then show ?thesis
      using r Some by (auto simp: run_bind_Inr settle_notifs_def upd_where_def strip_notif_def)
  qed
qed

lemma same_strip:
  "map strip_task (upd_where (\<lambda>x. t_id x = i) f ts) =
   map (\<lambda>x. if t_id x = i then strip_task (f x) else strip_task x) ts"
  by (simp add: upd_where_def)

lemma settle_notifs_Bury:
  "settle_notifs (Bury e) = settle_notifs Succeed"
  by (intro ext) (simp add: settle_notifs_def)

lemma dead_letter_spec:
  assumes "healthy w" "t' \<in> set (dv_tasks (view w))" "t_id t' = t_id t"
    and "\<forall>x \<in> set (dv_tasks (view w)). t_id x = t_id t \<longrightarrow> t_retry_count x = t_retry_count t"
    and "t_notification_id t \<in> n_id ` set (dv_notifs (view w))"
  shows "\<exists>w'. run ex (handle_dead_letter d t e) w = (Inr None, w') \<and> healthy w' \<and>
           settled (Bury e) t [] [] (view w) (view w')"
proof -
  have st: "''DEAD_LETTER'' \<in> set task_statuses" by (simp add: task_statuses_def)
  from write_status [OF assms(1,2) st] obtain w1 u1 where
    1: "run ex (db_update_task_status (wd_db d) (t_id t) ''DEAD_LETTER'') w = (Inr None, w1)" "healthy w1"
    and v1: "view w1 = (view w)\<lparr>dv_tasks := upd_where (\<lambda>x. t_id x = t_id t)
        (\<lambda>x. x\<lparr>t_status := ''DEAD_LETTER'', t_updated_at := u1\<rparr>) (dv_tasks (view w))\<rparr>"
    unfolding assms(3) by blast
  have "t'\<lparr>t_status := ''DEAD_LETTER'', t_updated_at := u1\<rparr> \<in> set (dv_tasks (view w1))"
    using assms(2,3) by (auto simp: v1 upd_where_set)
  from write_dead [OF 1(2) this, of t e] assms(3) obtain w2 u2 where
    2: "run ex (db_insert_dead_letter (wd_db d) t e) w1 = (Inr None, w2)" "healthy w2"
    and v2: "view w2 = (view w1)\<lparr>dv_tasks := upd_where (\<lambda>x. t_id x = t_id t)
        (\<lambda>x. x\<lparr>t_status := ''DEAD_LETTER'', t_last_error := e, t_updated_at := u2\<rparr>) (dv_tasks (view w1))\<rparr>"
    by auto
  have "t_notification_id t \<in> n_id ` set (dv_notifs (view w2))" using assms(5) by (simp add: v2 v1)
  from resolve_spec [OF 2(2) this] obtain w3 where
    3: "run ex (resolve_notification_status d (t_notification_id t)) w2 = (Inr (), w3)" "healthy w3"
    and v3: "dv_tasks (view w3) = dv_tasks (view w2)" "dv_published (view w3) = dv_published (view w2)"
      "dv_requests (view w3) = dv_requests (view w2)"
      "map strip_notif (dv_notifs (view w3)) =
         settle_notifs Succeed (t_notification_id t) (dv_tasks (view w2)) (dv_notifs (view w2))"
    by blast
  have "run ex (handle_dead_letter d t e) w = (Inr None, w3)"
    unfolding handle_dead_letter_def
    using 3(1) by (simp add: run_check_None [OF 1(1)] run_check_None [OF 2(1)] run_bind_Inr)
  moreover have "map strip_task (dv_tasks (view w3)) = settle_tasks (Bury e) t (dv_tasks (view w))"
    using assms(4) by (auto simp: v3 v2 v1 settle_tasks_def upd_where_def strip_task_def)
  ultimately show ?thesis
    using 3(2) by (auto simp: settled_by_def v3 v2 v1 settle_notifs_Bury)
qed

lemma success_spec:
  assumes "healthy w" "t \<in> set (dv_tasks (view w))"
  shows "\<exists>w'. run ex (handle_delivery_success d t) w = (Inr None, w') \<and> healthy w' \<and>
           settled Succeed t [] [] (view w) (view w')"
proof -
  have st: "''SUCCEEDED'' \<in> set task_statuses" by (simp add: task_statuses_def)
  from write_status [OF assms st] obtain w1 u where
    1: "run ex (db_update_task_status (wd_db d) (t_id t) ''SUCCEEDED'') w = (Inr None, w1)" "healthy w1"
    and v1: "view w1 = (view w)\<lparr>dv_tasks := upd_where (\<lambda>x. t_id x = t_id t)
        (\<lambda>x. x\<lparr>t_status := ''SUCCEEDED'', t_updated_at := u\<rparr>) (dv_tasks (view w))\<rparr>"
    by blast
  have "t_notification_id t \<in> n_id ` set (dv_notifs (view w1))"
    using owned [OF assms] by (simp add: v1)
  from resolve_spec [OF 1(2) this] obtain w2 where
    2: "run ex (resolve_notification_status d (t_notification_id t)) w1 = (Inr (), w2)" "healthy w2"
    and v2: "dv_tasks (view w2) = dv_tasks (view w1)" "dv_published (view w2) = dv_published (view w1)"
      "dv_requests (view w2) = dv_requests (view w1)"
      "map strip_notif (dv_notifs (view w2)) =
         settle_notifs Succeed (t_notification_id t) (dv_tasks (view w1)) (dv_notifs (view w1))"
    by blast
  have "run ex (handle_delivery_success d t) w = (Inr None, w2)"
    unfolding handle_delivery_success_def
    using 2(1) by (simp add: run_bind_Inr [OF 1(1)] run_bind_Inr)
  moreover have "t_retry_count x = t_retry_count t" if "x \<in> set (dv_tasks (view w))" "t_id x = t_id t" for x
    using unique [OF assms(1)] that assms(2) by (metis distinct_map inj_onD)
  then have "map strip_task (dv_tasks (view w2)) = settle_tasks Succeed t (dv_tasks (view w))"
    by (auto simp: v2 v1 settle_tasks_def upd_where_def strip_task_def)
  ultimately show ?thesis
    using 2(2) by (auto simp: settled_by_def v2 v1)
qed

lemma bury_spec:
  assumes "healthy w" "t \<in> set (dv_tasks (view w))"
  shows "\<exists>w'. run ex (handle_dead_letter d t e) w = (Inr None, w') \<and> healthy w' \<and>
           settled (Bury e) t [] [] (view w) (view w')"
proof (rule dead_letter_spec [OF assms refl _ owned [OF assms]])
  show "\<forall>x \<in> set (dv_tasks (view w)). t_id x = t_id t \<longrightarrow> t_retry_count x = t_retry_count t"
    using unique [OF assms(1)] assms(2) by (metis distinct_map inj_onD)
qed

lemma backoff_runs:
  "healthy w \<Longrightarrow>
   \<exists>delay w'. run ex (calculate_backoff n p None) w = (Inr delay, w') \<and> healthy w' \<and> view w' = view w"
  unfolding calculate_backoff_none using draw [of w] by (auto simp: run_bind)

lemma retry_spec:
  assumes "healthy w" "t \<in> set (dv_tasks (view w))" "in_i32 (t_retry_count t + 1)"
  shows "\<exists>w' delays. run ex (retry_or_dead_letter d t p e) w = (Inr None, w') \<and> healthy w' \<and>
           settled (within_attempts p t e) t delays [] (view w) (view w') \<and>
           length delays = (if t_retry_count t + 1 < rp_max_attempts p then 1 else 0)"
proof (cases "t_retry_count t + 1 < rp_max_attempts p")
  case False
  then show ?thesis
    using bury_spec [OF assms(1,2), of e]
    by (fastforce simp: retry_or_dead_letter_def Let_def within_attempts_def)
next
  case True
  from clock [OF assms(1)] obtain now w1 where
    1: "run ex (ask Time_Now time_reply) w = (Inr now, w1)" "healthy w1" "view w1 = view w" by blast
  from backoff_runs [OF 1(2)] obtain delay w2 where
    2: "run ex (calculate_backoff (t_retry_count t + 1) p None) w1 = (Inr delay, w2)" "healthy w2"
      "view w2 = view w1" by blast
  have "t \<in> set (dv_tasks (view w2))" using assms(2) 1 2 by simp
  from write_retry [OF 2(2) this assms(3), of "now + delay" e] obtain w3 u a where
    3: "run ex (db_update_task_retry (wd_db d) (t_id t) (t_retry_count t + 1) (now + delay) e) w2 = (Inr None, w3)"
      "healthy w3"
    and v3: "view w3 = (view w2)\<lparr>dv_tasks := upd_where (\<lambda>x. t_id x = t_id t)
        (\<lambda>x. x\<lparr>t_retry_count := t_retry_count t + 1, t_next_retry_at := a, t_last_error := e, t_updated_at := u\<rparr>)
        (dv_tasks (view w2))\<rparr>"
    by blast
  from publish [OF 3(2), of "t_vendor_id t" "t_id t" "delay sdiv 1000000"] obtain w4 where
    4: "run ex (mq_publish_delayed (wd_mq d) (t_vendor_id t) (t_id t) (delay sdiv 1000000)) w3 = (Inr None, w4)"
      "healthy w4"
    and v4: "view w4 = (view w3)\<lparr>dv_published := dv_published (view w3) @ [delayed_msg (t_vendor_id t) (t_id t) (delay sdiv 1000000)]\<rparr>"
    by blast
  have "run ex (retry_or_dead_letter d t p e) w = (Inr None, w4)"
    unfolding retry_or_dead_letter_def Let_def using True
    by (simp add: run_bind_Inr [OF 1(1)] run_bind_Inr [OF 2(1)] run_check_None [OF 3(1)] run_check_None [OF 4(1)]
        del: run_ask)
  moreover have "map strip_task (dv_tasks (view w4)) = settle_tasks (Retry e) t (dv_tasks (view w))"
    by (auto simp: v4 v3 2 1 settle_tasks_def upd_where_def strip_task_def)
  moreover have "map strip_notif (dv_notifs (view w4)) =
      settle_notifs (Retry e) (t_notification_id t) (dv_tasks (view w4)) (dv_notifs (view w))"
    by (simp add: v4 v3 2 1 settle_notifs_def)
  ultimately have "settled (Retry e) t [delay sdiv 1000000] [] (view w) (view w4)"
    by (simp add: settled_by_def v4 v3 2 1)
  with True 4(2) \<open>run ex (retry_or_dead_letter d t p e) w = (Inr None, w4)\<close> show ?thesis
    by (intro exI [of _ w4] exI [of _ "[delay sdiv 1000000]"]) (simp add: within_attempts_def)
qed

lemma settled_after_request:
  "settled v t delays [] (a\<lparr>dv_requests := dv_requests a @ reqs\<rparr>) b \<Longrightarrow> settled v t delays reqs a b"
  by (simp add: settled_by_def)

lemma send_spec:
  assumes "healthy w" "t \<in> set (dv_tasks (view w))" "in_i32 (t_retry_count t + 1)"
  shows "\<exists>w' delays. run ex (send_and_judge d t p req) w = (Inr None, w') \<and> healthy w' \<and>
           settled (judge p t (vendor_reply w)) t delays [req] (view w) (view w') \<and>
           (delays \<noteq> [] \<longleftrightarrow> (\<exists>e. judge p t (vendor_reply w) = Retry e)) \<and> length delays \<le> 1"
proof -
  from http [OF assms(1), of req] obtain w1 where
    1: "run ex (ask (Http_Do req) http_reply) w = (Inr (vendor_reply w), w1)" "healthy w1"
    and v1: "view w1 = (view w)\<lparr>dv_requests := dv_requests (view w) @ [req]\<rparr>" by blast
  have t: "t \<in> set (dv_tasks (view w1))" using assms(2) by (simp add: v1)
  show ?thesis
  proof (cases "vendor_reply w")
    case (Inl e)
    have r: "run ex (send_and_judge d t p req) w = run ex (retry_or_dead_letter d t p (Error_Text e)) w1"
      unfolding send_and_judge_def handle_http_error_def
      using 1(1) Inl by (subst run_try_Inl) (auto simp del: run_ask)
    from retry_spec [OF 1(2) t assms(3), of p "Error_Text e"] obtain w' delays where
      2: "run ex (retry_or_dead_letter d t p (Error_Text e)) w1 = (Inr None, w')" "healthy w'"
        "settled (within_attempts p t (Error_Text e)) t delays [] (view w1) (view w')"
        "length delays = (if t_retry_count t + 1 < rp_max_attempts p then 1 else 0)" by blast
    from settled_after_request [OF 2(3) [unfolded v1]] 2 show ?thesis
      unfolding r by (intro exI [of _ w'] exI [of _ delays])
        (auto simp: judge_def Inl within_attempts_def split: if_splits)
  next
    case (Inr res)
    obtain code status where res: "res = (code, status)" by (cases res)
    have r: "run ex (send_and_judge d t p req) w =
        run ex (if is_http_success code then handle_delivery_success d t
          else if is_http_retryable code then retry_or_dead_letter d t p (Status_Line status)
          else handle_dead_letter d t (Status_Line status)) w1"
      unfolding send_and_judge_def
      using 1(1) Inr res by (subst run_try_Inr) (auto simp del: run_ask)
    consider "is_http_success code" | "\<not> is_http_success code" "is_http_retryable code"
      | "\<not> is_http_success code" "\<not> is_http_retryable code" by blast
    then show ?thesis
    proof cases
      case 1
      with success_spec [OF \<open>healthy w1\<close> t] settled_after_request show ?thesis
        unfolding r v1 by (fastforce simp: judge_def Inr res is_http_success_def)
    next
      case 2
      from retry_spec [OF \<open>healthy w1\<close> t assms(3), of p "Status_Line status"] obtain w' delays where
        3: "run ex (retry_or_dead_letter d t p (Status_Line status)) w1 = (Inr None, w')" "healthy w'"
          "settled (within_attempts p t (Status_Line status)) t delays [] (view w1) (view w')"
          "length delays = (if t_retry_count t + 1 < rp_max_attempts p then 1 else 0)" by blast
      from settled_after_request [OF 3(3) [unfolded v1]] 2 3 show ?thesis
        unfolding r by (intro exI [of _ w'] exI [of _ delays])
          (auto simp: judge_def Inr res is_http_success_def is_http_retryable_def within_attempts_def
            split: if_splits)
    next
      case 3
      with bury_spec [OF \<open>healthy w1\<close> t, of "Status_Line status"] settled_after_request show ?thesis
        unfolding r v1 by (fastforce simp: judge_def Inr res is_http_success_def is_http_retryable_def)
    qed
  qed
qed

lemma deliver_spec:
  assumes "healthy w" "t \<in> set (dv_tasks (view w))" "in_i32 (t_retry_count t + 1)"
    and "\<And>vc mc p. wd_engine d (Some vc) (Some mc) p \<noteq> Inr None" "config_total (wd_config d)"
  shows "\<exists>w' delays. run ex (deliver d t payload) w = (Inr None, w') \<and> healthy w' \<and>
           (case decide (wd_config d) (wd_engine d) t payload (vendor_reply w) of
              (v, reqs) \<Rightarrow> settled v t delays reqs (view w) (view w') \<and>
                (delays \<noteq> [] \<longleftrightarrow> (\<exists>e. v = Retry e)) \<and> length delays \<le> 1)"
proof (cases "cp_vendor_config (wd_config d) (t_vendor_id t)")
  case (Inl e)
  then show ?thesis
    using bury_spec [OF assms(1,2), of "Error_Text e"] by (fastforce simp: deliver_def decide_def)
next
  case (Inr v)
  with assms(5) obtain vc where vc: "cp_vendor_config (wd_config d) (t_vendor_id t) = Inr (Some vc)"
    unfolding config_total_def by (metis option.exhaust)
  obtain r where r: "cp_delivery_spec (wd_config d) (t_vendor_id t) (t_event_type t) = Ret r" "r \<noteq> Inr None"
    using assms(5) unfolding config_total_def by blast
  show ?thesis
  proof (cases r)
    case (Inl e)
    then show ?thesis
      using bury_spec [OF assms(1,2), of "Error_Text e"] vc r by (fastforce simp: deliver_def decide_def)
  next
    case (Inr found)
    with r obtain spec where
      spec: "cp_delivery_spec (wd_config d) (t_vendor_id t) (t_event_type t) = Ret (Inr (Some spec))"
      by (cases found) auto
    let ?p = "effective_policy vc spec"
    show ?thesis
    proof (cases "wd_engine d (Some vc) (Some (ds_mapping spec)) payload")
      case (Inl e)
      from retry_spec [OF assms(1-3), of ?p "Error_Text e"] obtain w' delays where
        "run ex (retry_or_dead_letter d t ?p (Error_Text e)) w = (Inr None, w')" "healthy w'"
        "settled (within_attempts ?p t (Error_Text e)) t delays [] (view w) (view w')"
        "length delays = (if t_retry_count t + 1 < rp_max_attempts ?p then 1 else 0)" by blast
      then show ?thesis
        using vc spec Inl
        by (intro exI [of _ w'] exI [of _ delays])
          (auto simp: deliver_def decide_def Let_def within_attempts_def)
    next
      case (Inr r)
      with assms(4) obtain req where req: "r = Some req" by (cases r) auto
      from send_spec [OF assms(1-3), of ?p req] show ?thesis
        using vc spec Inr req by (auto simp: deliver_def decide_def Let_def)
    qed
  qed
qed

lemma process_message_spec:
  assumes "healthy w" "t \<in> set (dv_tasks (view w))" "in_i32 (t_retry_count t + 1)"
    and "n \<in> set (dv_notifs (view w))" "n_id n = t_notification_id t"
    and "\<And>vc mc p. wd_engine d (Some vc) (Some mc) p \<noteq> Inr None" "config_total (wd_config d)"
  shows "\<exists>w' delays. run ex (process_message d (t_id t)) w = (Inr None, w') \<and> healthy w' \<and>
           (case decide (wd_config d) (wd_engine d) t (n_payload n) (vendor_reply w) of
              (v, reqs) \<Rightarrow> settled v t delays reqs (view w) (view w') \<and>
                (delays \<noteq> [] \<longleftrightarrow> (\<exists>e. v = Retry e)) \<and> length delays \<le> 1)"
proof -
  have "run ex (process_message d (t_id t)) w = run ex (deliver d t (n_payload n)) w"
    unfolding process_message_def
    using read_payload [OF assms(1,4)]
    by (simp add: run_try_Inr [OF read_task [OF assms(1,2)]] run_try_Inr assms(5))
  then show ?thesis using deliver_spec [OF assms(1-3,6,7), of "n_payload n"] by simp
qed

end

end
