(* ===== verification/Dispatcher.thy ===== *)
theory Dispatcher
  imports Postgres Rabbit_MQ
begin

text \<open>
  \<open>internal/routing/dispatcher.go\<close>: what a trigger message sets off. The steps are those of
  \<open>Dispatch\<close>; log messages are left out.
\<close>

record dispatcher_deps =
  dd_db :: db_client
  dd_mq :: mq_client
  dd_config :: config_provider

text \<open>Step 7: one delivery message per created task; the first failure ends the loop.\<close>

fun publish_tasks :: "dispatcher_deps \<Rightarrow> delivery_task list \<Rightarrow> go_error option prog" where
  "publish_tasks d [] = Ret None"
| "publish_tasks d (t # ts) =
     check_err (mq_publish_delivery (dd_mq d) (t_vendor_id t) (t_id t))
       (\<lambda>e. Ret (Some e))
       (publish_tasks d ts)"

text \<open>Steps 5 to 7, once rules have matched.\<close>

definition fan_out :: "dispatcher_deps \<Rightarrow> string \<Rightarrow> routing_rule list \<Rightarrow> go_error option prog" where
  "fan_out d nid rules =
     try_call (db_create_tasks (dd_db d) nid (map rl_vendor_id rules))
       (\<lambda>e. Ret (Some e))
       (\<lambda>tasks. check_err (db_update_notification_status (dd_db d) nid ''DELIVERING'')
          (\<lambda>e. Ret (Some e))
          (publish_tasks d tasks))"

definition matched_rules :: "dispatcher_deps \<Rightarrow> string \<Rightarrow> routing_rule list" where
  "matched_rules d ev = (case cp_routing_rules (dd_config d) ev of Inl e \<Rightarrow> [] | Inr rules \<Rightarrow> rules)"

definition dispatch :: "dispatcher_deps \<Rightarrow> string \<Rightarrow> go_error option prog" where
  "dispatch d nid =
     try_call (db_get_notification (dd_db d) nid)
       (\<lambda>e. Ret (Some e))
       (\<lambda>n. if n_status n \<noteq> ''PENDING'' then Ret None
            else let rules = matched_rules d (n_event_type n)
                 in if rules = [] then
                      check_err (db_update_notification_status (dd_db d) nid ''FAILED'')
                        (\<lambda>e. Ret (Some e)) (Ret None)
                    else fan_out d nid rules)"

end
