(* ===== verification/World.thy ===== *)
theory World
  imports Worker_Facts Dispatcher
begin

text \<open>
  The world the program runs in: the database, the messages handed to the broker, the vendors'
  replies and the requests they have received, the clock and the random source. Replies, faults and
  random numbers are arbitrary lists, consumed one by one. The interface of \<open>Worker_Facts\<close> is
  interpreted here on the PostgreSQL and RabbitMQ clients.
\<close>

section \<open>The world\<close>

record world =
  w_store :: store
  w_published :: "(string \<times> string \<times> publishing) list"
  w_mq_faults :: "fault list"
  w_vendors :: "(go_error + int \<times> string) list"
  w_requests :: "(http_request \<times> (go_error + int \<times> string)) list"
  w_clock :: int
  w_random :: "f64 list"

definition mq_unreachable :: reply where
  "mq_unreachable = Failed (ErrExternal ''channel/connection is not open'')"

definition exec_publish :: "string \<Rightarrow> string \<Rightarrow> publishing \<Rightarrow> world \<Rightarrow> reply \<times> world" where
  "exec_publish e k m w =
     (let w' = w\<lparr>w_mq_faults := tl (w_mq_faults w)\<rparr>;
          sent = w'\<lparr>w_published := w_published w @ [(e, k, m)]\<rparr>
      in case w_mq_faults w of
           [] \<Rightarrow> (Done, w\<lparr>w_published := w_published w @ [(e, k, m)]\<rparr>)
         | Healthy # _ \<Rightarrow> (Done, sent)
         | Unacked # _ \<Rightarrow> (mq_unreachable, sent)
         | _ \<Rightarrow> (mq_unreachable, w'))"

definition next_vendor_reply :: "world \<Rightarrow> go_error + int \<times> string" where
  "next_vendor_reply w =
     (case w_vendors w of [] \<Rightarrow> Inl (ErrExternal ''context deadline exceeded'') | r # _ \<Rightarrow> r)"

definition exec_http :: "http_request \<Rightarrow> world \<Rightarrow> reply \<times> world" where
  "exec_http req w =
     (let r = next_vendor_reply w
      in (case r of Inl e \<Rightarrow> Failed e | Inr (c, s) \<Rightarrow> Reply_Http c s,
          w\<lparr>w_vendors := tl (w_vendors w), w_requests := w_requests w @ [(req, r)]\<rparr>))"

definition exec_random :: "world \<Rightarrow> reply \<times> world" where
  "exec_random w =
     (Reply_Float (case w_random w of [] \<Rightarrow> Fin 0 | r # _ \<Rightarrow> r), w\<lparr>w_random := tl (w_random w)\<rparr>)"

fun exec_world :: "call \<Rightarrow> world \<Rightarrow> reply \<times> world" where
  "exec_world (Sql c) w = (case exec_sql c (w_store w) of (r, s) \<Rightarrow> (r, w\<lparr>w_store := s\<rparr>))"
| "exec_world (Publish e k m) w = exec_publish e k m w"
| "exec_world (Http_Do req) w = exec_http req w"
| "exec_world Time_Now w = (Reply_Time (w_clock w), w)"
| "exec_world Rand_Float w = exec_random w"

section \<open>A world without faults\<close>

definition uuid_ok :: "store \<Rightarrow> bool" where
  "uuid_ok s \<longleftrightarrow>
     (\<forall>i \<in> t_id ` set (st_tasks s) \<union> n_id ` set (st_notifs s). st_uuid s i = Some i)"

definition healthy_world :: "world \<Rightarrow> bool" where
  "healthy_world w \<longleftrightarrow>
     st_faults (w_store w) = [] \<and> w_mq_faults w = [] \<and> wf_store (w_store w) \<and> uuid_ok (w_store w)"

definition world_view :: "world \<Rightarrow> delivery_view" where
  "world_view w =
     \<lparr>dv_tasks = st_tasks (w_store w), dv_notifs = st_notifs (w_store w),
      dv_published = w_published w, dv_requests = map fst (w_requests w)\<rparr>"

definition delivery_message :: "string \<Rightarrow> string \<Rightarrow> publishing" where
  "delivery_message v i =
     \<lparr>pb_content_type = ''application/json'', pb_persistent = True, pb_headers = [], pb_expiration = [],
      pb_body = (case delivery_body v i of Inr b \<Rightarrow> b | Inl _ \<Rightarrow> [])\<rparr>"

definition delayed_message :: "string \<Rightarrow> string \<Rightarrow> int \<Rightarrow> string \<times> string \<times> publishing" where
  "delayed_message v i ms =
     (dlx_exchange, [],
      (delivery_message v i)\<lparr>pb_headers := [(''x-original-routing-key'', VStr ''delivery'')],
                             pb_expiration := show_int ms\<rparr>)"

definition prod_worker :: "(string \<Rightarrow> bool) \<Rightarrow> config_provider \<Rightarrow> worker_deps" where
  "prod_worker url_ok cfg =
     \<lparr>wd_db = pg_client, wd_mq = rmq_client, wd_config = cfg, wd_engine = build_request url_ok\<rparr>"

lemma prod_worker_simps [simp]:
  "wd_db (prod_worker url_ok cfg) = pg_client" "wd_mq (prod_worker url_ok cfg) = rmq_client"
  "wd_config (prod_worker url_ok cfg) = cfg" "wd_engine (prod_worker url_ok cfg) = build_request url_ok"
  by (simp_all add: prod_worker_def)

lemmas pg_defs = pg_client_def pg_upsert_notification_def pg_get_notification_def pg_get_payload_def
  pg_update_notification_status_def pg_create_tasks_def pg_get_task_def pg_update_task_status_def
  pg_update_task_retry_def pg_insert_dead_letter_def pg_get_task_counts_def pg_get_tasks_def
  pg_list_notifications_def pg_get_event_schema_def

lemma run_sql:
  "run exec_world (ask (Sql c) scan) w =
     (case exec_sql c (w_store w) of (r, s) \<Rightarrow> (Inr (scan r), w\<lparr>w_store := s\<rparr>))"
  by (auto split: prod.split)

lemma exec_sql_healthy: "st_faults s = [] \<Longrightarrow> exec_sql c s = sql c s"
  by (simp add: exec_sql_def)

lemma world_same [simp]: "w\<lparr>w_store := w_store w\<rparr> = w"
  by (cases w) simp

text \<open>Updates that keep identities keep a world healthy.\<close>

lemma healthy_store:
  "healthy_world w \<Longrightarrow> wf_store s \<Longrightarrow> st_faults s = [] \<Longrightarrow> st_uuid s = st_uuid (w_store w) \<Longrightarrow>
   t_id ` set (st_tasks s) = t_id ` set (st_tasks (w_store w)) \<Longrightarrow>
   n_id ` set (st_notifs s) = n_id ` set (st_notifs (w_store w)) \<Longrightarrow>
   healthy_world (w\<lparr>w_store := s\<rparr>)"
  by (simp add: healthy_world_def uuid_ok_def)

lemma ids_upd_where: "(\<And>x. g (f x) = g x) \<Longrightarrow> g ` set (upd_where P f xs) = g ` set xs"
  using map_upd_where [of g f P xs] by (metis list.set_map)

lemma healthy_uuid:
  "healthy_world w \<Longrightarrow> t \<in> set (st_tasks (w_store w)) \<Longrightarrow> st_uuid (w_store w) (t_id t) = Some (t_id t)"
  "healthy_world w \<Longrightarrow> n \<in> set (st_notifs (w_store w)) \<Longrightarrow> st_uuid (w_store w) (n_id n) = Some (n_id n)"
  by (auto simp: healthy_world_def uuid_ok_def)

section \<open>The laws of the worker's interfaces\<close>

lemma healthyD:
  "healthy_world w \<Longrightarrow> st_faults (w_store w) = []"
  "healthy_world w \<Longrightarrow> w_mq_faults w = []"
  "healthy_world w \<Longrightarrow> wf_store (w_store w)"
  by (simp_all add: healthy_world_def)

lemma run_wrap_opt_sql:
  "exec_sql c (w_store w) = (Done, s) \<Longrightarrow>
   run exec_world (wrap_opt fmt (ask (Sql c) scan_done)) w = (Inr None, w\<lparr>w_store := s\<rparr>)"
  by (subst run_wrap_opt [where r = None]) (auto simp: run_sql simp del: run_ask)

lemma run_wrap_err_sql:
  "exec_sql c (w_store w) = (r, s) \<Longrightarrow> scan r = Inr x \<Longrightarrow>
   run exec_world (wrap_err fmt (ask (Sql c) scan)) w = (Inr (Inr x), w\<lparr>w_store := s\<rparr>)"
  by (subst run_wrap_err [where r = "Inr x"]) (auto simp: run_sql simp del: run_ask)

lemma law_read_task:
  assumes "healthy_world w" "t \<in> set (st_tasks (w_store w))"
  shows "run exec_world (pg_get_task (t_id t)) w = (Inr (Inr t), w)"
proof -
  have "exec_sql (Select_Task (t_id t)) (w_store w) = (Row_Task t, w_store w)"
    using assms by (simp add: exec_sql_healthy healthyD with_uuid_def healthy_uuid task_row_in)
  from run_wrap_err_sql [OF this, of scan_task t] show ?thesis by (simp add: pg_get_task_def)
qed

lemma law_read_payload:
  assumes "healthy_world w" "n \<in> set (st_notifs (w_store w))"
  shows "run exec_world (pg_get_payload (n_id n)) w = (Inr (Inr (n_payload n)), w)"
proof -
  have "exec_sql (Select_Payload (n_id n)) (w_store w) = (Row_Payload (n_payload n), w_store w)"
    using assms
    by (simp add: exec_sql_healthy healthyD with_uuid_def healthy_uuid select_notif_def notif_row_in)
  from run_wrap_err_sql [OF this, of scan_payload "n_payload n"] show ?thesis by (simp add: pg_get_payload_def)
qed

lemma healthy_upd_task:
  assumes "healthy_world w" "\<And>x. t_id (f x) = t_id x" "\<And>x. task_key (f x) = task_key x"
    and "\<And>x. t_status x \<in> set task_statuses \<Longrightarrow> t_status (f x) \<in> set task_statuses"
  shows "healthy_world (w\<lparr>w_store := upd_task i f (w_store w)\<rparr>)"
proof (rule healthy_store [OF assms(1)])
  show "wf_store (upd_task i f (w_store w))"
    using assms by (intro wf_upd_task_fields) (auto simp: healthyD)
  show "t_id ` set (st_tasks (upd_task i f (w_store w))) = t_id ` set (st_tasks (w_store w))"
    unfolding upd_task_def by (simp add: ids_upd_where assms(2))
qed (use assms(1) in \<open>simp_all add: upd_task_def healthyD\<close>)

lemma view_upd_task:
  "world_view (w\<lparr>w_store := upd_task i f (w_store w)\<rparr>) =
   (world_view w)\<lparr>dv_tasks := upd_where (\<lambda>x. t_id x = i)
      (\<lambda>x. (f x)\<lparr>t_updated_at := st_now (w_store w)\<rparr>) (dv_tasks (world_view w))\<rparr>"
  by (simp add: world_view_def upd_task_def)

lemma law_write_status:
  assumes "healthy_world w" "t \<in> set (dv_tasks (world_view w))" "st \<in> set task_statuses"
  shows "\<exists>w' u. run exec_world (pg_update_task_status (t_id t) st) w = (Inr None, w') \<and> healthy_world w' \<and>
           world_view w' = (world_view w)\<lparr>dv_tasks := upd_where (\<lambda>x. t_id x = t_id t)
             (\<lambda>x. x\<lparr>t_status := st, t_updated_at := u\<rparr>) (dv_tasks (world_view w))\<rparr>"
proof -
  let ?s = "upd_task (t_id t) (t_status_update (\<lambda>_. st)) (w_store w)"
  have t: "t \<in> set (st_tasks (w_store w))" using assms(2) by (simp add: world_view_def)
  then have "exec_sql (Update_Task_Status (t_id t) st) (w_store w) = (Done, ?s)"
    using assms by (simp add: exec_sql_healthy healthyD with_uuid_def healthy_uuid sql_set_task_status_def task_row_in)
  then have "run exec_world (pg_update_task_status (t_id t) st) w = (Inr None, w\<lparr>w_store := ?s\<rparr>)"
    unfolding pg_update_task_status_def by (rule run_wrap_opt_sql)
  moreover have "healthy_world (w\<lparr>w_store := ?s\<rparr>)"
    using assms by (intro healthy_upd_task) (auto simp: task_key_def)
  ultimately show ?thesis using view_upd_task by fastforce
qed

lemma law_write_retry:
  assumes "healthy_world w" "t \<in> set (dv_tasks (world_view w))" "in_i32 k"
  shows "\<exists>w' u a. run exec_world (pg_update_task_retry (t_id t) k due err) w = (Inr None, w') \<and> healthy_world w' \<and>
           world_view w' = (world_view w)\<lparr>dv_tasks := upd_where (\<lambda>x. t_id x = t_id t)
             (\<lambda>x. x\<lparr>t_retry_count := k, t_next_retry_at := a, t_last_error := err, t_updated_at := u\<rparr>)
             (dv_tasks (world_view w))\<rparr>"
proof -
  let ?f = "\<lambda>t. t\<lparr>t_retry_count := k, t_next_retry_at := Some (due div 1000), t_last_error := err\<rparr>"
  let ?s = "upd_task (t_id t) ?f (w_store w)"
  have "exec_sql (Update_Task_Retry (t_id t) k due err) (w_store w) = (Done, ?s)"
    using assms by (simp add: exec_sql_healthy healthyD with_uuid_def healthy_uuid sql_set_retry_def world_view_def)
  then have "run exec_world (pg_update_task_retry (t_id t) k due err) w = (Inr None, w\<lparr>w_store := ?s\<rparr>)"
    unfolding pg_update_task_retry_def by (rule run_wrap_opt_sql)
  moreover have "healthy_world (w\<lparr>w_store := ?s\<rparr>)"
    using assms(1) by (rule healthy_upd_task) (auto simp: task_key_def)
  ultimately show ?thesis using view_upd_task [of "t_id t" ?f w] by fastforce
qed

lemma law_write_dead:
  assumes "healthy_world w" "t' \<in> set (dv_tasks (world_view w))" "t_id t' = t_id t"
  shows "\<exists>w' u. run exec_world (pg_insert_dead_letter t err) w = (Inr None, w') \<and> healthy_world w' \<and>
           world_view w' = (world_view w)\<lparr>dv_tasks := upd_where (\<lambda>x. t_id x = t_id t)
             (\<lambda>x. x\<lparr>t_status := ''DEAD_LETTER'', t_last_error := err, t_updated_at := u\<rparr>)
             (dv_tasks (world_view w))\<rparr>"
proof -
  let ?f = "\<lambda>t. t\<lparr>t_status := ''DEAD_LETTER'', t_last_error := err\<rparr>"
  let ?s = "upd_task (t_id t) ?f (w_store w)"
  have "st_uuid (w_store w) (t_id t) = Some (t_id t)"
    using healthy_uuid(1) [OF assms(1), of t'] assms by (simp add: world_view_def)
  then have "exec_sql (Update_Dead_Letter (t_id t) err) (w_store w) = (Done, ?s)"
    using assms by (simp add: exec_sql_healthy healthyD with_uuid_def sql_dead_letter_def)
  then have "run exec_world (pg_insert_dead_letter t err) w = (Inr None, w\<lparr>w_store := ?s\<rparr>)"
    unfolding pg_insert_dead_letter_def by (rule run_wrap_opt_sql)
  moreover have "healthy_world (w\<lparr>w_store := ?s\<rparr>)"
    using assms(1) by (rule healthy_upd_task) (auto simp: task_key_def task_statuses_def)
  ultimately show ?thesis using view_upd_task [of "t_id t" ?f w] by fastforce
qed

lemma law_counts:
  assumes "healthy_world w" "nid \<in> n_id ` set (dv_notifs (world_view w))"
    and "ts = filter (\<lambda>t. t_notification_id t = nid) (dv_tasks (world_view w))"
  shows "run exec_world (pg_get_task_counts nid) w =
           (Inr (Inr (int (length ts), count_status ''SUCCEEDED'' ts, count_status ''DEAD_LETTER'' ts)), w)"
proof -
  have "st_uuid (w_store w) nid = Some nid"
    using assms(1,2) by (auto simp: world_view_def healthy_uuid)
  then have "exec_sql (Count_Tasks nid) (w_store w) =
      (Row_Counts (int (length ts)) (count_status ''SUCCEEDED'' ts) (count_status ''DEAD_LETTER'' ts), w_store w)"
    using assms by (simp add: exec_sql_healthy healthyD with_uuid_def sql_count_tasks_def Let_def tasks_of_def
        world_view_def)
  from run_wrap_err_sql [OF this, of scan_counts] show ?thesis by (simp add: pg_get_task_counts_def)
qed

lemma law_write_notif:
  assumes "healthy_world w" "nid \<in> n_id ` set (dv_notifs (world_view w))" "st \<in> set notif_statuses"
  shows "\<exists>w' u. run exec_world (pg_update_notification_status nid st) w = (Inr None, w') \<and> healthy_world w' \<and>
           world_view w' = (world_view w)\<lparr>dv_notifs := upd_where (\<lambda>n. n_id n = nid)
             (\<lambda>n. n\<lparr>n_status := st, n_updated_at := u\<rparr>) (dv_notifs (world_view w))\<rparr>"
proof -
  let ?f = "\<lambda>n. n\<lparr>n_status := st, n_updated_at := st_now (w_store w)\<rparr>"
  let ?s = "(w_store w)\<lparr>st_notifs := upd_where (\<lambda>n. n_id n = nid) ?f (st_notifs (w_store w))\<rparr>"
  from assms(2) have i: "nid \<in> n_id ` set (st_notifs (w_store w))" by (simp add: world_view_def)
  then have "st_uuid (w_store w) nid = Some nid" using assms(1) by (auto simp: healthy_uuid)
  moreover obtain r where "notif_row (w_store w) nid = Some r"
    using i by (cases "notif_row (w_store w) nid") (auto simp: notif_row_None)
  ultimately have "exec_sql (Update_Notification_Status nid st) (w_store w) = (Done, ?s)"
    using assms by (simp add: exec_sql_healthy healthyD with_uuid_def sql_set_notif_status_def)
  then have "run exec_world (pg_update_notification_status nid st) w = (Inr None, w\<lparr>w_store := ?s\<rparr>)"
    unfolding pg_update_notification_status_def by (rule run_wrap_opt_sql)
  moreover have "healthy_world (w\<lparr>w_store := ?s\<rparr>)"
  proof (rule healthy_store [OF assms(1)])
    show "wf_store ?s" using assms by (intro wf_upd_notif) (auto simp: healthyD notif_key_def)
  qed (use assms(1) in \<open>simp_all add: healthyD ids_upd_where\<close>)
  ultimately show ?thesis by (fastforce simp: world_view_def)
qed

lemma law_publish:
  assumes "healthy_world w"
  shows "\<exists>w'. run exec_world (rmq_publish_delayed v i ms) w = (Inr None, w') \<and> healthy_world w' \<and>
           world_view w' = (world_view w)\<lparr>dv_published := dv_published (world_view w) @ [delayed_message v i ms]\<rparr>"
  using assms
  by (auto simp: rmq_publish_delayed_def marshal_delivery delayed_message_def delivery_message_def wrap_opt_def
      run_bind exec_publish_def healthy_world_def world_view_def)

lemma law_http:
  assumes "healthy_world w"
  shows "\<exists>w'. run exec_world (ask (Http_Do req) http_reply) w = (Inr (next_vendor_reply w), w') \<and>
           healthy_world w' \<and>
           world_view w' = (world_view w)\<lparr>dv_requests := dv_requests (world_view w) @ [req]\<rparr>"
  using assms
  by (auto simp: exec_http_def Let_def healthy_world_def world_view_def split: sum.split)

interpretation pg_worker: delivery_env "prod_worker url_ok cfg" exec_world world_view next_vendor_reply
  delayed_message healthy_world for url_ok cfg
proof (unfold_locales, goal_cases)
  case (1 w)
  then show ?case by (simp add: world_view_def healthy_world_def wf_store_def)
next
  case (2 w t)
  then show ?case by (auto simp: world_view_def healthy_world_def wf_store_def)
next
  case (3 w t)
  then show ?case by (simp add: pg_client_def law_read_task world_view_def)
next
  case (4 w n)
  then show ?case by (simp add: pg_client_def law_read_payload world_view_def)
next
  case (5 w t st)
  then show ?case using law_write_status by (simp add: pg_client_def)
next
  case (6 w t k due err)
  then show ?case using law_write_retry by (simp add: pg_client_def)
next
  case (7 w t' t err)
  then show ?case using law_write_dead by (simp add: pg_client_def)
next
  case (8 w nid ts)
  then show ?case using law_counts by (simp add: pg_client_def)
next
  case (9 w nid st)
  then show ?case using law_write_notif by (simp add: pg_client_def)
next
  case (10 w v i ms)
  then show ?case using law_publish by (simp add: rmq_client_def)
next
  case (11 w req)
  then show ?case using law_http by blast
next
  case (12 w)
  then show ?case by auto
next
  case (13 w)
  then show ?case by (auto simp: exec_random_def healthy_world_def world_view_def)
qed

end
