(* ===== verification/Concurrency.thy ===== *)
theory Concurrency
  imports Effects
begin

text \<open>
  Goroutines sharing a world. A system is the world and the programs still running; each step executes
  one call of one of them, starts a new one, or lets the environment act. A program is verified once,
  against an invariant of the world and a guarantee that every step gives (rely and guarantee are the
  same relation, so that any number of programs may run side by side): \<open>rg p P Q\<close>.
\<close>

section \<open>Systems\<close>

record 'w system =
  sy_world :: 'w
  sy_threads :: "unit prog list"

inductive system_step ::
  "'w exec \<Rightarrow> ('w \<Rightarrow> 'w \<Rightarrow> bool) \<Rightarrow> ('w \<Rightarrow> unit prog \<Rightarrow> bool) \<Rightarrow> 'w system \<Rightarrow> 'w system \<Rightarrow> bool"
  for ex env start where
  call: "i < length (sy_threads s) \<Longrightarrow> sy_threads s ! i = Call c k \<Longrightarrow> ex c (sy_world s) = (r, w') \<Longrightarrow>
    system_step ex env start s \<lparr>sy_world = w', sy_threads = (sy_threads s)[i := k r]\<rparr>"
| environment: "env (sy_world s) w' \<Longrightarrow> system_step ex env start s (s\<lparr>sy_world := w'\<rparr>)"
| spawn: "start (sy_world s) p \<Longrightarrow> system_step ex env start s (s\<lparr>sy_threads := sy_threads s @ [p]\<rparr>)"

inductive reachable ::
  "'w exec \<Rightarrow> ('w \<Rightarrow> 'w \<Rightarrow> bool) \<Rightarrow> ('w \<Rightarrow> unit prog \<Rightarrow> bool) \<Rightarrow> 'w \<Rightarrow> 'w system \<Rightarrow> bool"
  for ex env start w0 where
  initial: "reachable ex env start w0 \<lparr>sy_world = w0, sy_threads = []\<rparr>"
| step: "reachable ex env start w0 s \<Longrightarrow> system_step ex env start s s' \<Longrightarrow> reachable ex env start w0 s'"

text \<open>A goroutine that is left alone gets as far as running its program gets.\<close>

lemma reachable_exec:
  assumes "reachable ex env start w0 s" "i < length (sy_threads s)" "sy_threads s ! i = p"
    and "run ex p (sy_world s) = (Inr x, w')"
  shows "\<exists>s'. reachable ex env start w0 s' \<and> sy_world s' = w'"
  using assms
proof (induction p arbitrary: s)
  case (Call c k)
  obtain r w1 where e: "ex c (sy_world s) = (r, w1)" by fastforce
  let ?s = "\<lparr>sy_world = w1, sy_threads = (sy_threads s)[i := k r]\<rparr>"
  have "reachable ex env start w0 ?s"
    using Call.prems(1) by (rule reachable.step) (rule system_step.call [where s = s and i = i and ex = ex and c = c and k = k, OF Call.prems(2,3) e])
  then show ?case using Call.IH [of "k r" ?s] Call.prems e by simp
qed auto

lemma reachable_run:
  assumes "reachable ex env start w0 s" "start (sy_world s) p" "run ex p (sy_world s) = (Inr x, w')"
  shows "\<exists>s'. reachable ex env start w0 s' \<and> sy_world s' = w'"
proof (rule reachable_exec [where i = "length (sy_threads s)"])
  show "reachable ex env start w0 (s\<lparr>sy_threads := sy_threads s @ [p]\<rparr>)"
    using assms(1) spawn [of start s p ex env] assms(2) by (blast intro: reachable.step)
qed (use assms(3) in simp_all)

section \<open>The logic\<close>

locale shared_world =
  fixes ex :: "'w exec"
    and inv :: "'w \<Rightarrow> bool"
    and guar :: "'w \<Rightarrow> 'w \<Rightarrow> bool"
  assumes guar_refl: "guar w w"
begin

definition stable :: "('w \<Rightarrow> bool) \<Rightarrow> bool" where
  "stable P \<longleftrightarrow> (\<forall>w w'. inv w \<longrightarrow> inv w' \<longrightarrow> guar w w' \<longrightarrow> P w \<longrightarrow> P w')"

primrec rg :: "'r prog \<Rightarrow> ('w \<Rightarrow> bool) \<Rightarrow> ('r \<Rightarrow> 'w \<Rightarrow> bool) \<Rightarrow> bool" where
  "rg (Ret x) P Q = (\<forall>w. inv w \<longrightarrow> P w \<longrightarrow> Q x w)"
| "rg (Panic s) P Q = (\<forall>w. inv w \<longrightarrow> \<not> P w)"
| "rg (Call c k) P Q =
     (\<exists>M. (\<forall>r. stable (M r)) \<and>
        (\<forall>w. inv w \<longrightarrow> P w \<longrightarrow> (case ex c w of (r, w') \<Rightarrow> inv w' \<and> guar w w' \<and> M r w')) \<and>
        (\<forall>r. rg (k r) (M r) Q))"

lemma stable_True [simp]: "stable (\<lambda>w. True)"
  by (simp add: stable_def)

lemma stable_const [simp]: "stable (\<lambda>w. b)"
  by (simp add: stable_def)

lemma stable_conj: "stable P \<Longrightarrow> stable Q \<Longrightarrow> stable (\<lambda>w. P w \<and> Q w)"
  by (simp add: stable_def)

lemma rg_conseq:
  "rg p P Q \<Longrightarrow> (\<And>w. inv w \<Longrightarrow> P' w \<Longrightarrow> P w) \<Longrightarrow> (\<And>x w. inv w \<Longrightarrow> Q x w \<Longrightarrow> Q' x w) \<Longrightarrow> rg p P' Q'"
proof (induction p arbitrary: P P')
  case (Call c k)
  then obtain M where M: "\<forall>r. stable (M r)"
    "\<forall>w. inv w \<longrightarrow> P w \<longrightarrow> (case ex c w of (r, w') \<Rightarrow> inv w' \<and> guar w w' \<and> M r w')"
    "\<forall>r. rg (k r) (M r) Q" by auto
  have "rg (k r) (M r) Q'" for r
    using Call.IH [of "k r" "M r" "M r"] M(3) Call.prems(3) by auto
  with M Call.prems(2) show ?case by (auto intro!: exI [of _ M])
qed auto

lemma rg_bind: "rg p P R \<Longrightarrow> (\<And>x. rg (f x) (R x) Q) \<Longrightarrow> rg (bind p f) P Q"
proof (induction p arbitrary: P)
  case (Ret x)
  then show ?case using rg_conseq [of "f x" "R x" Q P Q] by auto
next
  case (Call c k)
  then obtain M where M: "\<forall>r. stable (M r)"
    "\<forall>w. inv w \<longrightarrow> P w \<longrightarrow> (case ex c w of (r, w') \<Rightarrow> inv w' \<and> guar w w' \<and> M r w')"
    "\<forall>r. rg (k r) (M r) R" by auto
  with Call.IH Call.prems(2) show ?case by (auto intro!: exI [of _ M])
qed auto

lemma rg_frame:
  "stable F \<Longrightarrow> rg p P Q \<Longrightarrow> rg p (\<lambda>w. P w \<and> F w) (\<lambda>x w. Q x w \<and> F w)"
proof (induction p arbitrary: P)
  case (Call c k)
  then obtain M where M: "\<forall>r. stable (M r)"
    "\<forall>w. inv w \<longrightarrow> P w \<longrightarrow> (case ex c w of (r, w') \<Rightarrow> inv w' \<and> guar w w' \<and> M r w')"
    "\<forall>r. rg (k r) (M r) Q" by auto
  show ?case unfolding rg.simps
  proof (intro exI [of _ "\<lambda>r w. M r w \<and> F w"] conjI allI impI)
    show "stable (\<lambda>w. M r w \<and> F w)" for r using M(1) Call.prems(1) by (simp add: stable_conj)
    show "case ex c w of (r, w') \<Rightarrow> inv w' \<and> guar w w' \<and> M r w' \<and> F w'" if "inv w" "P w \<and> F w" for w
      using M(2) that Call.prems(1) unfolding stable_def by (auto split: prod.splits)
    show "rg (k r) (\<lambda>w. M r w \<and> F w) (\<lambda>x w. Q x w \<and> F w)" for r
      using Call.IH [of "k r" "M r"] Call.prems(1) M(3) by auto
  qed
qed auto

lemma rg_ask:
  assumes "\<And>x. stable (Q x)"
    and "\<And>w r w'. inv w \<Longrightarrow> P w \<Longrightarrow> ex c w = (r, w') \<Longrightarrow> inv w' \<and> guar w w' \<and> Q (scan r) w'"
  shows "rg (ask c scan) P Q"
  unfolding ask_def rg.simps
  using assms by (intro exI [of _ "\<lambda>r. Q (scan r)"]) (auto split: prod.splits)

lemma rg_try_call:
  "rg p P R \<Longrightarrow> (\<And>e. rg (h e) (R (Inl e)) Q) \<Longrightarrow> (\<And>x. rg (k x) (R (Inr x)) Q) \<Longrightarrow> rg (try_call p h k) P Q"
  unfolding try_call_def by (rule rg_bind) (auto split: sum.split)

lemma rg_check_err:
  "rg p P R \<Longrightarrow> (\<And>e. rg (h e) (R (Some e)) Q) \<Longrightarrow> rg k (R None) Q \<Longrightarrow> rg (check_err p h k) P Q"
  unfolding check_err_def by (rule rg_bind) (auto split: option.split)

lemma rg_wrap_err:
  "rg p P R \<Longrightarrow> (\<And>e w. inv w \<Longrightarrow> R (Inl e) w \<Longrightarrow> Q (Inl (Errorf fmt [ArgErr e])) w) \<Longrightarrow>
   (\<And>x w. inv w \<Longrightarrow> R (Inr x) w \<Longrightarrow> Q (Inr x) w) \<Longrightarrow> rg (wrap_err fmt p) P Q"
  unfolding wrap_err_def
proof (rule rg_bind, assumption)
  fix r
  assume "\<And>e w. inv w \<Longrightarrow> R (Inl e) w \<Longrightarrow> Q (Inl (Errorf fmt [ArgErr e])) w"
    "\<And>x w. inv w \<Longrightarrow> R (Inr x) w \<Longrightarrow> Q (Inr x) w"
  then show "rg (Ret (map_err (\<lambda>e. Errorf fmt [ArgErr e]) r)) (R r) Q" by (cases r) auto
qed

lemma rg_wrap_opt:
  "rg p P R \<Longrightarrow> (\<And>e w. inv w \<Longrightarrow> R (Some e) w \<Longrightarrow> Q (Some (Errorf fmt [ArgErr e])) w) \<Longrightarrow>
   (\<And>w. inv w \<Longrightarrow> R None w \<Longrightarrow> Q None w) \<Longrightarrow> rg (wrap_opt fmt p) P Q"
  unfolding wrap_opt_def
proof (rule rg_bind, assumption)
  fix r
  assume "\<And>e w. inv w \<Longrightarrow> R (Some e) w \<Longrightarrow> Q (Some (Errorf fmt [ArgErr e])) w"
    "\<And>w. inv w \<Longrightarrow> R None w \<Longrightarrow> Q None w"
  then show "rg (Ret (map_option (\<lambda>e. Errorf fmt [ArgErr e]) r)) (R r) Q" by (cases r) auto
qed

text \<open>Nothing runs from an assertion that never holds.\<close>

lemma rg_absurd: "(\<And>w. inv w \<Longrightarrow> \<not> P w) \<Longrightarrow> rg p P Q"
proof (induction p arbitrary: P)
  case (Call c k)
  then show ?case by (auto intro!: exI [of _ "\<lambda>_ _. False"] simp: stable_def)
qed auto

lemma rg_Ret: "(\<And>w. inv w \<Longrightarrow> P w \<Longrightarrow> Q x w) \<Longrightarrow> rg (Ret x) P Q"
  by simp

text \<open>
  The shape of most contracts: \<open>F\<close> is kept, and a call that succeeds adds what it has established.
\<close>

definition gives :: "('w \<Rightarrow> bool) \<Rightarrow> ('a \<Rightarrow> 'w \<Rightarrow> bool) \<Rightarrow> go_error + 'a \<Rightarrow> 'w \<Rightarrow> bool" where
  "gives F K x w \<longleftrightarrow> F w \<and> (\<forall>y. x = Inr y \<longrightarrow> K y w)"

definition clears :: "('w \<Rightarrow> bool) \<Rightarrow> ('w \<Rightarrow> bool) \<Rightarrow> go_error option \<Rightarrow> 'w \<Rightarrow> bool" where
  "clears F K x w \<longleftrightarrow> F w \<and> (x = None \<longrightarrow> K w)"

lemma gives_simps [simp]:
  "gives F K (Inl e) = F" "gives F K (Inr y) = (\<lambda>w. F w \<and> K y w)"
  "clears F L (Some e) = F" "clears F L None = (\<lambda>w. F w \<and> L w)"
  by (simp_all add: gives_def clears_def fun_eq_iff)

lemma rg_gives:
  assumes "rg p F (gives F K)" "\<And>e. rg (h e) F Q" "\<And>y. rg (k y) (\<lambda>w. F w \<and> K y w) Q"
  shows "rg (try_call p h k) F Q"
  using assms by (intro rg_try_call [where R = "gives F K"]) simp_all

lemma rg_clears:
  assumes "rg p F (clears F K)" "\<And>e. rg (h e) F Q" "rg k (\<lambda>w. F w \<and> K w) Q"
  shows "rg (check_err p h k) F Q"
  using assms by (intro rg_check_err [where R = "clears F K"]) simp_all

lemma rg_wrap_gives: "rg p F (gives F K) \<Longrightarrow> rg (wrap_err fmt p) F (gives F K)"
  by (erule rg_wrap_err) simp_all

lemma rg_wrap_clears: "rg p F (clears F K) \<Longrightarrow> rg (wrap_opt fmt p) F (clears F K)"
  by (erule rg_wrap_opt) simp_all

lemma rg_clears_frame: "rg p F (clears F K) \<Longrightarrow> rg p F (\<lambda>_. F)"
  by (erule rg_conseq) (auto simp: clears_def)

lemma rg_gives_frame: "rg p F (gives F K) \<Longrightarrow> rg p F (\<lambda>_. F)"
  by (erule rg_conseq) (auto simp: gives_def)

lemma stable_gives: "stable F \<Longrightarrow> (\<And>y. stable (K y)) \<Longrightarrow> stable (gives F K x)"
  unfolding stable_def gives_def by blast

lemma stable_clears: "stable F \<Longrightarrow> stable K \<Longrightarrow> stable (clears F K x)"
  unfolding stable_def clears_def by blast

lemma rg_wrap_err_frame: "rg p F (\<lambda>_. F) \<Longrightarrow> rg (wrap_err fmt p) F (\<lambda>_. F)"
  by (erule rg_wrap_err) simp_all

lemma rg_wrap_opt_frame: "rg p F (\<lambda>_. F) \<Longrightarrow> rg (wrap_opt fmt p) F (\<lambda>_. F)"
  by (erule rg_wrap_opt) simp_all

lemma rg_try_frame:
  "rg p F (\<lambda>_. F) \<Longrightarrow> (\<And>e. rg (h e) F Q) \<Longrightarrow> (\<And>x. rg (k x) F Q) \<Longrightarrow> rg (try_call p h k) F Q"
  by (rule rg_try_call)

lemma rg_check_frame:
  "rg p F (\<lambda>_. F) \<Longrightarrow> (\<And>e. rg (h e) F Q) \<Longrightarrow> rg k F Q \<Longrightarrow> rg (check_err p h k) F Q"
  by (rule rg_check_err)

lemma rg_done [simp]: "rg (Ret x) P (\<lambda>_ _. True)"
  by simp

lemma rg_seq: "rg p F (\<lambda>_. F) \<Longrightarrow> (\<And>x. rg (f x) F Q) \<Longrightarrow> rg (bind p f) F Q"
  by (rule rg_bind)

section \<open>Soundness\<close>

text \<open>A thread's assertion holds now, survives every other step, and its program is verified from it.\<close>

definition safe_thread :: "'w \<Rightarrow> unit prog \<Rightarrow> bool" where
  "safe_thread w p \<longleftrightarrow> (\<exists>P. stable P \<and> P w \<and> rg p P (\<lambda>_ _. True))"

lemma safe_thread_mono: "inv w \<Longrightarrow> inv w' \<Longrightarrow> guar w w' \<Longrightarrow> safe_thread w p \<Longrightarrow> safe_thread w' p"
  unfolding safe_thread_def stable_def by blast

lemma safe_thread_call:
  assumes "safe_thread w (Call c k)" "inv w" "ex c w = (r, w')"
  shows "inv w' \<and> guar w w' \<and> safe_thread w' (k r)"
proof -
  from assms(1) obtain P where P: "P w" "rg (Call c k) P (\<lambda>_ _. True)" unfolding safe_thread_def by blast
  then obtain M where "\<forall>r. stable (M r)"
    "\<forall>w. inv w \<longrightarrow> P w \<longrightarrow> (case ex c w of (r, w') \<Rightarrow> inv w' \<and> guar w w' \<and> M r w')"
    "\<forall>r. rg (k r) (M r) (\<lambda>_ _. True)" by auto
  with P(1) assms(2,3) show ?thesis unfolding safe_thread_def by fastforce
qed

lemma reachable_safe:
  assumes "inv w0"
    and "\<And>w w'. inv w \<Longrightarrow> env w w' \<Longrightarrow> inv w' \<and> guar w w'"
    and "\<And>w p. inv w \<Longrightarrow> start w p \<Longrightarrow> safe_thread w p"
    and "reachable ex env start w0 s"
  shows "inv (sy_world s) \<and> (\<forall>p \<in> set (sy_threads s). safe_thread (sy_world s) p)"
  using assms(4)
proof (induction rule: reachable.induct)
  case initial
  then show ?case using assms(1) by simp
next
  case (step s s')
  from step.hyps(2) show ?case
  proof (cases rule: system_step.cases)
    case (call i c k r w')
    with step.IH have "safe_thread (sy_world s) (Call c k)" by (metis nth_mem)
    from safe_thread_call [OF this _ call(4)] step.IH
    have n: "inv w'" "guar (sy_world s) w'" "safe_thread w' (k r)" by auto
    moreover have "safe_thread w' p" if "p \<in> set (sy_threads s)" for p
      using safe_thread_mono [OF _ n(1,2)] step.IH that by blast
    ultimately show ?thesis
      using call(1) set_update_subset_insert [of "sy_threads s" i "k r"] by auto
  next
    case (environment w')
    with assms(2) step.IH have n: "inv w'" "guar (sy_world s) w'" by auto
    with environment(1) safe_thread_mono [OF _ n] step.IH show ?thesis by auto
  next
    case (spawn p)
    with assms(3) step.IH show ?thesis by auto
  qed
qed

lemma reachable_step_guar:
  assumes "inv w0"
    and "\<And>w w'. inv w \<Longrightarrow> env w w' \<Longrightarrow> inv w' \<and> guar w w'"
    and "\<And>w p. inv w \<Longrightarrow> start w p \<Longrightarrow> safe_thread w p"
    and "reachable ex env start w0 s" "system_step ex env start s s'"
  shows "guar (sy_world s) (sy_world s')"
proof -
  note safe = reachable_safe [OF assms(1-4)]
  from assms(5) show ?thesis
  proof cases
    case (call i c k r w')
    with safe have "safe_thread (sy_world s) (Call c k)" by (metis nth_mem)
    from safe_thread_call [OF this _ call(4)] safe call(1) show ?thesis by simp
  next
    case (environment w')
    with assms(2) safe show ?thesis by simp
  next
    case (spawn p)
    then show ?thesis using guar_refl by simp
  qed
qed

lemma safe_no_panic: "inv w \<Longrightarrow> safe_thread w (Panic s) \<Longrightarrow> False"
  by (auto simp: safe_thread_def)

end

end
