(* ===== verification/Ingestion.thy ===== *)
theory Ingestion
  imports Validator Postgres Rabbit_MQ
begin

text \<open>
  \<open>internal/ingestion/service.go\<close> and \<open>errors.go\<close>: submitting, reading and listing notifications,
  and the inspection of wrapped errors.
\<close>

record service =
  sv_db :: db_client
  sv_mq :: mq_client
  sv_config :: config_provider

section \<open>Errors\<close>

text \<open>An error and everything it wraps, in the order \<open>errors.As\<close> visits them.\<close>

fun error_chain :: "go_error \<Rightarrow> go_error list"
and arg_chain :: "arg \<Rightarrow> go_error list" where
  "error_chain (Errorf fmt args) = Errorf fmt args # concat (map arg_chain args)"
| "error_chain e = [e]"
| "arg_chain (ArgErr e) = error_chain e"
| "arg_chain _ = []"

fun event_not_found :: "go_error \<Rightarrow> bool" where
  "event_not_found (ErrEventNotFound _) = True"
| "event_not_found _ = False"

fun schema_details :: "go_error \<Rightarrow> (string \<times> string \<times> arg list) list option" where
  "schema_details (ErrSchemaValidation ds) = Some ds"
| "schema_details _ = None"

definition is_err_event_not_found :: "go_error \<Rightarrow> bool" where
  "is_err_event_not_found e = list_ex event_not_found (error_chain e)"

definition is_schema_validation_error :: "go_error \<Rightarrow> bool" where
  "is_schema_validation_error e = list_ex (\<lambda>x. schema_details x \<noteq> None) (error_chain e)"

definition get_schema_validation_details :: "go_error \<Rightarrow> (string \<times> string \<times> arg list) list" where
  "get_schema_validation_details e =
     (case find (\<lambda>x. schema_details x \<noteq> None) (error_chain e) of
        Some x \<Rightarrow> (case schema_details x of Some ds \<Rightarrow> ds | None \<Rightarrow> [])
      | None \<Rightarrow> [])"

section \<open>The service\<close>

definition validation_detail :: "validation_error \<Rightarrow> string \<times> string \<times> arg list" where
  "validation_detail e = (ve_field e, ve_format e, ve_args e)"

definition validate_schema ::
  "service \<Rightarrow> schema_cache \<Rightarrow> string \<Rightarrow> (string, gval) gomap option \<Rightarrow> go_error option \<times> schema_cache" where
  "validate_schema sv cache ev payload =
     (case cp_event_schema (sv_config sv) ev of
        Inl e \<Rightarrow> (Some (ErrEventNotFound ev), cache)
      | Inr schema \<Rightarrow>
          (case validate_map cache schema payload of
             (errs, cache') \<Rightarrow>
               (if errs \<noteq> [] then Some (ErrSchemaValidation (map validation_detail errs)) else None,
                cache')))"

definition get_by_id :: "service \<Rightarrow> string \<Rightarrow> (go_error + notification) prog" where
  "get_by_id sv i = wrap_err ''get notification: %w'' (db_get_notification (sv_db sv) i)"

definition get_delivery_tasks :: "service \<Rightarrow> string \<Rightarrow> (go_error + delivery_task list) prog" where
  "get_delivery_tasks sv i = db_get_tasks (sv_db sv) i"

definition list_service ::
  "service \<Rightarrow> string \<Rightarrow> string \<Rightarrow> int \<Rightarrow> int \<Rightarrow> (go_error + notification list \<times> int) prog" where
  "list_service sv caller ev page psize = db_list_notifications (sv_db sv) caller ev page psize"

text \<open>
  \<open>Submit\<close> after validation. A failed publication is logged only.
\<close>

definition accept :: "service \<Rightarrow> upsert_params \<Rightarrow> (go_error + notification) prog" where
  "accept sv p =
     try_call (db_upsert_notification (sv_db sv) p)
       (\<lambda>e. Ret (Inl (Errorf ''upsert notification: %w'' [ArgErr e])))
       (\<lambda>(i, is_new).
          if is_new then bind (mq_publish_trigger (sv_mq sv) i) (\<lambda>_. get_by_id sv i)
          else get_by_id sv i)"

definition submit ::
  "service \<Rightarrow> schema_cache \<Rightarrow> upsert_params \<Rightarrow> (go_error + notification) prog \<times> schema_cache" where
  "submit sv cache p =
     (case validate_schema sv cache (up_event_type p) (up_payload p) of
        (Some e, cache') \<Rightarrow> (Ret (Inl e), cache')
      | (None, cache') \<Rightarrow> (accept sv p, cache'))"

end
