(* ===== verification/Api_Handler.thy ===== *)
theory Api_Handler
  imports Ingestion "HOL-Library.Signed_Division"
begin

text \<open>
  \<open>internal/api/handler/ingestion.go\<close>: the three HTTP handlers. A response is its status and its
  JSON body. Where the request is not in the source, it is an argument: the body bytes, the path
  parameter, the query parameters; so are the random bytes of a generated key, and the texts of
  times and errors.
\<close>

section \<open>Responses\<close>

record api_response =
  ar_status :: int
  ar_body :: gval

record api_env =
  ae_time_text :: "int \<Rightarrow> string"
  ae_error_text :: "last_error \<Rightarrow> string"
  ae_message_text :: "string \<Rightarrow> arg list \<Rightarrow> string"

text \<open>The messages, in UTF-8.\<close>

definition msg_bad_body :: string where
  "msg_bad_body =
     [CHR 0xE8, CHR 0xAF, CHR 0xB7, CHR 0xE6, CHR 0xB1, CHR 0x82, CHR 0xE4, CHR 0xBD,
     CHR 0x93, CHR 0xE6, CHR 0xA0, CHR 0xBC, CHR 0xE5, CHR 0xBC, CHR 0x8F, CHR 0xE9, CHR 0x94,
     CHR 0x99, CHR 0xE8, CHR 0xAF, CHR 0xAF]"

definition msg_illegal_body :: string where
  "msg_illegal_body =
     [CHR 0xE8, CHR 0xAF, CHR 0xB7, CHR 0xE6, CHR 0xB1, CHR 0x82, CHR 0xE4, CHR 0xBD,
     CHR 0x93, CHR 0xE4, CHR 0xB8, CHR 0x8D, CHR 0xE5, CHR 0x90, CHR 0x88, CHR 0xE6, CHR 0xB3,
     CHR 0x95]"

definition msg_event_empty :: string where
  "msg_event_empty =
     [CHR 0x65, CHR 0x76, CHR 0x65, CHR 0x6E, CHR 0x74, CHR 0x20, CHR 0xE4, CHR 0xB8,
     CHR 0x8D, CHR 0xE8, CHR 0x83, CHR 0xBD, CHR 0xE4, CHR 0xB8, CHR 0xBA, CHR 0xE7, CHR 0xA9,
     CHR 0xBA]"

definition msg_event_unknown :: string where
  "msg_event_unknown =
     [CHR 0xE4, CHR 0xBA, CHR 0x8B, CHR 0xE4, CHR 0xBB, CHR 0xB6, CHR 0xE7, CHR 0xB1,
     CHR 0xBB, CHR 0xE5, CHR 0x9E, CHR 0x8B, CHR 0xE6, CHR 0x9C, CHR 0xAA, CHR 0xE6, CHR 0xB3,
     CHR 0xA8, CHR 0xE5, CHR 0x86, CHR 0x8C]"

definition msg_payload_invalid :: string where
  "msg_payload_invalid =
     [CHR 0x70, CHR 0x61, CHR 0x79, CHR 0x6C, CHR 0x6F, CHR 0x61, CHR 0x64, CHR 0x20,
     CHR 0xE6, CHR 0xA0, CHR 0xA1, CHR 0xE9, CHR 0xAA, CHR 0x8C, CHR 0xE5, CHR 0xA4, CHR 0xB1,
     CHR 0xE8, CHR 0xB4, CHR 0xA5]"

definition msg_unavailable :: string where
  "msg_unavailable =
     [CHR 0xE6, CHR 0x9C, CHR 0x8D, CHR 0xE5, CHR 0x8A, CHR 0xA1, CHR 0xE6, CHR 0x9A,
     CHR 0x82, CHR 0xE6, CHR 0x97, CHR 0xB6, CHR 0xE4, CHR 0xB8, CHR 0x8D, CHR 0xE5, CHR 0x8F,
     CHR 0xAF, CHR 0xE7, CHR 0x94, CHR 0xA8]"

definition msg_no_id :: string where
  "msg_no_id =
     [CHR 0xE7, CHR 0xBC, CHR 0xBA, CHR 0xE5, CHR 0xB0, CHR 0x91, CHR 0x20, CHR 0x69, CHR 0x64]"

definition msg_not_found :: string where
  "msg_not_found =
     [CHR 0xE9, CHR 0x80, CHR 0x9A, CHR 0xE7, CHR 0x9F, CHR 0xA5, CHR 0xE4, CHR 0xB8,
     CHR 0x8D, CHR 0xE5, CHR 0xAD, CHR 0x98, CHR 0xE5, CHR 0x9C, CHR 0xA8]"

definition write_error :: "int \<Rightarrow> string \<Rightarrow> string \<Rightarrow> api_response" where
  "write_error status code message =
     \<lparr>ar_status = status,
      ar_body = VMap [(''error'', VMap [(''code'', VStr code), (''message'', VStr message)])]\<rparr>"

definition write_error_with_details ::
  "int \<Rightarrow> string \<Rightarrow> string \<Rightarrow> gval \<Rightarrow> api_response" where
  "write_error_with_details status code message details =
     \<lparr>ar_status = status,
      ar_body = VMap [(''error'', VMap [(''code'', VStr code), (''message'', VStr message),
                                        (''details'', details)])]\<rparr>"

definition detail_value :: "api_env \<Rightarrow> string \<times> string \<times> arg list \<Rightarrow> gval" where
  "detail_value env d =
     (case d of (field, fmt, args) \<Rightarrow>
        VMap [(''field'', VStr field), (''error'', VStr (ae_message_text env fmt args))])"

section \<open>\<open>Ingest\<close>\<close>

text \<open>The anonymous request struct and its decoding.\<close>

record ingest_request =
  ir_event :: string
  ir_key :: string
  ir_payload :: "(string, gval) gomap option"

fun decode_ingest_fields :: "(string \<times> json) list \<Rightarrow> ingest_request \<Rightarrow> ingest_request option" where
  "decode_ingest_fields [] r = Some r"
| "decode_ingest_fields ((k, v) # ms) r =
     (if field_is ''event'' k then
        (case json_into_string (ir_event r) v of
           None \<Rightarrow> None | Some x \<Rightarrow> decode_ingest_fields ms (r\<lparr>ir_event := x\<rparr>))
      else if field_is ''idempotent_key'' k then
        (case json_into_string (ir_key r) v of
           None \<Rightarrow> None | Some x \<Rightarrow> decode_ingest_fields ms (r\<lparr>ir_key := x\<rparr>))
      else if field_is ''payload'' k then
        (case json_into_map (ir_payload r) v of
           None \<Rightarrow> None | Some x \<Rightarrow> decode_ingest_fields ms (r\<lparr>ir_payload := x\<rparr>))
      else decode_ingest_fields ms r)"

definition empty_request :: ingest_request where
  "empty_request = \<lparr>ir_event = [], ir_key = [], ir_payload = None\<rparr>"

definition decode_ingest :: "string \<Rightarrow> ingest_request option" where
  "decode_ingest body =
     (case json_first body of
        Some (JObj ms) \<Rightarrow> decode_ingest_fields ms empty_request
      | Some JNull \<Rightarrow> Some empty_request
      | _ \<Rightarrow> None)"

definition random_hex :: "string \<Rightarrow> string" where
  "random_hex bs =
     concat (map (\<lambda>c. [hex_digit ((of_char c :: nat) div 16), hex_digit ((of_char c :: nat) mod 16)]) bs)"

definition submit_error_response :: "api_env \<Rightarrow> go_error \<Rightarrow> api_response" where
  "submit_error_response env e =
     (if is_err_event_not_found e then write_error 422 ''EVENT_NOT_FOUND'' msg_event_unknown
      else if is_schema_validation_error e then
        write_error_with_details 422 ''SCHEMA_VALIDATION_FAILED'' msg_payload_invalid
          (VList (map (detail_value env) (get_schema_validation_details e)))
      else write_error 503 ''SERVICE_UNAVAILABLE'' msg_unavailable)"

definition accepted_response :: "api_env \<Rightarrow> notification \<Rightarrow> api_response" where
  "accepted_response env n =
     \<lparr>ar_status = 202,
      ar_body = VMap [(''data'', VMap [(''notification_id'', VStr (n_id n)),
                                       (''status'', VStr (n_status n)),
                                       (''created_at'', VStr (ae_time_text env (n_created_at n)))])]\<rparr>"

definition ingest_params :: "string \<Rightarrow> ingest_request \<Rightarrow> upsert_params" where
  "ingest_params random_bytes r =
     \<lparr>up_caller_id = ''system'', up_event_type = ir_event r,
      up_idempotent_key = (if ir_key r = [] then random_hex random_bytes else ir_key r),
      up_payload = Some (case ir_payload r of None \<Rightarrow> [] | Some m \<Rightarrow> m)\<rparr>"

definition ingest ::
  "service \<Rightarrow> api_env \<Rightarrow> string \<Rightarrow> schema_cache \<Rightarrow> string \<Rightarrow> api_response prog \<times> schema_cache" where
  "ingest sv env random_bytes cache body =
     (case decode_ingest body of
        None \<Rightarrow> (Ret (write_error 400 ''INVALID_REQUEST'' msg_bad_body), cache)
      | Some r \<Rightarrow>
          if ir_event r = [] \<and> ir_payload r = None
          then (Ret (write_error 400 ''INVALID_REQUEST'' msg_illegal_body), cache)
          else if ir_event r = []
          then (Ret (write_error 400 ''INVALID_REQUEST'' msg_event_empty), cache)
          else (case submit sv cache (ingest_params random_bytes r) of
                  (p, cache') \<Rightarrow>
                    (bind p (\<lambda>res. Ret (case res of
                       Inl e \<Rightarrow> submit_error_response env e
                     | Inr n \<Rightarrow> accepted_response env n)), cache')))"

section \<open>\<open>GetStatus\<close>\<close>

definition delivery_result :: "api_env \<Rightarrow> delivery_task \<Rightarrow> gval" where
  "delivery_result env t =
     VMap [(''vendor_id'', VStr (t_vendor_id t)), (''status'', VStr (t_status t)),
           (''retry_count'', VInt (t_retry_count t)),
           (''last_error'', VStr (ae_error_text env (t_last_error t))),
           (''event'', VStr (t_event_type t)),
           (''updated_at'', VStr (ae_time_text env (t_updated_at t)))]"

definition status_response :: "api_env \<Rightarrow> notification \<Rightarrow> delivery_task list \<Rightarrow> api_response" where
  "status_response env n tasks =
     \<lparr>ar_status = 200,
      ar_body = VMap [(''data'', VMap
        [(''notification_id'', VStr (n_id n)), (''caller_id'', VStr (n_caller_id n)),
         (''event'', VStr (n_event_type n)), (''status'', VStr (n_status n)),
         (''payload'', map_value (n_payload n)),
         (''delivery_results'', VList (map (delivery_result env) tasks)),
         (''created_at'', VStr (ae_time_text env (n_created_at n))),
         (''updated_at'', VStr (ae_time_text env (n_updated_at n)))])]\<rparr>"

definition get_status :: "service \<Rightarrow> api_env \<Rightarrow> string \<Rightarrow> api_response prog" where
  "get_status sv env i =
     (if i = [] then Ret (write_error 400 ''INVALID_REQUEST'' msg_no_id)
      else try_call (get_by_id sv i)
        (\<lambda>e. Ret (write_error 404 ''NOT_FOUND'' msg_not_found))
        (\<lambda>n. bind (get_delivery_tasks sv (n_id n))
           (\<lambda>r. Ret (status_response env n (case r of Inl e \<Rightarrow> [] | Inr ts \<Rightarrow> ts)))))"

section \<open>\<open>List\<close>\<close>

text \<open>
  The value \<open>strconv.Atoi\<close> returns beside its error, which the handler drops: 0 for a text that is
  no number, the nearest \<open>int\<close> for a number out of range.
\<close>

definition atoi_value :: "string \<Rightarrow> int" where
  "atoi_value s =
     (let (neg, ds) = (case s of
            c # cs \<Rightarrow> if c = CHR ''-'' then (True, cs) else if c = CHR ''+'' then (False, cs) else (False, s)
          | [] \<Rightarrow> (False, []))
      in if ds = [] then 0
         else case read_digits 0 ds of
           None \<Rightarrow> 0
         | Some n \<Rightarrow> if neg then max min_i64 (- n) else min max_i64 n)"

definition list_item :: "api_env \<Rightarrow> notification \<Rightarrow> gval" where
  "list_item env n =
     VMap [(''notification_id'', VStr (n_id n)), (''caller_id'', VStr (n_caller_id n)),
           (''event'', VStr (n_event_type n)), (''status'', VStr (n_status n)),
           (''created_at'', VStr (ae_time_text env (n_created_at n))),
           (''updated_at'', VStr (ae_time_text env (n_updated_at n)))]"

text \<open>The number of pages; an integer division by zero panics.\<close>

definition total_pages :: "int \<Rightarrow> int \<Rightarrow> int prog" where
  "total_pages cnt psize =
     (if psize = 0 then Panic ''integer divide by zero''
      else let n = w64 (w64 (cnt + psize) - 1) sdiv psize in Ret (if n < 1 then 1 else n))"

definition list_response ::
  "api_env \<Rightarrow> notification list \<Rightarrow> int \<Rightarrow> int \<Rightarrow> int \<Rightarrow> int \<Rightarrow> api_response" where
  "list_response env ns cnt page psize pages =
     \<lparr>ar_status = 200,
      ar_body = VMap [(''data'', VMap
        [(''items'', VList (map (list_item env) ns)), (''total'', VInt cnt), (''page'', VInt page),
         (''page_size'', VInt psize), (''total_pages'', VInt pages)])]\<rparr>"

definition list_notifications ::
  "service \<Rightarrow> api_env \<Rightarrow> string \<Rightarrow> string \<Rightarrow> string \<Rightarrow> string \<Rightarrow> api_response prog" where
  "list_notifications sv env caller ev page_text size_text =
     (let page = (let n = atoi_value page_text in if n < 1 then 1 else n);
          psize = (let n = atoi_value size_text; m = (if n \<le> 0 then 20 else n)
                   in if m > 100 then 100 else m)
      in try_call (list_service sv caller ev page psize)
           (\<lambda>e. Ret (write_error 500 ''SERVICE_UNAVAILABLE'' msg_unavailable))
           (\<lambda>(ns, cnt). bind (total_pages cnt psize) (\<lambda>pages. Ret (list_response env ns cnt page psize pages))))"

end
