(* ===== verification/System.thy ===== *)
theory System
  imports World Concurrency Api_Handler
begin

text \<open>
  The running service: HTTP handlers, dispatchers and workers interleave at every statement, publication
  and request, over a database, a broker and vendors that may fail at any of them. A published message may
  be delivered any number of times, or never. This theory states the invariant of the world and the facts
  that no step of any goroutine takes back, and gives them as an instance of \<open>shared_world\<close>.
\<close>

section \<open>What no step takes back\<close>

definition same_notif :: "notification \<Rightarrow> notification \<Rightarrow> bool" where
  "same_notif n n' \<longleftrightarrow>
     n_id n' = n_id n \<and> n_caller_id n' = n_caller_id n \<and> n_idempotent_key n' = n_idempotent_key n \<and>
     n_event_type n' = n_event_type n \<and> n_payload n' = n_payload n \<and>
     (n_status n \<noteq> ''PENDING'' \<longrightarrow> n_status n' \<noteq> ''PENDING'')"

definition same_task :: "delivery_task \<Rightarrow> delivery_task \<Rightarrow> bool" where
  "same_task t t' \<longleftrightarrow>
     t_id t' = t_id t \<and> t_notification_id t' = t_notification_id t \<and>
     t_event_type t' = t_event_type t \<and> t_vendor_id t' = t_vendor_id t"

definition evolves :: "world \<Rightarrow> world \<Rightarrow> bool" where
  "evolves w w' \<longleftrightarrow>
     (\<forall>i n. notif_row (w_store w) i = Some n \<longrightarrow> (\<exists>n'. notif_row (w_store w') i = Some n' \<and> same_notif n n')) \<and>
     (\<forall>i t. task_row (w_store w) i = Some t \<longrightarrow> (\<exists>t'. task_row (w_store w') i = Some t' \<and> same_task t t')) \<and>
     set (w_published w) \<subseteq> set (w_published w') \<and> set (w_requests w) \<subseteq> set (w_requests w') \<and>
     st_uuid (w_store w') = st_uuid (w_store w) \<and> st_ids (w_store w') = st_ids (w_store w)"

lemma same_notif_refl [simp]: "same_notif n n"
  by (simp add: same_notif_def)

lemma same_task_refl [simp]: "same_task t t"
  by (simp add: same_task_def)

lemma evolves_refl [simp]: "evolves w w"
  by (simp add: evolves_def)

lemma evolvesD:
  "evolves w w' \<Longrightarrow> notif_row (w_store w) i = Some n \<Longrightarrow>
     \<exists>n'. notif_row (w_store w') i = Some n' \<and> same_notif n n'"
  "evolves w w' \<Longrightarrow> task_row (w_store w) i = Some t \<Longrightarrow>
     \<exists>t'. task_row (w_store w') i = Some t' \<and> same_task t t'"
  "evolves w w' \<Longrightarrow> p \<in> set (w_published w) \<Longrightarrow> p \<in> set (w_published w')"
  "evolves w w' \<Longrightarrow> r \<in> set (w_requests w) \<Longrightarrow> r \<in> set (w_requests w')"
  "evolves w w' \<Longrightarrow> st_uuid (w_store w') = st_uuid (w_store w)"
  "evolves w w' \<Longrightarrow> st_ids (w_store w') = st_ids (w_store w)"
  unfolding evolves_def by blast+

lemma same_notif_trans: "same_notif a b \<Longrightarrow> same_notif b c \<Longrightarrow> same_notif a c"
  by (simp add: same_notif_def)

lemma same_task_trans: "same_task a b \<Longrightarrow> same_task b c \<Longrightarrow> same_task a c"
  by (simp add: same_task_def)

lemma evolves_trans:
  assumes "evolves a b" "evolves b c"
  shows "evolves a c"
  unfolding evolves_def
proof (intro conjI allI impI subsetI)
  fix i n
  assume "notif_row (w_store a) i = Some n"
  with assms evolvesD(1) same_notif_trans show "\<exists>n'. notif_row (w_store c) i = Some n' \<and> same_notif n n'"
    by metis
next
  fix i t
  assume "task_row (w_store a) i = Some t"
  with assms evolvesD(2) same_task_trans show "\<exists>t'. task_row (w_store c) i = Some t' \<and> same_task t t'"
    by metis
qed (use assms in \<open>auto dest: evolvesD(3,4) simp: evolvesD(5,6)\<close>)

section \<open>The invariant\<close>

text \<open>A task that may be worked on: its notification has left \<open>PENDING\<close>.\<close>

definition open_task :: "world \<Rightarrow> string \<Rightarrow> bool" where
  "open_task w i \<longleftrightarrow>
     (\<exists>t n. task_row (w_store w) i = Some t \<and> notif_row (w_store w) (t_notification_id t) = Some n \<and>
        n_status n \<noteq> ''PENDING'')"

definition sound_message :: "world \<Rightarrow> string \<times> string \<times> publishing \<Rightarrow> bool" where
  "sound_message w p \<longleftrightarrow>
     (case p of (e, k, m) \<Rightarrow>
        (e = trigger_exchange \<longrightarrow> notif_row (w_store w) (pb_body m) \<noteq> None) \<and>
        (e = delivery_exchange \<or> e = dlx_exchange \<longrightarrow>
           (\<exists>i v. decode_delivery (pb_body m) = Some (i, v) \<and> open_task w i)))"

text \<open>The request the configuration gives for a task.\<close>

definition request_for ::
  "config_provider \<Rightarrow> (string \<Rightarrow> bool) \<Rightarrow> world \<Rightarrow> delivery_task \<Rightarrow> http_request \<Rightarrow> bool" where
  "request_for cfg url_ok w t req \<longleftrightarrow>
     (\<exists>n vc spec. notif_row (w_store w) (t_notification_id t) = Some n \<and>
        cp_vendor_config cfg (t_vendor_id t) = Inr (Some vc) \<and>
        cp_delivery_spec cfg (t_vendor_id t) (t_event_type t) = Ret (Inr (Some spec)) \<and>
        build_request url_ok (Some vc) (Some (ds_mapping spec)) (n_payload n) = Inr (Some req))"

definition delivered :: "config_provider \<Rightarrow> (string \<Rightarrow> bool) \<Rightarrow> world \<Rightarrow> delivery_task \<Rightarrow> bool" where
  "delivered cfg url_ok w t \<longleftrightarrow>
     (\<exists>req code status. (req, Inr (code, status)) \<in> set (w_requests w) \<and> is_http_success code \<and>
        request_for cfg url_ok w t req)"

definition retries_ok :: "config_provider \<Rightarrow> delivery_task \<Rightarrow> bool" where
  "retries_ok cfg t \<longleftrightarrow>
     0 \<le> t_retry_count t \<and>
     (t_retry_count t = 0 \<or>
      (\<exists>vc spec. cp_vendor_config cfg (t_vendor_id t) = Inr (Some vc) \<and>
         cp_delivery_spec cfg (t_vendor_id t) (t_event_type t) = Ret (Inr (Some spec)) \<and>
         t_retry_count t < rp_max_attempts (effective_policy vc spec)))"

definition untouched :: "world \<Rightarrow> delivery_task \<Rightarrow> bool" where
  "untouched w t \<longleftrightarrow>
     (\<forall>n. notif_row (w_store w) (t_notification_id t) = Some n \<longrightarrow> n_status n = ''PENDING'' \<longrightarrow>
        t_status t = ''PENDING'' \<and> t_retry_count t = 0)"

definition task_ok :: "config_provider \<Rightarrow> (string \<Rightarrow> bool) \<Rightarrow> world \<Rightarrow> delivery_task \<Rightarrow> bool" where
  "task_ok cfg url_ok w t \<longleftrightarrow>
     retries_ok cfg t \<and> untouched w t \<and> (t_status t = ''SUCCEEDED'' \<longrightarrow> delivered cfg url_ok w t) \<and>
     ascii (t_id t) \<and> ascii (t_vendor_id t)"

text \<open>
  What the service relies on: generated identifiers are ASCII and read back as themselves, and the vendor
  identifiers of the routing rules are ASCII. The getters of the configuration return a value or an error.
\<close>

definition ids_ok :: "store \<Rightarrow> bool" where
  "ids_ok s \<longleftrightarrow> (\<forall>k. st_uuid s (st_ids s k) = Some (st_ids s k) \<and> ascii (st_ids s k))"

definition ascii_vendors :: "config_provider \<Rightarrow> bool" where
  "ascii_vendors cfg \<longleftrightarrow>
     (\<forall>ev rules. cp_routing_rules cfg ev = Inr rules \<longrightarrow> (\<forall>r \<in> set rules. ascii (rl_vendor_id r)))"

definition sys_inv :: "config_provider \<Rightarrow> (string \<Rightarrow> bool) \<Rightarrow> world \<Rightarrow> bool" where
  "sys_inv cfg url_ok w \<longleftrightarrow>
     wf_store (w_store w) \<and> ids_ok (w_store w) \<and> uuid_ok (w_store w) \<and> ascii_vendors cfg \<and> config_total cfg \<and>
     (\<forall>t \<in> set (st_tasks (w_store w)). task_ok cfg url_ok w t) \<and>
     (\<forall>p \<in> set (w_published w). sound_message w p)"

interpretation sys: shared_world exec_world "sys_inv cfg url_ok" evolves for cfg url_ok
  by unfold_locales simp

abbreviation sys_rg ::
  "config_provider \<Rightarrow> (string \<Rightarrow> bool) \<Rightarrow> 'r prog \<Rightarrow> (world \<Rightarrow> bool) \<Rightarrow> ('r \<Rightarrow> world \<Rightarrow> bool) \<Rightarrow> bool" where
  "sys_rg cfg url_ok \<equiv> shared_world.rg exec_world (sys_inv cfg url_ok) evolves"

abbreviation sys_stable :: "config_provider \<Rightarrow> (string \<Rightarrow> bool) \<Rightarrow> (world \<Rightarrow> bool) \<Rightarrow> bool" where
  "sys_stable cfg url_ok \<equiv> shared_world.stable (sys_inv cfg url_ok) evolves"

section \<open>Facts that persist\<close>

lemma open_task_mono:
  assumes "evolves w w'" "open_task w i"
  shows "open_task w' i"
proof -
  from assms(2) obtain t n where t: "task_row (w_store w) i = Some t"
    and n: "notif_row (w_store w) (t_notification_id t) = Some n" and s: "n_status n \<noteq> ''PENDING''"
    unfolding open_task_def by blast
  from evolvesD(2) [OF assms(1) t] obtain t' where
    "task_row (w_store w') i = Some t'" "t_notification_id t' = t_notification_id t"
    unfolding same_task_def by blast
  moreover from evolvesD(1) [OF assms(1) n] s obtain n' where
    "notif_row (w_store w') (t_notification_id t) = Some n'" "n_status n' \<noteq> ''PENDING''"
    unfolding same_notif_def by blast
  ultimately show ?thesis unfolding open_task_def by auto
qed

lemma sound_message_mono:
  assumes "evolves w w'" "sound_message w p"
  shows "sound_message w' p"
proof -
  obtain e k m where p: "p = (e, k, m)" by (cases p)
  have "notif_row (w_store w') i \<noteq> None" if "notif_row (w_store w) i \<noteq> None" for i
    using evolvesD(1) [OF assms(1), of i] that by auto
  with assms(2) open_task_mono [OF assms(1)] show ?thesis
    unfolding sound_message_def p by blast
qed

lemma request_for_mono:
  assumes "evolves w w'" "request_for cfg url_ok w t req"
  shows "request_for cfg url_ok w' t req"
proof -
  from assms(2) obtain n vc spec where n: "notif_row (w_store w) (t_notification_id t) = Some n"
    and r: "cp_vendor_config cfg (t_vendor_id t) = Inr (Some vc)"
      "cp_delivery_spec cfg (t_vendor_id t) (t_event_type t) = Ret (Inr (Some spec))"
      "build_request url_ok (Some vc) (Some (ds_mapping spec)) (n_payload n) = Inr (Some req)"
    unfolding request_for_def by blast
  from evolvesD(1) [OF assms(1) n] obtain n' where
    "notif_row (w_store w') (t_notification_id t) = Some n'" "n_payload n' = n_payload n"
    unfolding same_notif_def by blast
  with r show ?thesis unfolding request_for_def by auto
qed

lemma delivered_mono:
  assumes "evolves w w'" "delivered cfg url_ok w t"
  shows "delivered cfg url_ok w' t"
  using assms(2) request_for_mono [OF assms(1)] evolvesD(4) [OF assms(1)]
  unfolding delivered_def by blast

lemma untouched_mono:
  assumes "notif_row (w_store w) (t_notification_id t) \<noteq> None" "evolves w w'" "untouched w t"
  shows "untouched w' t"
proof -
  from assms(1) obtain n where "notif_row (w_store w) (t_notification_id t) = Some n" by blast
  with assms(3) evolvesD(1) [OF assms(2), of "t_notification_id t"] show ?thesis
    unfolding untouched_def same_notif_def by fastforce
qed

lemma task_ok_mono:
  "notif_row (w_store w) (t_notification_id t) \<noteq> None \<Longrightarrow> evolves w w' \<Longrightarrow>
   task_ok cfg url_ok w t \<Longrightarrow> task_ok cfg url_ok w' t"
  unfolding task_ok_def using untouched_mono delivered_mono by blast

lemma task_has_notif:
  "wf_store s \<Longrightarrow> t \<in> set (st_tasks s) \<Longrightarrow> notif_row s (t_notification_id t) \<noteq> None"
  by (auto simp: wf_store_def notif_row_None)

text \<open>To re-establish the invariant it is enough to look at the tasks and messages that are new or changed.\<close>

lemma sys_inv_step:
  assumes "sys_inv cfg url_ok w" "evolves w w'" "wf_store (w_store w')" "uuid_ok (w_store w')"
    and "\<And>t. t \<in> set (st_tasks (w_store w')) \<Longrightarrow> t \<notin> set (st_tasks (w_store w)) \<Longrightarrow> task_ok cfg url_ok w' t"
    and "\<And>p. p \<in> set (w_published w') \<Longrightarrow> p \<notin> set (w_published w) \<Longrightarrow> sound_message w' p"
  shows "sys_inv cfg url_ok w'"
proof -
  have "ids_ok (w_store w')"
    using assms(1) evolvesD(5,6) [OF assms(2)] by (simp add: sys_inv_def ids_ok_def)
  moreover have "task_ok cfg url_ok w' t" if "t \<in> set (st_tasks (w_store w'))" for t
    using assms(1,2,5) that task_ok_mono task_has_notif unfolding sys_inv_def by blast
  moreover have "sound_message w' p" if "p \<in> set (w_published w')" for p
    using assms(1,2,6) that sound_message_mono unfolding sys_inv_def by blast
  ultimately show ?thesis using assms(1,3,4) by (simp add: sys_inv_def)
qed

end
