(* ===== verification/System_Steps.thy ===== *)
theory System_Steps
  imports System
begin

text \<open>
  Every statement, publication and request of the service keeps the system's invariant; each client method
  gets the triple its callers use.
\<close>

section \<open>Changing rows\<close>

lemma utf8_split_append: "utf8_split n s = (a, b) \<Longrightarrow> s = a @ b"
  by (induction n s arbitrary: a b rule: utf8_split.induct) (auto split: if_splits prod.splits)

lemma ascii_varchar: "ascii s \<Longrightarrow> varchar n s = Some t \<Longrightarrow> ascii t"
  by (auto simp: varchar_def ascii_def split: prod.splits if_splits dest: utf8_split_append)

lemma notif_row_upd:
  "(\<And>n. n_id (f n) = n_id n) \<Longrightarrow>
   notif_row (s\<lparr>st_notifs := upd_where P f (st_notifs s)\<rparr>) i =
   map_option (\<lambda>n. if P n then f n else n) (notif_row s i)"
  unfolding notif_row_def by (simp add: find_upd_where)

lemma task_row_upd:
  "(\<And>t. t_id (f t) = t_id t) \<Longrightarrow>
   task_row (upd_task j f s) i =
   map_option (\<lambda>t. if t_id t = j then (f t)\<lparr>t_updated_at := st_now s\<rparr> else t) (task_row s i)"
  unfolding task_row_def upd_task_def by (simp add: find_upd_where)

lemma row_frame [simp]:
  "notif_row (upd_task j f s) i = notif_row s i"
  "task_row (s\<lparr>st_notifs := ns\<rparr>) i = task_row s i"
  "notif_row (s\<lparr>st_tasks := ts\<rparr>) i = notif_row s i"
  "notif_row (s\<lparr>st_faults := fs\<rparr>) i = notif_row s i" "task_row (s\<lparr>st_faults := fs\<rparr>) i = task_row s i"
  "notif_row (s\<lparr>st_drawn := k\<rparr>) i = notif_row s i" "task_row (s\<lparr>st_drawn := k\<rparr>) i = task_row s i"
  "notif_row (s\<lparr>st_now := k'\<rparr>) i = notif_row s i" "task_row (s\<lparr>st_now := k'\<rparr>) i = task_row s i"
  by (simp_all add: notif_row_def task_row_def upd_task_def)

lemma evolves_upd_task:
  "(\<And>t. same_task t (f t)) \<Longrightarrow> evolves w (w\<lparr>w_store := upd_task i f (w_store w)\<rparr>)"
  by (auto simp: evolves_def task_row_upd same_task_def) (auto simp: upd_task_def)

lemma evolves_upd_notif:
  "(\<And>n. same_notif n (f n)) \<Longrightarrow>
   evolves w (w\<lparr>w_store := (w_store w)\<lparr>st_notifs := upd_where P f (st_notifs (w_store w))\<rparr>\<rparr>)"
  by (auto simp: evolves_def notif_row_upd same_notif_def)

lemma uuid_ok_upd_task:
  "uuid_ok s \<Longrightarrow> (\<And>t. t_id (f t) = t_id t) \<Longrightarrow> uuid_ok (upd_task i f s)"
  by (auto simp: uuid_ok_def upd_task_def upd_where_set)

lemma uuid_ok_upd_notif:
  "uuid_ok s \<Longrightarrow> (\<And>n. n_id (f n) = n_id n) \<Longrightarrow> uuid_ok (s\<lparr>st_notifs := upd_where P f (st_notifs s)\<rparr>)"
  by (auto simp: uuid_ok_def upd_where_set)

lemma sys_invD:
  "sys_inv cfg url_ok w \<Longrightarrow> wf_store (w_store w)"
  "sys_inv cfg url_ok w \<Longrightarrow> ids_ok (w_store w)"
  "sys_inv cfg url_ok w \<Longrightarrow> uuid_ok (w_store w)"
  "sys_inv cfg url_ok w \<Longrightarrow> ascii_vendors cfg"
  "sys_inv cfg url_ok w \<Longrightarrow> t \<in> set (st_tasks (w_store w)) \<Longrightarrow> task_ok cfg url_ok w t"
  "sys_inv cfg url_ok w \<Longrightarrow> p \<in> set (w_published w) \<Longrightarrow> sound_message w p"
  "sys_inv cfg url_ok w \<Longrightarrow> config_total cfg"
  by (simp_all add: sys_inv_def)

lemma inv_upd_task:
  assumes inv: "sys_inv cfg url_ok w" and same: "\<And>t. same_task t (f t)"
    and status: "\<And>t. t_status t \<in> set task_statuses \<Longrightarrow> t_status (f t) \<in> set task_statuses"
    and ok: "\<And>t. t \<in> set (st_tasks (w_store w)) \<Longrightarrow> t_id t = i \<Longrightarrow> task_ok cfg url_ok w (f t)"
  shows "sys_inv cfg url_ok (w\<lparr>w_store := upd_task i f (w_store w)\<rparr>) \<and>
         evolves w (w\<lparr>w_store := upd_task i f (w_store w)\<rparr>)"
proof -
  let ?w' = "w\<lparr>w_store := upd_task i f (w_store w)\<rparr>"
  have ids: "t_id (f t) = t_id t" "task_key (f t) = task_key t" "t_notification_id (f t) = t_notification_id t" for t
    using same [of t] by (simp_all add: same_task_def task_key_def)
  have ev: "evolves w ?w'" using same by (rule evolves_upd_task)
  have "task_ok cfg url_ok ?w' t'"
    if new: "t' \<in> set (st_tasks (w_store ?w'))" "t' \<notin> set (st_tasks (w_store w))" for t'
  proof -
    from new obtain t where t: "t \<in> set (st_tasks (w_store w))" "t_id t = i"
      and t': "t' = (f t)\<lparr>t_updated_at := st_now (w_store w)\<rparr>"
      by (auto simp: upd_task_def upd_where_set split: if_splits)
    have "notif_row (w_store w) (t_notification_id (f t)) \<noteq> None"
      using task_has_notif [OF sys_invD(1) [OF inv] t(1)] ids by simp
    from task_ok_mono [OF this ev ok [OF t]] show ?thesis
      by (simp add: t' task_ok_def retries_ok_def untouched_def delivered_def request_for_def)
  qed
  moreover have "wf_store (w_store ?w')"
    using wf_upd_task_fields [OF sys_invD(1) [OF inv], of f i] ids status by simp
  moreover have "uuid_ok (w_store ?w')"
    using uuid_ok_upd_task [OF sys_invD(3) [OF inv], of f i] ids by simp
  ultimately show ?thesis
    using ev by (intro conjI sys_inv_step [OF inv ev]) auto
qed

lemma inv_set_notif_status:
  assumes inv: "sys_inv cfg url_ok w" and st: "st \<noteq> ''PENDING''" and r: "sql_set_notif_status i st (w_store w) = (r, s)"
  shows "sys_inv cfg url_ok (w\<lparr>w_store := s\<rparr>) \<and> evolves w (w\<lparr>w_store := s\<rparr>)"
proof -
  let ?f = "\<lambda>n. n\<lparr>n_status := st, n_updated_at := st_now (w_store w)\<rparr>"
  consider "s = w_store w" | "s = (w_store w)\<lparr>st_notifs := upd_where (\<lambda>n. n_id n = i) ?f (st_notifs (w_store w))\<rparr>"
    using r by (auto simp: sql_set_notif_status_def split: if_splits)
  then show ?thesis
  proof cases
    case 1
    then show ?thesis using inv by simp
  next
    case 2
    have ev: "evolves w (w\<lparr>w_store := s\<rparr>)"
      unfolding 2 by (rule evolves_upd_notif) (simp add: same_notif_def st)
    have "wf_store s" using wf_sql_set_notif_status [OF sys_invD(1) [OF inv], of i st] r by simp
    moreover have "uuid_ok s" unfolding 2 using inv by (intro uuid_ok_upd_notif) (simp_all add: sys_invD)
    ultimately show ?thesis
      using ev by (intro conjI sys_inv_step [OF inv ev]) (auto simp: 2)
  qed
qed

section \<open>Adding rows\<close>

lemma insert_task_cases:
  assumes "sql_insert_task nid vendor ev s = (r, s')"
  shows "s' = s \<and> (\<forall>t. r \<noteq> Row_Task t) \<or>
         s' = s\<lparr>st_drawn := Suc (st_drawn s)\<rparr> \<and> (\<forall>t. r \<noteq> Row_Task t) \<or>
         (\<exists>v e. varchar 64 vendor = Some v \<and> task_row s (st_ids s (st_drawn s)) = None \<and>
            notif_row s nid \<noteq> None \<and> r = Row_Task (new_task (st_ids s (st_drawn s)) nid v e (st_now s)) \<and>
            s' = s\<lparr>st_drawn := Suc (st_drawn s),
                   st_tasks := st_tasks s @ [new_task (st_ids s (st_drawn s)) nid v e (st_now s)]\<rparr>)"
proof (cases "varchar 64 vendor")
  case None
  with assms show ?thesis by (auto simp: sql_insert_task_def violation_def)
next
  case v: (Some v)
  show ?thesis
  proof (cases "varchar 128 ev")
    case None
    with assms v show ?thesis by (auto simp: sql_insert_task_def violation_def)
  next
    case (Some e)
    with assms v show ?thesis
      by (simp add: sql_insert_task_def violation_def Let_def split: if_splits) auto
  qed
qed

lemma insert_notification_cases:
  assumes "insert_notification p m s = (r, s')"
  shows "s' = s\<lparr>st_drawn := Suc (st_drawn s)\<rparr> \<and> (\<forall>i b. r \<noteq> Row_Upsert i b) \<or>
         (\<exists>n. n_id n = st_ids s (st_drawn s) \<and> notif_row s (n_id n) = None \<and> r = Row_Upsert (n_id n) True \<and>
            s' = s\<lparr>st_drawn := Suc (st_drawn s), st_notifs := st_notifs s @ [n]\<rparr>)"
proof -
  let ?n = "new_notification (st_ids s (st_drawn s)) p m (st_now s)"
  have i: "n_id ?n = st_ids s (st_drawn s)" by (simp add: new_notification_def)
  show ?thesis
  proof (cases "notif_row s (n_id ?n)")
    case None
    with assms i have "r = Row_Upsert (n_id ?n) True"
      "s' = s\<lparr>st_drawn := Suc (st_drawn s), st_notifs := st_notifs s @ [?n]\<rparr>"
      by (simp_all add: insert_notification_def Let_def)
    with None i show ?thesis by blast
  next
    case (Some x)
    with assms i show ?thesis by (auto simp: insert_notification_def Let_def violation_def)
  qed
qed

lemma upsert_cases:
  assumes "sql_upsert p s = (r, s')"
  shows "s' = s \<and> (\<forall>i b. r \<noteq> Row_Upsert i b) \<or>
         (\<exists>q n b. n \<in> set (st_notifs s) \<and> r = Row_Upsert (n_id n) b \<and>
            s' = s\<lparr>st_notifs := upd_where (same_key q) (n_updated_at_update (\<lambda>_. st_now s)) (st_notifs s)\<rparr>) \<or>
         (\<exists>q m. insert_notification q m s = (r, s'))"
proof (cases "(varchar 64 (up_caller_id p), varchar 128 (up_idempotent_key p), varchar 128 (up_event_type p))")
  case (fields c k ev)
  show ?thesis
  proof (cases "c = None \<or> k = None \<or> ev = None \<or> up_payload p = None")
    case True
    with assms fields show ?thesis by (auto simp: sql_upsert_def violation_def split: option.splits)
  next
    case False
    then obtain c' k' e' m where some: "c = Some c'" "k = Some k'" "ev = Some e'" "up_payload p = Some m" by auto
    let ?q = "p\<lparr>up_caller_id := c', up_idempotent_key := k', up_event_type := e'\<rparr>"
    show ?thesis
    proof (cases "find (same_key ?q) (st_notifs s)")
      case None
      with assms fields some show ?thesis by (auto simp: sql_upsert_def Let_def)
    next
      case (Some n)
      from assms fields some Some have "r = Row_Upsert (n_id n) (n_created_at n = st_now s)"
        "s' = s\<lparr>st_notifs := upd_where (same_key ?q) (n_updated_at_update (\<lambda>_. st_now s)) (st_notifs s)\<rparr>"
        by (simp_all add: sql_upsert_def Let_def)
      with find_Some_in [OF Some] show ?thesis by blast
    qed
  qed
qed

lemma inv_insert_task:
  assumes inv: "sys_inv cfg url_ok w" and v: "ascii vendor"
    and r: "sql_insert_task nid vendor ev (w_store w) = (r, s)"
  shows "sys_inv cfg url_ok (w\<lparr>w_store := s\<rparr>) \<and> evolves w (w\<lparr>w_store := s\<rparr>) \<and>
         (\<forall>t. r = Row_Task t \<longrightarrow> task_row s (t_id t) = Some t \<and> t_notification_id t = nid \<and>
            ascii (t_id t) \<and> ascii (t_vendor_id t))"
proof -
  let ?i = "st_ids (w_store w) (st_drawn (w_store w))"
  have wf: "wf_store s" using wf_sql_insert_task [OF sys_invD(1) [OF inv], of nid vendor ev] r by simp
  have i: "st_uuid (w_store w) ?i = Some ?i" "ascii ?i"
    using sys_invD(2) [OF inv] by (simp_all add: ids_ok_def)
  consider (old) "s = w_store w" "\<forall>t. r \<noteq> Row_Task t"
    | (drawn) "s = (w_store w)\<lparr>st_drawn := Suc (st_drawn (w_store w))\<rparr>" "\<forall>t. r \<noteq> Row_Task t"
    | (new) v' e' where "varchar 64 vendor = Some v'" "task_row (w_store w) ?i = None"
      "notif_row (w_store w) nid \<noteq> None" "r = Row_Task (new_task ?i nid v' e' (st_now (w_store w)))"
      "s = (w_store w)\<lparr>st_drawn := Suc (st_drawn (w_store w)),
             st_tasks := st_tasks (w_store w) @ [new_task ?i nid v' e' (st_now (w_store w))]\<rparr>"
    using insert_task_cases [OF r] by blast
  then show ?thesis
  proof cases
    case old
    then show ?thesis using inv by simp
  next
    case drawn
    have ev: "evolves w (w\<lparr>w_store := s\<rparr>)" by (simp add: drawn evolves_def)
    have "uuid_ok s" using sys_invD(3) [OF inv] by (simp add: drawn uuid_ok_def)
    then show ?thesis
      using ev wf drawn(2) by (intro conjI sys_inv_step [OF inv ev]) (auto simp: drawn(1))
  next
    case new
    let ?t = "new_task ?i nid v' e' (st_now (w_store w))"
    have rows: "task_row s j = (case task_row (w_store w) j of Some t \<Rightarrow> Some t
        | None \<Rightarrow> if ?i = j then Some ?t else None)" for j
      by (simp add: new task_row_def find_append new_task_def split: option.split)
    have nrows: "notif_row s j = notif_row (w_store w) j" for j
      by (simp add: new notif_row_def)
    have ev: "evolves w (w\<lparr>w_store := s\<rparr>)"
      by (auto simp: evolves_def rows nrows) (simp_all add: new)
    have av: "ascii v'" using v new(1) by (rule ascii_varchar)
    have "task_ok cfg url_ok (w\<lparr>w_store := s\<rparr>) ?t"
      by (simp add: task_ok_def retries_ok_def untouched_def new_task_def i av)
    moreover have "uuid_ok s" using sys_invD(3) [OF inv] i by (auto simp: new uuid_ok_def new_task_def)
    ultimately have "sys_inv cfg url_ok (w\<lparr>w_store := s\<rparr>)"
      using wf by (intro sys_inv_step [OF inv ev]) (auto simp: new)
    moreover have "task_row s ?i = Some ?t" using new(2) by (simp add: rows)
    ultimately show ?thesis
      using ev i av by (simp add: new(4)) (simp add: new_task_def)
  qed
qed

lemma inv_upsert:
  assumes inv: "sys_inv cfg url_ok w" and r: "sql_upsert p (w_store w) = (r, s)"
  shows "sys_inv cfg url_ok (w\<lparr>w_store := s\<rparr>) \<and> evolves w (w\<lparr>w_store := s\<rparr>) \<and>
         (\<forall>i b. r = Row_Upsert i b \<longrightarrow> notif_row s i \<noteq> None)"
proof -
  have wf: "wf_store s" using wf_sql_upsert [OF sys_invD(1) [OF inv], of p] r by simp
  have keep: "sys_inv cfg url_ok (w\<lparr>w_store := s\<rparr>)"
    if "evolves w (w\<lparr>w_store := s\<rparr>)" "st_tasks s = st_tasks (w_store w)" "uuid_ok s"
    using wf that by (intro sys_inv_step [OF inv that(1)]) auto
  consider (failed) "s = w_store w" "\<forall>i b. r \<noteq> Row_Upsert i b"
    | (touched) q n b where "n \<in> set (st_notifs (w_store w))" "r = Row_Upsert (n_id n) b"
      "s = (w_store w)\<lparr>st_notifs := upd_where (same_key q) (n_updated_at_update (\<lambda>_. st_now (w_store w)))
                                     (st_notifs (w_store w))\<rparr>"
    | (drawn) "s = (w_store w)\<lparr>st_drawn := Suc (st_drawn (w_store w))\<rparr>" "\<forall>i b. r \<noteq> Row_Upsert i b"
    | (new) n where "n_id n = st_ids (w_store w) (st_drawn (w_store w))" "notif_row (w_store w) (n_id n) = None"
      "r = Row_Upsert (n_id n) True"
      "s = (w_store w)\<lparr>st_drawn := Suc (st_drawn (w_store w)), st_notifs := st_notifs (w_store w) @ [n]\<rparr>"
    using upsert_cases [OF r] insert_notification_cases by blast
  then show ?thesis
  proof cases
    case failed
    then show ?thesis using inv by simp
  next
    case touched
    have ev: "evolves w (w\<lparr>w_store := s\<rparr>)"
      unfolding touched(3) by (rule evolves_upd_notif) (simp add: same_notif_def)
    have "uuid_ok s" unfolding touched(3) using inv by (intro uuid_ok_upd_notif) (simp_all add: sys_invD)
    moreover have "notif_row (w_store w) (n_id n) \<noteq> None" using touched(1) by (auto simp: notif_row_None)
    then have "notif_row s (n_id n) \<noteq> None" using evolvesD(1) [OF ev] by fastforce
    ultimately show ?thesis using keep [OF ev] ev touched by auto
  next
    case drawn
    have ev: "evolves w (w\<lparr>w_store := s\<rparr>)" by (simp add: drawn evolves_def)
    have "uuid_ok s" using sys_invD(3) [OF inv] by (simp add: drawn uuid_ok_def)
    then show ?thesis using keep [OF ev] ev drawn by simp
  next
    case new
    have rows: "notif_row s j = (case notif_row (w_store w) j of Some x \<Rightarrow> Some x
        | None \<Rightarrow> if n_id n = j then Some n else None)" for j
      by (simp add: new(4) notif_row_def find_append split: option.split)
    have trows: "task_row s j = task_row (w_store w) j" for j
      by (simp add: new(4) task_row_def)
    have ev: "evolves w (w\<lparr>w_store := s\<rparr>)"
      by (auto simp: evolves_def rows trows) (simp_all add: new(4))
    have "uuid_ok s"
      using sys_invD(2,3) [OF inv] new(1) by (auto simp: new(4) uuid_ok_def ids_ok_def)
    then have "sys_inv cfg url_ok (w\<lparr>w_store := s\<rparr>)" using keep [OF ev] new(4) by simp
    moreover have "notif_row s (n_id n) \<noteq> None" using new(2) by (simp add: rows)
    ultimately show ?thesis using ev new(3) by blast
  qed
qed

end
