(* ===== verification/System_Threads.thy ===== *)
theory System_Threads
  imports System_Steps
begin

text \<open>
  Contracts of the database and broker clients in the shared world, and of the goroutines built from
  them: each keeps the system's invariant at every step, whatever fails and whatever runs beside it.
\<close>

section \<open>Statements over a connection that may fail\<close>

lemma stableI: "(\<And>w w'. evolves w w' \<Longrightarrow> P w \<Longrightarrow> P w') \<Longrightarrow> sys_stable cfg url_ok P"
  unfolding sys.stable_def by blast

lemma stableD:
  "sys_stable cfg url_ok P \<Longrightarrow> sys_inv cfg url_ok w \<Longrightarrow> sys_inv cfg url_ok w' \<Longrightarrow> evolves w w' \<Longrightarrow> P w \<Longrightarrow> P w'"
  unfolding sys.stable_def by blast

lemma inv_same_data:
  assumes inv: "sys_inv cfg url_ok w"
    and same: "st_notifs (w_store w') = st_notifs (w_store w)" "st_tasks (w_store w') = st_tasks (w_store w)"
      "st_uuid (w_store w') = st_uuid (w_store w)" "st_ids (w_store w') = st_ids (w_store w)"
      "w_published w' = w_published w" "set (w_requests w) \<subseteq> set (w_requests w')"
  shows "sys_inv cfg url_ok w' \<and> evolves w w'"
proof -
  have ev: "evolves w w'" using same by (simp add: evolves_def notif_row_def task_row_def)
  have "wf_store (w_store w')" using sys_invD(1) [OF inv] same by (simp add: wf_store_def)
  moreover have "uuid_ok (w_store w')" using sys_invD(3) [OF inv] same by (simp add: uuid_ok_def)
  ultimately show ?thesis using ev same by (intro conjI sys_inv_step [OF inv ev]) simp_all
qed

lemma rg_sql:
  assumes P: "sys_stable cfg url_ok P" and Q: "\<And>x. sys_stable cfg url_ok (Q x)"
    and lost: "\<And>n r w. sys_inv cfg url_ok w \<Longrightarrow> P w \<Longrightarrow> Q (scan (cut_reply n r)) w"
    and ok: "\<And>w r s. sys_inv cfg url_ok w \<Longrightarrow> P w \<Longrightarrow> sql c (w_store w) = (r, s) \<Longrightarrow>
      sys_inv cfg url_ok (w\<lparr>w_store := s\<rparr>) \<and> evolves w (w\<lparr>w_store := s\<rparr>) \<and> Q (scan r) (w\<lparr>w_store := s\<rparr>)"
  shows "sys_rg cfg url_ok (ask (Sql c) scan) P Q"
proof (rule sys.rg_ask)
  fix w r w'
  assume w: "sys_inv cfg url_ok w" "P w" and ex: "exec_world (Sql c) w = (r, w')"
  have cut: "connection_lost = cut_reply 0 Done" by (simp add: cut_reply_def)
  show "sys_inv cfg url_ok w' \<and> evolves w w' \<and> Q (scan r) w'"
  proof (cases "st_faults (w_store w)")
    case Nil
    with ex ok [OF w] show ?thesis by (simp add: exec_sql_def split: prod.splits)
  next
    case (Cons f fs)
    define w1 where "w1 = w\<lparr>w_store := (w_store w)\<lparr>st_faults := fs\<rparr>\<rparr>"
    have w1: "sys_inv cfg url_ok w1" "evolves w w1"
      using inv_same_data [OF w(1), of w1] by (simp_all add: w1_def)
    note P1 = stableD [OF P w(1) w1 w(2)]
    obtain r1 s1 where r1: "sql c (w_store w1) = (r1, s1)" by fastforce
    have s1: "sys_inv cfg url_ok (w\<lparr>w_store := s1\<rparr>)" "evolves w (w\<lparr>w_store := s1\<rparr>)" "Q (scan r1) (w\<lparr>w_store := s1\<rparr>)"
      "evolves w1 (w\<lparr>w_store := s1\<rparr>)"
      using ok [OF w1(1) P1 r1] evolves_trans [OF w1(2), of "w\<lparr>w_store := s1\<rparr>"] by (simp_all add: w1_def)
    note P2 = stableD [OF P w1(1) s1(1) s1(4) P1]
    have "r = r1 \<and> w' = w\<lparr>w_store := s1\<rparr> \<or> (\<exists>n q. r = cut_reply n q) \<and> (w' = w1 \<or> w' = w\<lparr>w_store := s1\<rparr>)"
      using ex r1 Cons cut by (cases f) (auto simp: exec_sql_def w1_def)
    with w1 P1 s1 P2 lost show ?thesis by blast
  qed
qed (rule Q)

lemma rg_query:
  assumes "is_query c" "sys_stable cfg url_ok P" "\<And>x. sys_stable cfg url_ok (Q x)"
    and "\<And>n r w. sys_inv cfg url_ok w \<Longrightarrow> P w \<Longrightarrow> Q (scan (cut_reply n r)) w"
    and "\<And>w. sys_inv cfg url_ok w \<Longrightarrow> P w \<Longrightarrow> Q (scan (fst (sql c (w_store w)))) w"
  shows "sys_rg cfg url_ok (ask (Sql c) scan) P Q"
proof (rule rg_sql [where P = P and Q = Q])
  fix w r s
  assume w: "sys_inv cfg url_ok w" "P w" and e: "sql c (w_store w) = (r, s)"
  with query_no_change [OF assms(1), of "w_store w"] assms(5) [OF w]
  show "sys_inv cfg url_ok (w\<lparr>w_store := s\<rparr>) \<and> evolves w (w\<lparr>w_store := s\<rparr>) \<and> Q (scan r) (w\<lparr>w_store := s\<rparr>)"
    by simp
qed (fact assms)+

lemma cut_scans [simp]:
  "scan_done (cut_reply n r) = None \<longleftrightarrow> False"
  "scan_upsert (cut_reply n r) = Inr x \<longleftrightarrow> False"
  "scan_notification (cut_reply n r) = Inr y \<longleftrightarrow> False"
  "scan_payload (cut_reply n r) = Inr p \<longleftrightarrow> False"
  "scan_text (cut_reply n r) = Inr t \<longleftrightarrow> False"
  "scan_task (cut_reply n r) = Inr z \<longleftrightarrow> False"
  by (auto simp: cut_reply_def connection_lost_def split: reply.splits)


lemma rg_query_frame:
  "is_query c \<Longrightarrow> sys_stable cfg url_ok F \<Longrightarrow> sys_rg cfg url_ok (ask (Sql c) scan) F (\<lambda>_. F)"
  by (rule rg_query) simp_all

section \<open>Tasks\<close>

text \<open>What a worker knows of the task it has read, as long as it works on it.\<close>

definition at_work :: "config_provider \<Rightarrow> delivery_task \<Rightarrow> world \<Rightarrow> bool" where
  "at_work cfg t w \<longleftrightarrow>
     retries_ok cfg t \<and> ascii (t_id t) \<and> ascii (t_vendor_id t) \<and> open_task w (t_id t) \<and>
     (\<exists>t'. task_row (w_store w) (t_id t) = Some t' \<and> same_task t t')"

lemma at_work_stable: "sys_stable cfg url_ok (at_work cfg' t)"
proof (rule stableI)
  fix w w'
  assume ev: "evolves w w'" and a: "at_work cfg' t w"
  then obtain t' where "task_row (w_store w) (t_id t) = Some t'" "same_task t t'" unfolding at_work_def by blast
  with evolvesD(2) [OF ev] same_task_trans have "\<exists>t'. task_row (w_store w') (t_id t) = Some t' \<and> same_task t t'"
    by metis
  with a open_task_mono [OF ev] show "at_work cfg' t w'" unfolding at_work_def by blast
qed

lemma delivered_stable: "sys_stable cfg url_ok (\<lambda>w. delivered cfg' u' w t)"
  by (rule stableI) (rule delivered_mono)

lemma delivered_same: "same_task a b \<Longrightarrow> delivered cfg url_ok w a = delivered cfg url_ok w b"
  by (simp add: delivered_def request_for_def same_task_def)

lemma uuid_task:
  "sys_inv cfg url_ok w \<Longrightarrow> task_row (w_store w) i = Some t \<Longrightarrow> st_uuid (w_store w) i = Some i"
  by (auto dest!: sys_invD(3) task_row_Some simp: uuid_ok_def)

lemma uuid_notif:
  "sys_inv cfg url_ok w \<Longrightarrow> notif_row (w_store w) i = Some n \<Longrightarrow> st_uuid (w_store w) i = Some i"
  by (auto dest!: sys_invD(3) notif_row_Some simp: uuid_ok_def)

lemma at_work_row:
  assumes "sys_inv cfg url_ok w" "at_work cfg t w" "t' \<in> set (st_tasks (w_store w))" "t_id t' = t_id t"
  shows "same_task t t' \<and>
         (\<exists>n. notif_row (w_store w) (t_notification_id t') = Some n \<and> n_status n \<noteq> ''PENDING'')"
proof -
  have "task_row (w_store w) (t_id t) = Some t'"
    using task_row_in [OF sys_invD(1) [OF assms(1)] assms(3)] assms(4) by simp
  with assms(2) show ?thesis unfolding at_work_def open_task_def by auto
qed

lemma task_ok_change:
  assumes inv: "sys_inv cfg url_ok w" and a: "at_work cfg t w" and t': "t' \<in> set (st_tasks (w_store w))" "t_id t' = t_id t"
    and new: "same_task t' u" "retries_ok cfg u"
    and s: "t_status u = ''SUCCEEDED'' \<Longrightarrow> t_status t' = ''SUCCEEDED'' \<or> delivered cfg url_ok w t"
  shows "task_ok cfg url_ok w u"
proof -
  note row = at_work_row [OF inv a t']
  note ok = sys_invD(5) [OF inv t'(1)]
  have "untouched w u" using row new(1) by (auto simp: untouched_def same_task_def)
  moreover have "delivered cfg url_ok w u" if "t_status u = ''SUCCEEDED''"
    using s [OF that] ok delivered_same [OF new(1)] delivered_same [of t t'] row by (auto simp: task_ok_def)
  ultimately show ?thesis using ok new by (auto simp: task_ok_def same_task_def)
qed

text \<open>A statement that changes at most the task the worker has read.\<close>

lemma rg_task_stmt:
  assumes F: "sys_stable cfg url_ok F" and a: "\<And>w. sys_inv cfg url_ok w \<Longrightarrow> F w \<Longrightarrow> at_work cfg t w"
    and stmt: "\<And>s. st_uuid s (t_id t) = Some (t_id t) \<Longrightarrow> snd (sql c s) = s \<or> snd (sql c s) = upd_task (t_id t) f s"
    and f: "\<And>x. same_task x (f x)" "\<And>x. t_status x \<in> set task_statuses \<Longrightarrow> t_status (f x) \<in> set task_statuses"
      "\<And>x. same_task t x \<Longrightarrow> retries_ok cfg x \<Longrightarrow> retries_ok cfg (f x)"
    and s: "\<And>w x. sys_inv cfg url_ok w \<Longrightarrow> F w \<Longrightarrow> t_status (f x) = ''SUCCEEDED'' \<Longrightarrow>
      t_status x = ''SUCCEEDED'' \<or> delivered cfg url_ok w t"
  shows "sys_rg cfg url_ok (ask (Sql c) scan) F (\<lambda>_. F)"
proof (rule rg_sql)
  fix w r st
  assume w: "sys_inv cfg url_ok w" "F w" and e: "sql c (w_store w) = (r, st)"
  note at = a [OF w]
  have "st_uuid (w_store w) (t_id t) = Some (t_id t)"
    using at uuid_task [OF w(1)] unfolding at_work_def by blast
  from stmt [OF this] e have st: "st = w_store w \<or> st = upd_task (t_id t) f (w_store w)" by simp
  have "sys_inv cfg url_ok (w\<lparr>w_store := st\<rparr>) \<and> evolves w (w\<lparr>w_store := st\<rparr>)"
  proof (cases "st = w_store w")
    case False
    have "task_ok cfg url_ok w (f x)" if x: "x \<in> set (st_tasks (w_store w))" "t_id x = t_id t" for x
      using sys_invD(5) [OF w(1) x(1)] at_work_row [OF w(1) at x]
      by (intro task_ok_change [OF w(1) at x f(1)] f(3) s [OF w]) (simp_all add: task_ok_def)
    with False st inv_upd_task [OF w(1) f(1,2)] show ?thesis by blast
  qed (use w in simp)
  with stableD [OF F w(1) _ _ w(2)] show "sys_inv cfg url_ok (w\<lparr>w_store := st\<rparr>) \<and> evolves w (w\<lparr>w_store := st\<rparr>) \<and> F (w\<lparr>w_store := st\<rparr>)"
    by blast
qed (use F in simp_all)


lemma rg_update_task_status:
  assumes "sys_stable cfg url_ok F" "\<And>w. sys_inv cfg url_ok w \<Longrightarrow> F w \<Longrightarrow> at_work cfg t w"
    and "\<And>w. sys_inv cfg url_ok w \<Longrightarrow> F w \<Longrightarrow> st = ''SUCCEEDED'' \<Longrightarrow> delivered cfg url_ok w t"
  shows "sys_rg cfg url_ok (pg_update_task_status (t_id t) st) F (\<lambda>_. F)"
proof (cases "st \<in> set task_statuses")
  case True
  show ?thesis unfolding pg_update_task_status_def
    by (intro sys.rg_wrap_opt_frame rg_task_stmt [where f = "t_status_update (\<lambda>_. st)", OF assms(1,2)])
      (use True assms(3) in \<open>auto simp: with_uuid_def sql_set_task_status_def same_task_def retries_ok_def\<close>)
next
  case False
  show ?thesis unfolding pg_update_task_status_def
    by (intro sys.rg_wrap_opt_frame rg_task_stmt [where f = "\<lambda>x. x", OF assms(1,2)])
      (use False in \<open>auto simp: with_uuid_def sql_set_task_status_def\<close>)
qed

lemma rg_update_task_retry:
  assumes "sys_stable cfg url_ok F" "\<And>w. sys_inv cfg url_ok w \<Longrightarrow> F w \<Longrightarrow> at_work cfg t w"
    and "0 \<le> k" "cp_vendor_config cfg (t_vendor_id t) = Inr (Some vc)"
    and "cp_delivery_spec cfg (t_vendor_id t) (t_event_type t) = Ret (Inr (Some spec))"
    and "k < rp_max_attempts (effective_policy vc spec)"
  shows "sys_rg cfg url_ok (pg_update_task_retry (t_id t) k due err) F (\<lambda>_. F)"
  unfolding pg_update_task_retry_def
  by (intro sys.rg_wrap_opt_frame rg_task_stmt [where f = "\<lambda>t. t\<lparr>t_retry_count := k,
        t_next_retry_at := Some (due div 1000), t_last_error := err\<rparr>", OF assms(1,2)])
    (use assms(3-) in \<open>auto simp: with_uuid_def sql_set_retry_def same_task_def retries_ok_def\<close>)

lemma rg_insert_dead_letter:
  assumes "sys_stable cfg url_ok F" "\<And>w. sys_inv cfg url_ok w \<Longrightarrow> F w \<Longrightarrow> at_work cfg t w"
  shows "sys_rg cfg url_ok (pg_insert_dead_letter t err) F (\<lambda>_. F)"
  unfolding pg_insert_dead_letter_def
  by (intro sys.rg_wrap_opt_frame rg_task_stmt [where f = "\<lambda>t. t\<lparr>t_status := ''DEAD_LETTER'',
        t_last_error := err\<rparr>", OF assms])
    (auto simp: with_uuid_def sql_dead_letter_def same_task_def retries_ok_def task_statuses_def)

lemma rg_get_task:
  assumes "sys_stable cfg url_ok F" "\<And>w. sys_inv cfg url_ok w \<Longrightarrow> F w \<Longrightarrow> open_task w i"
  shows "sys_rg cfg url_ok (pg_get_task i) F (sys.gives F (at_work cfg))"
  unfolding pg_get_task_def
proof (intro sys.rg_wrap_gives rg_query assms(1) sys.stable_gives at_work_stable)
  fix w
  assume w: "sys_inv cfg url_ok w" "F w"
  obtain t where t: "task_row (w_store w) i = Some t" using assms(2) [OF w] unfolding open_task_def by blast
  have "task_ok cfg url_ok w t" "t_id t = i" using sys_invD(5) [OF w(1)] task_row_Some [OF t] by simp_all
  with t assms(2) [OF w] have "at_work cfg t w" by (auto simp: at_work_def task_ok_def)
  then show "sys.gives F (at_work cfg) (scan_task (fst (sql (Select_Task i) (w_store w)))) w"
    using w t uuid_task [OF w(1) t] by (simp add: with_uuid_def)
qed (simp_all add: sys.gives_def)

lemma rg_get_payload:
  assumes "sys_stable cfg url_ok F" "\<And>w. sys_inv cfg url_ok w \<Longrightarrow> F w \<Longrightarrow> notif_row (w_store w) i \<noteq> None"
  shows "sys_rg cfg url_ok (pg_get_payload i) F
           (sys.gives F (\<lambda>p w. \<exists>n. notif_row (w_store w) i = Some n \<and> n_payload n = p))"
  unfolding pg_get_payload_def
proof (intro sys.rg_wrap_gives rg_query assms(1) sys.stable_gives)
  fix w
  assume w: "sys_inv cfg url_ok w" "F w"
  obtain n where n: "notif_row (w_store w) i = Some n" using assms(2) [OF w] by blast
  then show "sys.gives F (\<lambda>p w. \<exists>n. notif_row (w_store w) i = Some n \<and> n_payload n = p)
      (scan_payload (fst (sql (Select_Payload i) (w_store w)))) w"
    using w uuid_notif [OF w(1) n] by (simp add: with_uuid_def select_notif_def)
next
  show "sys_stable cfg url_ok (\<lambda>w. \<exists>n. notif_row (w_store w) i = Some n \<and> n_payload n = y)" for y
    by (rule stableI) (fastforce dest: evolvesD(1) simp: same_notif_def)
qed (simp_all add: sys.gives_def)

section \<open>Notifications\<close>

lemma inv_notif_stmt:
  assumes "sys_inv cfg url_ok w" "st \<noteq> ''PENDING''" "sql (Update_Notification_Status i st) (w_store w) = (r, s)"
  shows "sys_inv cfg url_ok (w\<lparr>w_store := s\<rparr>) \<and> evolves w (w\<lparr>w_store := s\<rparr>)"
  using assms inv_set_notif_status by (auto simp: with_uuid_def split: option.splits)

lemma rg_update_notif_status:
  assumes F: "sys_stable cfg url_ok F" and st: "st \<noteq> ''PENDING''"
  shows "sys_rg cfg url_ok (pg_update_notification_status i st) F (\<lambda>_. F)"
  unfolding pg_update_notification_status_def
  using inv_notif_stmt [OF _ st] stableD [OF F] F by (intro sys.rg_wrap_opt_frame rg_sql) blast+

definition left_pending :: "string \<Rightarrow> world \<Rightarrow> bool" where
  "left_pending i w \<longleftrightarrow> (\<exists>n. notif_row (w_store w) i = Some n \<and> n_status n \<noteq> ''PENDING'')"

lemma left_pending_stable: "sys_stable cfg url_ok (left_pending i)"
  by (rule stableI) (fastforce dest: evolvesD(1) simp: same_notif_def left_pending_def)

lemma has_notif_stable: "sys_stable cfg url_ok (\<lambda>w. notif_row (w_store w) i \<noteq> None)"
  by (rule stableI) (fastforce dest: evolvesD(1))

lemma rg_leave_pending:
  assumes F: "sys_stable cfg url_ok F" and st: "st \<noteq> ''PENDING''"
    and n: "\<And>w. sys_inv cfg url_ok w \<Longrightarrow> F w \<Longrightarrow> notif_row (w_store w) i \<noteq> None"
  shows "sys_rg cfg url_ok (pg_update_notification_status i st) F (sys.clears F (left_pending i))"
  unfolding pg_update_notification_status_def
proof (intro sys.rg_wrap_clears rg_sql F sys.stable_clears left_pending_stable)
  fix w r s
  assume w: "sys_inv cfg url_ok w" "F w" and e: "sql (Update_Notification_Status i st) (w_store w) = (r, s)"
  note step = inv_notif_stmt [OF w(1) st e]
  obtain x where x: "notif_row (w_store w) i = Some x" using n [OF w] by blast
  have "left_pending i (w\<lparr>w_store := s\<rparr>)" if "scan_done r = None"
    using e x st that uuid_notif [OF w(1) x] notif_row_Some [OF x]
    by (auto simp: with_uuid_def sql_set_notif_status_def violation_def notif_row_upd left_pending_def split: if_splits)
  then show "sys_inv cfg url_ok (w\<lparr>w_store := s\<rparr>) \<and> evolves w (w\<lparr>w_store := s\<rparr>) \<and>
      sys.clears F (left_pending i) (scan_done r) (w\<lparr>w_store := s\<rparr>)"
    using step stableD [OF F w(1) _ _ w(2)] by (auto simp: sys.clears_def)
qed (simp_all add: sys.clears_def)

section \<open>Messages, requests, clock and random source\<close>

lemma inv_publish:
  assumes inv: "sys_inv cfg url_ok w" and m: "sound_message w p"
  shows "sys_inv cfg url_ok (w\<lparr>w_published := w_published w @ [p], w_mq_faults := fs\<rparr>) \<and>
         evolves w (w\<lparr>w_published := w_published w @ [p], w_mq_faults := fs\<rparr>)"
proof -
  let ?w' = "w\<lparr>w_published := w_published w @ [p], w_mq_faults := fs\<rparr>"
  have ev: "evolves w ?w'" by (auto simp: evolves_def)
  show ?thesis
    using sys_invD(1,3) [OF inv] ev sound_message_mono [OF ev m] by (intro conjI sys_inv_step [OF inv ev]) auto
qed

lemma rg_publish:
  assumes F: "sys_stable cfg url_ok F" and m: "\<And>w. sys_inv cfg url_ok w \<Longrightarrow> F w \<Longrightarrow> sound_message w (e, k, m)"
  shows "sys_rg cfg url_ok (ask (Publish e k m) scan) F (\<lambda>_. F)"
proof (rule sys.rg_ask)
  fix w r w'
  assume w: "sys_inv cfg url_ok w" "F w" and ex: "exec_world (Publish e k m) w = (r, w')"
  let ?w' = "w\<lparr>w_published := w_published w @ [(e, k, m)], w_mq_faults := tl (w_mq_faults w)\<rparr>"
  have "w' = ?w' \<or> w' = w\<lparr>w_mq_faults := tl (w_mq_faults w)\<rparr>"
    using ex by (cases "w_mq_faults w") (auto simp: exec_publish_def Let_def split: fault.splits)
  moreover have "sys_inv cfg url_ok (w\<lparr>w_mq_faults := tl (w_mq_faults w)\<rparr>) \<and> evolves w (w\<lparr>w_mq_faults := tl (w_mq_faults w)\<rparr>)"
    using inv_same_data [OF w(1)] by simp
  ultimately have "sys_inv cfg url_ok w' \<and> evolves w w'" using inv_publish [OF w(1) m [OF w]] by auto
  with stableD [OF F w(1) _ _ w(2)] show "sys_inv cfg url_ok w' \<and> evolves w w' \<and> F w'" by blast
qed (rule F)

lemma rg_http:
  assumes F: "sys_stable cfg url_ok F"
  shows "sys_rg cfg url_ok (ask (Http_Do req) http_reply) F
           (sys.gives F (\<lambda>x w. (req, Inr x) \<in> set (w_requests w)))"
proof (rule sys.rg_ask)
  fix x
  show "sys_stable cfg url_ok (sys.gives F (\<lambda>x w. (req, Inr x) \<in> set (w_requests w)) x)"
    by (intro sys.stable_gives F stableI) (rule evolvesD(4))
next
  fix w r w'
  assume w: "sys_inv cfg url_ok w" "F w" and ex: "exec_world (Http_Do req) w = (r, w')"
  have "sys_inv cfg url_ok w' \<and> evolves w w'"
    using ex by (intro inv_same_data [OF w(1)]) (auto simp: exec_http_def Let_def)
  moreover have "http_reply r = Inr x \<Longrightarrow> (req, Inr x) \<in> set (w_requests w')" for x
    using ex by (auto simp: exec_http_def Let_def split: sum.splits prod.splits)
  ultimately show "sys_inv cfg url_ok w' \<and> evolves w w' \<and>
      sys.gives F (\<lambda>x w. (req, Inr x) \<in> set (w_requests w)) (http_reply r) w'"
    using stableD [OF F w(1) _ _ w(2)] by (auto simp: sys.gives_def)
qed

lemma rg_time:
  assumes "sys_stable cfg url_ok F"
  shows "sys_rg cfg url_ok (ask Time_Now scan) F (\<lambda>_. F)"
  by (rule sys.rg_ask) (use assms in auto)

lemma rg_random:
  assumes F: "sys_stable cfg url_ok F"
  shows "sys_rg cfg url_ok (ask Rand_Float scan) F (\<lambda>_. F)"
proof (rule sys.rg_ask)
  fix w r w'
  assume w: "sys_inv cfg url_ok w" "F w" and ex: "exec_world Rand_Float w = (r, w')"
  have "sys_inv cfg url_ok w' \<and> evolves w w'"
    using ex by (intro inv_same_data [OF w(1)]) (auto simp: exec_random_def)
  with stableD [OF F w(1) _ _ w(2)] show "sys_inv cfg url_ok w' \<and> evolves w w' \<and> F w'" by blast
qed (rule F)

end
