(* ===== verification/System_Safety.thy ===== *)
theory System_Safety
  imports System_Threads
begin

text \<open>
  The goroutines of the service in the shared world: workers, dispatchers and HTTP handlers, and the
  properties that hold in every state their interleavings reach.
\<close>

section \<open>Publications\<close>

lemma exchanges_differ [simp]:
  "trigger_exchange \<noteq> delivery_exchange" "trigger_exchange \<noteq> dlx_exchange" "delivery_exchange \<noteq> dlx_exchange"
  "delivery_exchange \<noteq> trigger_exchange" "dlx_exchange \<noteq> trigger_exchange" "dlx_exchange \<noteq> delivery_exchange"
  by (simp_all add: trigger_exchange_def delivery_exchange_def dlx_exchange_def)

lemma rg_publish_trigger:
  assumes "sys_stable cfg url_ok F" "\<And>w. sys_inv cfg url_ok w \<Longrightarrow> F w \<Longrightarrow> notif_row (w_store w) i \<noteq> None"
  shows "sys_rg cfg url_ok (rmq_publish_trigger i) F (\<lambda>_. F)"
  unfolding rmq_publish_trigger_def
  by (intro sys.rg_wrap_opt_frame rg_publish assms(1)) (use assms(2) in \<open>simp add: sound_message_def\<close>)

lemma rg_publish_delivery:
  assumes "sys_stable cfg url_ok F" "\<And>w. sys_inv cfg url_ok w \<Longrightarrow> F w \<Longrightarrow> open_task w i" "ascii v" "ascii i"
  shows "sys_rg cfg url_ok (rmq_publish_delivery v i) F (\<lambda>_. F)"
proof -
  obtain body where b: "delivery_body v i = Inr body" by (simp add: marshal_delivery)
  with assms decode_delivery_body [OF assms(3,4) b] show ?thesis
    unfolding rmq_publish_delivery_def b sum.case
    by (intro sys.rg_wrap_opt_frame rg_publish assms(1)) (simp add: sound_message_def)
qed

lemma rg_publish_delayed:
  assumes "sys_stable cfg url_ok F" "\<And>w. sys_inv cfg url_ok w \<Longrightarrow> F w \<Longrightarrow> open_task w i" "ascii v" "ascii i"
  shows "sys_rg cfg url_ok (rmq_publish_delayed v i ms) F (\<lambda>_. F)"
proof -
  obtain body where b: "delivery_body v i = Inr body" by (simp add: marshal_delivery)
  with assms decode_delivery_body [OF assms(3,4) b] show ?thesis
    unfolding rmq_publish_delayed_def b sum.case
    by (intro sys.rg_wrap_opt_frame rg_publish assms(1)) (simp add: sound_message_def)
qed

section \<open>The worker\<close>

lemma rg_resolve:
  assumes "sys_stable cfg url_ok F"
  shows "sys_rg cfg url_ok (resolve_notification_status (prod_worker url_ok cfg) i) F (\<lambda>_. F)"
proof -
  have st: "resolved_status a b c = Some s \<Longrightarrow> s \<noteq> ''PENDING''" for a b c s
    by (auto simp: resolved_status_def split: if_splits)
  have k: "sys_rg cfg url_ok (case resolved_status a b c of None \<Rightarrow> Ret ()
      | Some s \<Rightarrow> bind (pg_update_notification_status i s) (\<lambda>_. Ret ())) F (\<lambda>_. F)" for a b c
    using st by (cases "resolved_status a b c") (auto intro!: sys.rg_seq rg_update_notif_status assms)
  show ?thesis
    unfolding resolve_notification_status_def prod_worker_simps pg_client_def db_client.simps pg_get_task_counts_def
    using k assms
    by (intro sys.rg_try_frame sys.rg_wrap_err_frame rg_query_frame) (simp_all split: prod.split)
qed

lemma rg_dead_letter:
  assumes "sys_stable cfg url_ok F" "\<And>w. sys_inv cfg url_ok w \<Longrightarrow> F w \<Longrightarrow> at_work cfg t w"
  shows "sys_rg cfg url_ok (handle_dead_letter (prod_worker url_ok cfg) t err) F (\<lambda>_ _. True)"
  unfolding handle_dead_letter_def prod_worker_simps pg_client_def db_client.simps
  by (intro sys.rg_check_frame [OF rg_update_task_status] sys.rg_check_frame [OF rg_insert_dead_letter]
      sys.rg_seq [OF rg_resolve] sys.rg_done assms) simp_all

lemma rg_backoff:
  assumes "sys_stable cfg url_ok F"
  shows "sys_rg cfg url_ok (calculate_backoff n p None) F (\<lambda>_. F)"
  unfolding calculate_backoff_none using assms by (auto intro!: sys.rg_seq rg_random)

lemma rg_retry:
  assumes "sys_stable cfg url_ok F" "\<And>w. sys_inv cfg url_ok w \<Longrightarrow> F w \<Longrightarrow> at_work cfg t w"
    and "cp_vendor_config cfg (t_vendor_id t) = Inr (Some vc)"
    and "cp_delivery_spec cfg (t_vendor_id t) (t_event_type t) = Ret (Inr (Some spec))"
  shows "sys_rg cfg url_ok (retry_or_dead_letter (prod_worker url_ok cfg) t (effective_policy vc spec) err) F (\<lambda>_ _. True)"
proof (cases "\<exists>w. sys_inv cfg url_ok w \<and> F w")
  case True
  then have t: "ascii (t_id t)" "ascii (t_vendor_id t)" "0 \<le> t_retry_count t"
    using assms(2) by (auto simp: at_work_def retries_ok_def)
  have o: "open_task w (t_id t)" if "sys_inv cfg url_ok w" "F w" for w
    using assms(2) [OF that] by (simp add: at_work_def)
  show ?thesis
    unfolding retry_or_dead_letter_def prod_worker_simps pg_client_def db_client.simps rmq_client_def mq_client.simps Let_def
    using t o assms
    by (auto intro!: rg_dead_letter sys.rg_seq [OF rg_time] sys.rg_seq [OF rg_backoff]
        sys.rg_check_frame [OF rg_update_task_retry] sys.rg_check_frame [OF rg_publish_delayed])
next
  case False
  then show ?thesis by (intro sys.rg_absurd) blast
qed

text \<open>A request sent for the task it was built for is a delivery when the vendor answers 2xx.\<close>

lemma rg_send:
  assumes F: "sys_stable cfg url_ok F" and a: "\<And>w. sys_inv cfg url_ok w \<Longrightarrow> F w \<Longrightarrow> at_work cfg t w"
    and cfg: "cp_vendor_config cfg (t_vendor_id t) = Inr (Some vc)"
      "cp_delivery_spec cfg (t_vendor_id t) (t_event_type t) = Ret (Inr (Some spec))"
    and req: "\<And>w. sys_inv cfg url_ok w \<Longrightarrow> F w \<Longrightarrow> request_for cfg url_ok w t req"
  shows "sys_rg cfg url_ok (send_and_judge (prod_worker url_ok cfg) t (effective_policy vc spec) req) F (\<lambda>_ _. True)"
  unfolding send_and_judge_def handle_http_error_def
proof (rule sys.rg_gives [OF rg_http [OF F]])
  show "sys_rg cfg url_ok (retry_or_dead_letter (prod_worker url_ok cfg) t (effective_policy vc spec) (Error_Text e))
      F (\<lambda>_ _. True)" for e
    using F a cfg by (rule rg_retry)
next
  fix x :: "int \<times> string"
  obtain code status where x: "x = (code, status)" by (cases x)
  let ?G = "\<lambda>w. F w \<and> (req, Inr x) \<in> set (w_requests w)"
  have G: "sys_stable cfg url_ok ?G" by (intro sys.stable_conj F stableI) (rule evolvesD(4))
  have d: "delivered cfg url_ok w t" if "is_http_success code" "sys_inv cfg url_ok w" "?G w" for w
    using that req x unfolding delivered_def by blast
  have "sys_rg cfg url_ok (handle_delivery_success (prod_worker url_ok cfg) t) ?G (\<lambda>_ _. True)" if "is_http_success code"
    unfolding handle_delivery_success_def prod_worker_simps pg_client_def db_client.simps
    using a d that by (intro sys.rg_seq [OF rg_update_task_status] sys.rg_seq [OF rg_resolve] sys.rg_done G) auto
  then show "sys_rg cfg url_ok (case x of (code, status) \<Rightarrow>
      if is_http_success code then handle_delivery_success (prod_worker url_ok cfg) t
      else if is_http_retryable code
        then retry_or_dead_letter (prod_worker url_ok cfg) t (effective_policy vc spec) (Status_Line status)
      else handle_dead_letter (prod_worker url_ok cfg) t (Status_Line status)) ?G (\<lambda>_ _. True)"
    using rg_retry [OF G _ cfg] rg_dead_letter [OF G] a by (auto simp: x)
qed

lemma rg_deliver:
  assumes F: "sys_stable cfg url_ok F" and a: "\<And>w. sys_inv cfg url_ok w \<Longrightarrow> F w \<Longrightarrow> at_work cfg t w"
    and p: "\<And>w. sys_inv cfg url_ok w \<Longrightarrow> F w \<Longrightarrow>
      \<exists>n. notif_row (w_store w) (t_notification_id t) = Some n \<and> n_payload n = payload"
    and total: "config_total cfg"
  shows "sys_rg cfg url_ok (deliver (prod_worker url_ok cfg) t payload) F (\<lambda>_ _. True)"
proof (cases "cp_vendor_config cfg (t_vendor_id t)")
  case (Inl e)
  then show ?thesis unfolding deliver_def using rg_dead_letter [OF F a] by simp
next
  case (Inr v)
  with total obtain vc where vc: "cp_vendor_config cfg (t_vendor_id t) = Inr (Some vc)"
    unfolding config_total_def by (metis option.exhaust)
  obtain r where r: "cp_delivery_spec cfg (t_vendor_id t) (t_event_type t) = Ret r" "r \<noteq> Inr None"
    using total unfolding config_total_def by blast
  show ?thesis
  proof (cases r)
    case (Inl e)
    with vc r show ?thesis unfolding deliver_def using rg_dead_letter [OF F a] by simp
  next
    case (Inr found)
    with r obtain spec where spec: "cp_delivery_spec cfg (t_vendor_id t) (t_event_type t) = Ret (Inr (Some spec))"
      by (cases found) auto
    let ?b = "build_request url_ok (Some vc) (Some (ds_mapping spec)) payload"
    have nn: "?b \<noteq> Inr None" by (auto simp: build_request_def Let_def split: sum.splits)
    have "request_for cfg url_ok w t req" if "?b = Inr (Some req)" "sys_inv cfg url_ok w" "F w" for w req
      using p [OF that(2,3)] that(1) vc spec unfolding request_for_def by blast
    with vc spec nn show ?thesis
      unfolding deliver_def using rg_retry [OF F a vc spec] rg_send [OF F a vc spec]
      by (auto simp: Let_def split: sum.split option.split)
  qed
qed

lemma rg_process_message:
  assumes "sys_stable cfg url_ok F" "config_total cfg" "\<And>w. sys_inv cfg url_ok w \<Longrightarrow> F w \<Longrightarrow> open_task w i"
  shows "sys_rg cfg url_ok (process_message (prod_worker url_ok cfg) i) F (\<lambda>_ _. True)"
  unfolding process_message_def prod_worker_simps pg_client_def db_client.simps
proof (rule sys.rg_gives [OF rg_get_task [OF assms(1,3)]])
  fix t
  let ?G = "\<lambda>w. F w \<and> at_work cfg t w"
  let ?K = "\<lambda>p w. \<exists>n. notif_row (w_store w) (t_notification_id t) = Some n \<and> n_payload n = p"
  have G: "sys_stable cfg url_ok ?G" by (intro sys.stable_conj at_work_stable assms(1))
  have n: "notif_row (w_store w) (t_notification_id t) \<noteq> None" if "?G w" for w
    using that by (auto simp: at_work_def open_task_def same_task_def)
  have K: "sys_stable cfg url_ok (?K p)" for p
    by (rule stableI) (fastforce dest: evolvesD(1) simp: same_notif_def)
  show "sys_rg cfg url_ok (try_call (pg_get_payload (t_notification_id t))
      (\<lambda>e. Ret (Some (Errorf ''get notification payload: %w'' [ArgErr e])))
      (\<lambda>payload. deliver (prod_worker url_ok cfg) t payload)) ?G (\<lambda>_ _. True)"
    using n by (intro sys.rg_gives [OF rg_get_payload [OF G]] sys.rg_done rg_deliver sys.stable_conj G K assms(2)) auto
qed simp_all

lemma rg_handle_delivery:
  assumes "sys_stable cfg url_ok F" "config_total cfg"
    and "\<And>w i v. sys_inv cfg url_ok w \<Longrightarrow> F w \<Longrightarrow> decode_delivery body = Some (i, v) \<Longrightarrow> open_task w i"
  shows "sys_rg cfg url_ok (handle_delivery (prod_worker url_ok cfg) body) F (\<lambda>_ _. True)"
  unfolding handle_delivery_def using assms
  by (auto intro!: sys.rg_bind [OF rg_process_message] split: option.split prod.split)

section \<open>The dispatcher\<close>

definition prod_dispatcher :: "config_provider \<Rightarrow> dispatcher_deps" where
  "prod_dispatcher cfg = \<lparr>dd_db = pg_client, dd_mq = rmq_client, dd_config = cfg\<rparr>"

text \<open>A task inserted for the notification \<open>nid\<close>.\<close>

definition created :: "string \<Rightarrow> delivery_task \<Rightarrow> world \<Rightarrow> bool" where
  "created nid t w \<longleftrightarrow> ascii (t_id t) \<and> ascii (t_vendor_id t) \<and>
     (\<exists>t'. task_row (w_store w) (t_id t) = Some t' \<and> t_notification_id t' = nid)"

lemma created_mono: "evolves w w' \<Longrightarrow> created nid t w \<Longrightarrow> created nid t w'"
  by (auto simp: created_def same_task_def dest: evolvesD(2))

lemma created_stable: "sys_stable cfg url_ok (\<lambda>w. \<forall>t \<in> set ts. created nid t w)"
  by (rule stableI) (blast intro: created_mono)

lemma rg_insert_task:
  assumes F: "sys_stable cfg url_ok F" and v: "ascii v"
    and n: "\<And>w. sys_inv cfg url_ok w \<Longrightarrow> F w \<Longrightarrow> notif_row (w_store w) nid \<noteq> None"
  shows "sys_rg cfg url_ok (ask (Sql (Insert_Task nid v ev)) scan_task) F (sys.gives F (created nid))"
proof (intro rg_sql sys.stable_gives F)
  show "sys_stable cfg url_ok (created nid t)" for t
    using created_mono by (intro stableI) blast
next
  fix w r s
  assume w: "sys_inv cfg url_ok w" "F w" and e: "sql (Insert_Task nid v ev) (w_store w) = (r, s)"
  obtain x where "notif_row (w_store w) nid = Some x" using n [OF w] by blast
  from e uuid_notif [OF w(1) this] have "sql_insert_task nid v ev (w_store w) = (r, s)" by (simp add: with_uuid_def)
  note step = inv_insert_task [OF w(1) v this]
  then have "created nid t (w\<lparr>w_store := s\<rparr>)" if "scan_task r = Inr t" for t
    using that by (cases r) (auto simp: created_def)
  with step stableD [OF F w(1) _ _ w(2)]
  show "sys_inv cfg url_ok (w\<lparr>w_store := s\<rparr>) \<and> evolves w (w\<lparr>w_store := s\<rparr>) \<and>
      sys.gives F (created nid) (scan_task r) (w\<lparr>w_store := s\<rparr>)"
    by (auto simp: sys.gives_def)
qed (simp_all add: sys.gives_def)

lemma rg_insert_tasks:
  assumes F: "sys_stable cfg url_ok F" and vs: "\<forall>v \<in> set vs. ascii v"
    and n: "\<And>w. sys_inv cfg url_ok w \<Longrightarrow> F w \<Longrightarrow> notif_row (w_store w) nid \<noteq> None"
  shows "sys_rg cfg url_ok (pg_insert_tasks nid ev vs ts) (\<lambda>w. F w \<and> (\<forall>t \<in> set ts. created nid t w))
           (sys.gives F (\<lambda>ts w. \<forall>t \<in> set ts. created nid t w))"
  using vs
proof (induction vs arbitrary: ts)
  case Nil
  then show ?case by simp
next
  case (Cons v vs)
  have G: "sys_stable cfg url_ok (\<lambda>w. F w \<and> (\<forall>t \<in> set ts. created nid t w))"
    by (intro sys.stable_conj F created_stable)
  have "sys_rg cfg url_ok (pg_insert_tasks nid ev vs (ts @ [t]))
      (\<lambda>w. (F w \<and> (\<forall>t \<in> set ts. created nid t w)) \<and> created nid t w)
      (sys.gives F (\<lambda>ts w. \<forall>t \<in> set ts. created nid t w))" for t
    using Cons.IH [of "ts @ [t]"] Cons.prems by (auto elim!: sys.rg_conseq)
  with Cons.prems n show ?case
    by (auto intro!: sys.rg_gives [OF rg_insert_task [OF G]])
qed

lemma rg_create_tasks:
  assumes "sys_stable cfg url_ok F" "\<forall>v \<in> set vs. ascii v"
    and "\<And>w. sys_inv cfg url_ok w \<Longrightarrow> F w \<Longrightarrow> notif_row (w_store w) nid \<noteq> None"
  shows "sys_rg cfg url_ok (pg_create_tasks nid vs) F (sys.gives F (\<lambda>ts w. \<forall>t \<in> set ts. created nid t w))"
  unfolding pg_create_tasks_def
  using rg_insert_tasks [OF assms, of _ "[]"] by (intro sys.rg_try_frame rg_query_frame assms(1)) simp_all

lemma rg_publish_tasks:
  assumes "sys_stable cfg url_ok F"
    and "\<And>w t. sys_inv cfg url_ok w \<Longrightarrow> F w \<Longrightarrow> t \<in> set ts \<Longrightarrow> open_task w (t_id t)"
    and "\<And>t. t \<in> set ts \<Longrightarrow> ascii (t_id t) \<and> ascii (t_vendor_id t)"
  shows "sys_rg cfg url_ok (publish_tasks (prod_dispatcher cfg) ts) F (\<lambda>_ _. True)"
  using assms(2,3)
proof (induction ts)
  case (Cons t ts)
  then show ?case
    by (auto simp: prod_dispatcher_def rmq_client_def intro!: sys.rg_check_frame [OF rg_publish_delivery] assms(1))
qed simp

lemma rg_fan_out:
  assumes F: "sys_stable cfg url_ok F" and rules: "\<forall>r \<in> set rules. ascii (rl_vendor_id r)"
    and n: "\<And>w. sys_inv cfg url_ok w \<Longrightarrow> F w \<Longrightarrow> notif_row (w_store w) nid \<noteq> None"
  shows "sys_rg cfg url_ok (fan_out (prod_dispatcher cfg) nid rules) F (\<lambda>_ _. True)"
proof -
  have p: "sys_rg cfg url_ok (publish_tasks (prod_dispatcher cfg) ts)
      (\<lambda>w. (F w \<and> (\<forall>t \<in> set ts. created nid t w)) \<and> left_pending nid w) (\<lambda>_ _. True)" (is "sys_rg _ _ _ ?G _") for ts
  proof (cases "\<exists>w. sys_inv cfg url_ok w \<and> ?G w")
    case True
    then show ?thesis
      by (intro rg_publish_tasks sys.stable_conj F created_stable left_pending_stable)
        (auto simp: created_def left_pending_def open_task_def)
  next
    case False
    then show ?thesis by (intro sys.rg_absurd) blast
  qed
  have c: "sys_rg cfg url_ok (pg_create_tasks nid (map rl_vendor_id rules)) F
      (sys.gives F (\<lambda>ts w. \<forall>t \<in> set ts. created nid t w))"
    using rules n by (intro rg_create_tasks F) auto
  have l: "sys_rg cfg url_ok (pg_update_notification_status nid ''DELIVERING'')
      (\<lambda>w. F w \<and> (\<forall>t \<in> set ts. created nid t w))
      (sys.clears (\<lambda>w. F w \<and> (\<forall>t \<in> set ts. created nid t w)) (left_pending nid))" for ts
    using n by (intro rg_leave_pending sys.stable_conj F created_stable) auto
  show ?thesis
    unfolding fan_out_def
    by (rule sys.rg_gives [OF _ _ sys.rg_clears]) (use c l p in \<open>auto simp: prod_dispatcher_def pg_client_def\<close>)
qed

lemma rg_dispatch:
  assumes F: "sys_stable cfg url_ok F" and cfg: "ascii_vendors cfg"
    and n: "\<And>w. sys_inv cfg url_ok w \<Longrightarrow> F w \<Longrightarrow> notif_row (w_store w) nid \<noteq> None"
  shows "sys_rg cfg url_ok (dispatch (prod_dispatcher cfg) nid) F (\<lambda>_ _. True)"
proof -
  have r: "\<forall>r \<in> set (matched_rules (prod_dispatcher cfg) ev). ascii (rl_vendor_id r)" for ev
    using cfg by (cases "cp_routing_rules cfg ev") (auto simp: matched_rules_def prod_dispatcher_def ascii_vendors_def)
  have u: "sys_rg cfg url_ok (db_update_notification_status (dd_db (prod_dispatcher cfg)) nid ''FAILED'') F (\<lambda>_. F)"
    using rg_update_notif_status [OF F] by (simp add: prod_dispatcher_def pg_client_def)
  have g: "sys_rg cfg url_ok (db_get_notification (dd_db (prod_dispatcher cfg)) nid) F (\<lambda>_. F)"
    unfolding prod_dispatcher_def pg_client_def dispatcher_deps.simps db_client.simps pg_get_notification_def
    by (intro sys.rg_wrap_err_frame rg_query_frame F) simp
  show ?thesis
    unfolding dispatch_def using rg_fan_out [OF F r n] F
    by (auto intro!: sys.rg_try_frame [OF g] sys.rg_check_frame [OF u] simp: Let_def)
qed

section \<open>The HTTP handlers\<close>

definition prod_service :: "config_provider \<Rightarrow> service" where
  "prod_service cfg = \<lparr>sv_db = pg_client, sv_mq = rmq_client, sv_config = cfg\<rparr>"

lemma rg_get_by_id:
  assumes "sys_stable cfg url_ok F"
  shows "sys_rg cfg url_ok (get_by_id (prod_service cfg) i) F (\<lambda>_. F)"
  unfolding get_by_id_def prod_service_def service.simps pg_client_def db_client.simps pg_get_notification_def
  by (intro sys.rg_wrap_err_frame rg_query_frame assms) simp

lemma rg_upsert:
  assumes F: "sys_stable cfg url_ok F"
  shows "sys_rg cfg url_ok (pg_upsert_notification p) F (sys.gives F (\<lambda>(i, b) w. notif_row (w_store w) i \<noteq> None))"
  unfolding pg_upsert_notification_def
proof (intro sys.rg_wrap_gives rg_sql sys.stable_gives F)
  show "sys_stable cfg url_ok (case y of (i, b) \<Rightarrow> \<lambda>w. notif_row (w_store w) i \<noteq> None)" for y :: "string \<times> bool"
    by (cases y) (simp only: prod.case has_notif_stable)
next
  fix w r s
  assume w: "sys_inv cfg url_ok w" "F w" and e: "sql (Upsert_Notification p) (w_store w) = (r, s)"
  have "sql_upsert p (w_store w) = (r, s)" using e by simp
  note step = inv_upsert [OF w(1) this]
  with stableD [OF F w(1) _ _ w(2)]
  show "sys_inv cfg url_ok (w\<lparr>w_store := s\<rparr>) \<and> evolves w (w\<lparr>w_store := s\<rparr>) \<and>
      sys.gives F (\<lambda>(i, b) w. notif_row (w_store w) i \<noteq> None) (scan_upsert r) (w\<lparr>w_store := s\<rparr>)"
    by (cases r) (auto simp: sys.gives_def)
qed (simp_all add: sys.gives_def)

lemma rg_accept: "sys_rg cfg url_ok (accept (prod_service cfg) p) (\<lambda>_. True) (\<lambda>_ _. True)"
proof -
  have "sys_rg cfg url_ok (bind (rmq_publish_trigger i) (\<lambda>_. get_by_id (prod_service cfg) i))
      (\<lambda>w. notif_row (w_store w) i \<noteq> None) (\<lambda>_ _. True)" for i
    by (intro sys.rg_seq [OF rg_publish_trigger [OF has_notif_stable]]
        sys.rg_conseq [OF rg_get_by_id [OF has_notif_stable]]) simp_all
  moreover have "sys_rg cfg url_ok (get_by_id (prod_service cfg) i)
      (\<lambda>w. notif_row (w_store w) i \<noteq> None) (\<lambda>_ _. True)" for i
    by (rule sys.rg_conseq [OF rg_get_by_id [OF has_notif_stable]]) simp_all
  ultimately show ?thesis
    unfolding accept_def prod_service_def service.simps pg_client_def db_client.simps rmq_client_def mq_client.simps
    by (intro sys.rg_gives [OF rg_upsert]) (auto simp: prod_service_def pg_client_def rmq_client_def)
qed

lemma rg_ingest: "sys_rg cfg url_ok (fst (ingest (prod_service cfg) env rb cache body)) (\<lambda>_. True) (\<lambda>_ _. True)"
proof -
  have "sys_rg cfg url_ok (bind (fst (submit (prod_service cfg) cache p)) f) (\<lambda>_. True) (\<lambda>_ _. True)"
    if "\<And>x. \<exists>y. f x = Ret y" for p and f :: "go_error + notification \<Rightarrow> api_response prog"
  proof (rule sys.rg_bind)
    show "sys_rg cfg url_ok (fst (submit (prod_service cfg) cache p)) (\<lambda>_. True) (\<lambda>_ _. True)"
      by (auto simp: submit_def rg_accept split: prod.split option.split)
    show "sys_rg cfg url_ok (f x) (\<lambda>_. True) (\<lambda>_ _. True)" for x using that [of x] by auto
  qed
  then show ?thesis
    unfolding ingest_def by (auto simp: case_prod_beta split: option.split)
qed

lemma rg_get_status: "sys_rg cfg url_ok (get_status (prod_service cfg) env i) (\<lambda>_. True) (\<lambda>_ _. True)"
proof -
  have "sys_rg cfg url_ok (get_delivery_tasks (prod_service cfg) j) (\<lambda>_. True) (\<lambda>_ _. True)" for j
    unfolding get_delivery_tasks_def prod_service_def service.simps pg_client_def db_client.simps pg_get_tasks_def
    by (intro sys.rg_wrap_err_frame rg_query_frame) simp_all
  then show ?thesis
    unfolding get_status_def
    by (auto intro!: sys.rg_try_frame [OF rg_get_by_id] sys.rg_seq)
qed

text \<open>The page size is at least one after the clamping, so the division is safe.\<close>

lemma rg_total_pages: "psize \<noteq> 0 \<Longrightarrow> sys_rg cfg url_ok (bind (total_pages cnt psize) (\<lambda>n. Ret (f n))) F (\<lambda>_ _. True)"
  by (simp add: total_pages_def Let_def)

lemma rg_list: "sys_rg cfg url_ok (list_notifications (prod_service cfg) env c ev pg sz) (\<lambda>_. True) (\<lambda>_ _. True)"
proof -
  have l: "sys_rg cfg url_ok (list_service (prod_service cfg) c ev p z) (\<lambda>_. True) (\<lambda>_ _. True)" for p z
    unfolding list_service_def prod_service_def service.simps pg_client_def db_client.simps pg_list_notifications_def Let_def
    by (intro sys.rg_try_frame rg_query_frame sys.rg_done) simp_all
  show ?thesis
    unfolding list_notifications_def Let_def
    by (intro sys.rg_try_frame [OF l]) (auto intro!: rg_total_pages split: prod.split if_splits)
qed

section \<open>The running service\<close>

text \<open>
  The environment may let time pass, change the event schemas, and decide how the following statements
  and publications end, what the vendors answer and which random numbers are drawn.
\<close>

inductive environment :: "world \<Rightarrow> world \<Rightarrow> bool" where
  "st_now (w_store w) \<le> now \<Longrightarrow> w_clock w \<le> clk \<Longrightarrow>
   environment w (w\<lparr>w_store := (w_store w)\<lparr>st_now := now, st_faults := sql_faults, st_schemas := schemas\<rparr>,
     w_mq_faults := mq_faults, w_vendors := replies, w_clock := clk, w_random := randoms\<rparr>)"

text \<open>
  Goroutines start at any time: a handler for any request, a dispatcher for any trigger message ever
  published, a worker for any delivery message ever published, to either exchange, any number of times.
\<close>

definition goroutine :: "'a prog \<Rightarrow> unit prog" where
  "goroutine p = bind p (\<lambda>_. Ret ())"

inductive starts :: "config_provider \<Rightarrow> (string \<Rightarrow> bool) \<Rightarrow> world \<Rightarrow> unit prog \<Rightarrow> bool" for cfg url_ok w where
  ingest_request: "starts cfg url_ok w (goroutine (fst (ingest (prod_service cfg) env rb cache body)))"
| status_request: "starts cfg url_ok w (goroutine (get_status (prod_service cfg) env i))"
| list_request: "starts cfg url_ok w (goroutine (list_notifications (prod_service cfg) env c ev pg sz))"
| trigger: "(trigger_exchange, k, m) \<in> set (w_published w) \<Longrightarrow>
    starts cfg url_ok w (goroutine (dispatch (prod_dispatcher cfg) (pb_body m)))"
| delivery: "(e, k, m) \<in> set (w_published w) \<Longrightarrow> e = delivery_exchange \<or> e = dlx_exchange \<Longrightarrow>
    starts cfg url_ok w (goroutine (handle_delivery (prod_worker url_ok cfg) (pb_body m)))"

definition fresh_world :: "world \<Rightarrow> bool" where
  "fresh_world w \<longleftrightarrow> st_notifs (w_store w) = [] \<and> st_tasks (w_store w) = [] \<and> w_published w = [] \<and>
     ids_ok (w_store w)"

definition runs :: "config_provider \<Rightarrow> (string \<Rightarrow> bool) \<Rightarrow> world \<Rightarrow> world system \<Rightarrow> bool" where
  "runs cfg url_ok w0 s \<longleftrightarrow>
     fresh_world w0 \<and> ascii_vendors cfg \<and> config_total cfg \<and> reachable exec_world environment (starts cfg url_ok) w0 s"

lemma sys_rg_goroutine:
  "sys_rg cfg url_ok p P (\<lambda>_ _. True) \<Longrightarrow> sys_rg cfg url_ok (goroutine p) P (\<lambda>_ _. True)"
  unfolding goroutine_def by (erule sys.rg_bind) simp

lemma safe_goroutine:
  "sys_stable cfg url_ok P \<Longrightarrow> P w \<Longrightarrow> sys_rg cfg url_ok p P (\<lambda>_ _. True) \<Longrightarrow>
   shared_world.safe_thread exec_world (sys_inv cfg url_ok) evolves w (goroutine p)"
  unfolding sys.safe_thread_def using sys_rg_goroutine by blast

lemma start_safe:
  assumes inv: "sys_inv cfg url_ok w" and st: "starts cfg url_ok w p"
  shows "shared_world.safe_thread exec_world (sys_inv cfg url_ok) evolves w p"
  using st
proof cases
  case ingest_request
  then show ?thesis using safe_goroutine [OF sys.stable_True TrueI rg_ingest] by simp
next
  case status_request
  then show ?thesis using safe_goroutine [OF sys.stable_True TrueI rg_get_status] by simp
next
  case list_request
  then show ?thesis using safe_goroutine [OF sys.stable_True TrueI rg_list] by simp
next
  case (trigger k m)
  have "notif_row (w_store w) (pb_body m) \<noteq> None"
    using sys_invD(6) [OF inv trigger(2)] by (simp add: sound_message_def)
  then show ?thesis
    unfolding trigger(1)
    by (rule safe_goroutine [OF has_notif_stable _ rg_dispatch [OF has_notif_stable sys_invD(4) [OF inv]]])
next
  case (delivery e k m)
  then obtain i v where d: "decode_delivery (pb_body m) = Some (i, v)" "open_task w i"
    using sys_invD(6) [OF inv delivery(2)] by (auto simp: sound_message_def)
  have o: "sys_stable cfg url_ok (\<lambda>w. open_task w i)" by (rule stableI) (rule open_task_mono)
  show ?thesis
    unfolding delivery(1)
    by (rule safe_goroutine [OF o d(2) rg_handle_delivery [OF o sys_invD(7) [OF inv]]]) (simp add: d(1))
qed

lemma environment_inv:
  assumes "sys_inv cfg url_ok w" "environment w w'"
  shows "sys_inv cfg url_ok w' \<and> evolves w w'"
  using assms(2)
proof cases
  case (1 now clk sql_faults schemas mq_faults replies randoms)
  then show ?thesis by (intro inv_same_data [OF assms(1)]) simp_all
qed

lemma fresh_inv: "fresh_world w \<Longrightarrow> ascii_vendors cfg \<Longrightarrow> config_total cfg \<Longrightarrow> sys_inv cfg url_ok w"
  by (simp add: fresh_world_def sys_inv_def wf_store_def uuid_ok_def)

theorem runs_safe:
  assumes "runs cfg url_ok w0 s"
  shows "sys_inv cfg url_ok (sy_world s) \<and>
         (\<forall>p \<in> set (sy_threads s). shared_world.safe_thread exec_world (sys_inv cfg url_ok) evolves (sy_world s) p)"
proof -
  from assms have f: "sys_inv cfg url_ok w0" and r: "reachable exec_world environment (starts cfg url_ok) w0 s"
    by (simp_all add: runs_def fresh_inv)
  show ?thesis by (rule sys.reachable_safe [OF f environment_inv start_safe r])
qed

lemmas runs_inv = runs_safe [THEN conjunct1]

end
