(* ===== verification/Worker_Props.thy ===== *)
theory Worker_Props
  imports World
begin

text \<open>
  The properties of the delivery worker: the outcome of one delivery on a healthy world, and what holds
  however the database, the broker and the vendors fail.
\<close>

section \<open>The outcome of a delivery\<close>

lemma process_outcome:
  assumes "healthy_world w" "t \<in> set (st_tasks (w_store w))" "in_i32 (t_retry_count t + 1)"
    and "n \<in> set (st_notifs (w_store w))" "n_id n = t_notification_id t" "config_total cfg"
    and "decide cfg (build_request url_ok) t (n_payload n) (next_vendor_reply w) = (v, reqs)"
  shows "\<exists>w' delays. run exec_world (process_message (prod_worker url_ok cfg) (t_id t)) w = (Inr None, w') \<and>
           healthy_world w' \<and> settled_by delayed_message v t delays reqs (world_view w) (world_view w') \<and>
           (delays \<noteq> [] \<longleftrightarrow> (\<exists>e. v = Retry e)) \<and> length delays \<le> 1"
proof -
  have "build_request url_ok (Some vc) (Some mc) p \<noteq> Inr None" for vc mc p
    by (auto simp: build_request_def Let_def split: sum.splits)
  then show ?thesis
    using pg_worker.process_message_spec [of w t n url_ok cfg] assms by (simp add: world_view_def)
qed

text \<open>C11
  Processing a delivery message while nothing fails, under a configuration whose getters return a value or
  an error (as those of the loader do): the worker acknowledges it, and the database, the
  notification's status, the vendor's requests and the published messages change exactly as the decision
  table says. A missing vendor or mapping buries the task; a request that cannot be built, a transport
  error, a 5xx or a 429 is retried while attempts remain and buries the task otherwise; a 2xx succeeds; any
  other status buries. A retry publishes one delayed message for the task, nothing else does.\<close>

theorem worker_outcome:
  assumes "healthy_world w" "t \<in> set (st_tasks (w_store w))" "in_i32 (t_retry_count t + 1)"
    and "n \<in> set (st_notifs (w_store w))" "n_id n = t_notification_id t" "config_total cfg"
    and "decide cfg (build_request url_ok) t (n_payload n) (next_vendor_reply w) = (v, reqs)"
  shows "\<exists>w' delays. run exec_world (process_message (prod_worker url_ok cfg) (t_id t)) w = (Inr None, w') \<and>
           healthy_world w' \<and> settled_by delayed_message v t delays reqs (world_view w) (world_view w') \<and>
           (delays \<noteq> [] \<longleftrightarrow> (\<exists>e. v = Retry e)) \<and> length delays \<le> 1"
  using assms by (rule process_outcome)

definition demo_notif :: notification where
  "demo_notif = \<lparr>n_id = ''n1'', n_shard_id = 0, n_caller_id = ''system'', n_idempotent_key = ''k1'',
     n_event_type = ''user.created'', n_payload = Some [(''id'', VInt 7)], n_status = ''DELIVERING'',
     n_created_at = 0, n_updated_at = 0\<rparr>"

definition demo_task :: delivery_task where
  "demo_task = new_task ''t1'' ''n1'' ''crm'' ''user.created'' 0"

definition demo_config :: config_provider where
  "demo_config = \<lparr>
     cp_vendor_config = (\<lambda>v. if v = ''crm'' then Inr (Some \<lparr>vc_vendor_id = ''crm'', vc_base_url = ''http://crm'',
         vc_auth = None, vc_retry = \<lparr>rp_max_attempts = 3, rp_base_delay_ms = 100, rp_max_delay_ms = 1000,
         rp_multiplier = Fin 2, rp_jitter = Fin 0\<rparr>,
         vc_judgment = \<lparr>rj_success_rules = [], rj_retryable_rules = []\<rparr>\<rparr>) else Inl ErrNotConfigured),
     cp_delivery_spec = (\<lambda>v e. Ret (Inr (Some \<lparr>ds_mapping = \<lparr>mc_event_type = e,
         mc_request = \<lparr>rq_method = ''POST'', rq_path = ''/u'', rq_headers = []\<rparr>,
         mc_body = \<lparr>bc_type = ''none'', bc_template = None\<rparr>\<rparr>, ds_judgment = None, ds_retry = None\<rparr>))),
     cp_routing_rules = (\<lambda>e. Inr [\<lparr>rl_event_type = e, rl_vendor_id = ''crm''\<rparr>]),
     cp_event_schema = (\<lambda>e. Inr (0, [(''type'', VStr ''object'')]))\<rparr>"

definition demo_store :: "notification list \<Rightarrow> delivery_task list \<Rightarrow> store" where
  "demo_store ns ts = \<lparr>st_notifs = ns, st_tasks = ts, st_schemas = [], st_now = 5,
     st_ids = (\<lambda>k. ''u'' @ show_int (int k)), st_drawn = 0, st_uuid = Some, st_faults = []\<rparr>"

definition demo_world :: "notification list \<Rightarrow> delivery_task list \<Rightarrow> (go_error + int \<times> string) list \<Rightarrow> world" where
  "demo_world ns ts replies = \<lparr>w_store = demo_store ns ts, w_published = [], w_mq_faults = [],
     w_vendors = replies, w_requests = [], w_clock = 1000000, w_random = []\<rparr>"

lemma demo_healthy:
  "healthy_world (demo_world [demo_notif] [demo_task] rs)"
  by (simp add: healthy_world_def wf_store_def uuid_ok_def demo_world_def demo_store_def demo_notif_def
      demo_task_def new_task_def notif_statuses_def task_statuses_def)

definition demo_req :: http_request where
  "demo_req = \<lparr>hr_method = ''POST'', hr_url = ''http://crm/u'', hr_header = [], hr_body = None\<rparr>"

lemma demo_config_total: "config_total demo_config"
  by (simp add: config_total_def demo_config_def)

lemma demo_decide:
  "decide demo_config (build_request (\<lambda>_. True)) demo_task (Some [(''id'', VInt 7)]) (Inr (503, ''busy'')) =
   (Retry (Status_Line ''busy''), [demo_req])"
  by code_simp

theorem worker_outcome_witness:
  "\<exists>w'. run exec_world (process_message (prod_worker (\<lambda>_. True) demo_config) ''t1'')
          (demo_world [demo_notif] [demo_task] [Inr (503, ''busy'')]) = (Inr None, w') \<and>
     map t_retry_count (st_tasks (w_store w')) = [1] \<and> map fst (w_requests w') = [demo_req] \<and>
     length (w_published w') = 1"
proof -
  let ?w = "demo_world [demo_notif] [demo_task] [Inr (503, ''busy'')]"
  have d: "decide demo_config (build_request (\<lambda>_. True)) demo_task (n_payload demo_notif) (next_vendor_reply ?w) =
      (Retry (Status_Line ''busy''), [demo_req])"
    using demo_decide by (simp add: demo_notif_def next_vendor_reply_def demo_world_def)
  have id: "t_id demo_task = ''t1''" by (simp add: demo_task_def new_task_def)
  have h: "demo_task \<in> set (st_tasks (w_store ?w))" "in_i32 (t_retry_count demo_task + 1)"
    "demo_notif \<in> set (st_notifs (w_store ?w))" "n_id demo_notif = t_notification_id demo_task"
    by (simp_all add: demo_world_def demo_store_def demo_task_def demo_notif_def new_task_def in_i32_def)
  from worker_outcome [OF demo_healthy h demo_config_total d, unfolded id] obtain w' delays where
    r: "run exec_world (process_message (prod_worker (\<lambda>_. True) demo_config) ''t1'') ?w = (Inr None, w')"
    and s: "settled_by delayed_message (Retry (Status_Line ''busy'')) demo_task delays [demo_req]
      (world_view ?w) (world_view w')" and l: "delays \<noteq> []" "length delays \<le> 1"
    by blast
  from s have "map t_retry_count (map strip_task (st_tasks (w_store w'))) = [1]"
    by (simp add: settled_by_def world_view_def settle_tasks_def demo_world_def demo_store_def strip_task_def
        demo_task_def new_task_def)
  then have "map t_retry_count (st_tasks (w_store w')) = [1]" by (simp add: strip_task_def comp_def)
  moreover from s have "map fst (w_requests w') = [demo_req]"
    by (simp add: settled_by_def world_view_def demo_world_def)
  moreover from s have "length (w_published w') = length delays"
    by (simp add: settled_by_def world_view_def demo_world_def)
  moreover have "length delays = 1" using l by (cases delays) auto
  ultimately show ?thesis using r by auto
qed

section \<open>A redelivered message\<close>

lemma strip_fields [simp]:
  "t_id (strip_task t) = t_id t" "t_status (strip_task t) = t_status t"
  "t_notification_id (strip_task t) = t_notification_id t" "n_id (strip_notif n) = n_id n"
  "n_status (strip_notif n) = n_status n"
  by (simp_all add: strip_task_def strip_notif_def)

lemma set_status_fields: "n_id (n\<lparr>n_status := st\<rparr>) = n_id n" "n_status (n\<lparr>n_status := st\<rparr>) = st"
  by simp_all

lemma settled_statuses:
  assumes "map strip_task ts' = settle_tasks (Bury e) t ts"
  shows "map (\<lambda>x. (t_id x, t_notification_id x, t_status x)) ts' =
     map (\<lambda>x. (t_id x, t_notification_id x, if t_id x = t_id t then ''DEAD_LETTER'' else t_status x)) ts"
proof -
  have "map (\<lambda>x. (t_id x, t_notification_id x, t_status x)) ts' =
      map (\<lambda>x. (t_id x, t_notification_id x, t_status x)) (map strip_task ts')" by simp
  then show ?thesis unfolding assms settle_tasks_def by simp
qed

text \<open>C8
  \<open>ProcessMessage\<close> never looks at a task's status. Delivery is at least once, so a message may be handled
  again after its task has succeeded: nothing failing, the request is sent once more, and when the vendor
  now refuses it (a status that is neither 2xx nor retried), the succeeded task becomes \<open>DEAD_LETTER\<close>, and
  a notification whose other tasks are settled becomes \<open>FAILED\<close> or \<open>PARTIALLY_FAILED\<close>, although the
  vendor had accepted the request. (The configuration's getters return a value or an error, and the retry
  count is below the limit of its 32-bit column.)\<close>

theorem redelivery_undoes_success:
  assumes w: "healthy_world w" "t \<in> set (st_tasks (w_store w))" "t_status t = ''SUCCEEDED''" "in_i32 (t_retry_count t + 1)"
    and n: "n \<in> set (st_notifs (w_store w))" "n_id n = t_notification_id t"
    and cfg: "config_total cfg" "cp_vendor_config cfg (t_vendor_id t) = Inr (Some vc)"
      "cp_delivery_spec cfg (t_vendor_id t) (t_event_type t) = Ret (Inr (Some spec))"
      "build_request url_ok (Some vc) (Some (ds_mapping spec)) (n_payload n) = Inr (Some req)"
    and reply: "next_vendor_reply w = Inr (code, status)" "\<not> is_http_success code" "\<not> is_http_retryable code"
    and others: "\<forall>x \<in> set (tasks_of (w_store w) (n_id n)). t_status x \<in> {''SUCCEEDED'', ''DEAD_LETTER''}"
  shows "\<exists>w'. run exec_world (process_message (prod_worker url_ok cfg) (t_id t)) w = (Inr None, w') \<and>
     map fst (w_requests w') = map fst (w_requests w) @ [req] \<and>
     (\<exists>t' \<in> set (st_tasks (w_store w')). t_id t' = t_id t \<and> t_status t' = ''DEAD_LETTER'') \<and>
     (\<exists>n' \<in> set (st_notifs (w_store w')). n_id n' = n_id n \<and> n_status n' \<in> {''FAILED'', ''PARTIALLY_FAILED''})"
proof -
  have d: "decide cfg (build_request url_ok) t (n_payload n) (next_vendor_reply w) = (Bury (Status_Line status), [req])"
    using cfg reply by (simp add: decide_def judge_def is_http_success_def is_http_retryable_def)
  from process_outcome [OF w(1,2,4) n cfg(1) d] obtain w' delays where
    r: "run exec_world (process_message (prod_worker url_ok cfg) (t_id t)) w = (Inr None, w')"
    and s: "settled_by delayed_message (Bury (Status_Line status)) t delays [req] (world_view w) (world_view w')" by blast
  let ?ts = "st_tasks (w_store w)" and ?ts' = "st_tasks (w_store w')" and ?ns = "st_notifs (w_store w)"
  have m: "map (\<lambda>x. (t_id x, t_notification_id x, t_status x)) ?ts' =
      map (\<lambda>x. (t_id x, t_notification_id x, if t_id x = t_id t then ''DEAD_LETTER'' else t_status x)) ?ts"
    using s by (intro settled_statuses) (simp add: settled_by_def world_view_def)
  have "(t_id t, t_notification_id t, ''DEAD_LETTER'') \<in> set (map (\<lambda>x. (t_id x, t_notification_id x, t_status x)) ?ts')"
    unfolding m using w(2) by force
  then obtain t' where t': "t' \<in> set ?ts'" "t_id t' = t_id t" "t_notification_id t' = n_id n" "t_status t' = ''DEAD_LETTER''"
    using n(2) by auto
  let ?mine = "filter (\<lambda>x. t_notification_id x = t_notification_id t) ?ts'"
  have all: "t_status x \<in> {''SUCCEEDED'', ''DEAD_LETTER''}" if "x \<in> set ?mine" for x
  proof -
    have "(t_id x, t_notification_id x, t_status x) \<in> set (map (\<lambda>x. (t_id x, t_notification_id x, t_status x)) ?ts')"
      using that by force
    then obtain y where y: "y \<in> set ?ts" "(t_id x, t_notification_id x, t_status x) =
        (t_id y, t_notification_id y, if t_id y = t_id t then ''DEAD_LETTER'' else t_status y)"
      unfolding m set_map by blast
    with that n(2) have "y \<in> set (tasks_of (w_store w) (n_id n))" by (simp add: tasks_of_def)
    with others y(2) show ?thesis by auto
  qed
  have "\<not> (\<forall>x \<in> set ?mine. t_status x = ''SUCCEEDED'')"
  proof
    assume "\<forall>x \<in> set ?mine. t_status x = ''SUCCEEDED''"
    then have "t_status t' = ''SUCCEEDED''" by (rule bspec) (use t' n(2) in simp)
    with t'(4) show False by simp
  qed
  moreover have "\<forall>x \<in> set ?mine. t_status x = ''SUCCEEDED'' \<or> t_status x = ''DEAD_LETTER''" using all by blast
  ultimately have "final_status ?mine =
      Some (if \<forall>x \<in> set ?mine. t_status x = ''DEAD_LETTER'' then ''FAILED'' else ''PARTIALLY_FAILED'')"
    unfolding final_status_def by (simp only: if_True if_False split: if_split) simp
  then obtain st where st: "final_status ?mine = Some st" "st \<in> {''FAILED'', ''PARTIALLY_FAILED''}" by simp
  have "map strip_notif (st_notifs (w_store w')) =
      map (\<lambda>x. strip_notif (if n_id x = t_notification_id t then x\<lparr>n_status := st\<rparr> else x)) ?ns"
    using s st(1) by (simp add: settled_by_def world_view_def settle_notifs_def)
  then have "strip_notif (n\<lparr>n_status := st\<rparr>) \<in> set (map strip_notif (st_notifs (w_store w')))"
    using n by force
  then obtain n' where in': "n' \<in> set (st_notifs (w_store w'))"
    and eq: "strip_notif n' = strip_notif (n\<lparr>n_status := st\<rparr>)" by auto
  from arg_cong [where f = n_id, OF eq] arg_cong [where f = n_status, OF eq]
  have n': "n_id n' = n_id n" "n_status n' = st" by (simp_all only: strip_fields set_status_fields)
  have "map fst (w_requests w') = map fst (w_requests w) @ [req]" using s by (simp add: settled_by_def world_view_def)
  with r t'(1,2,4) in' n' st(2) show ?thesis by blast
qed

theorem redelivery_undoes_success_witness:
  "\<exists>w'. run exec_world (process_message (prod_worker (\<lambda>_. True) demo_config) ''t1'')
      (demo_world [demo_notif\<lparr>n_status := ''SUCCEEDED''\<rparr>] [demo_task\<lparr>t_status := ''SUCCEEDED''\<rparr>] [Inr (404, ''gone'')]) =
        (Inr None, w') \<and>
     map fst (w_requests w') = [demo_req] \<and>
     (\<exists>t' \<in> set (st_tasks (w_store w')). t_id t' = ''t1'' \<and> t_status t' = ''DEAD_LETTER'') \<and>
     (\<exists>n' \<in> set (st_notifs (w_store w')). n_id n' = ''n1'' \<and> n_status n' \<in> {''FAILED'', ''PARTIALLY_FAILED''})"
proof -
  let ?n = "demo_notif\<lparr>n_status := ''SUCCEEDED''\<rparr>" and ?t = "demo_task\<lparr>t_status := ''SUCCEEDED''\<rparr>"
  let ?w = "demo_world [?n] [?t] [Inr (404, ''gone'')]"
  have w: "healthy_world ?w" "?t \<in> set (st_tasks (w_store ?w))" "t_status ?t = ''SUCCEEDED''" "in_i32 (t_retry_count ?t + 1)"
    "?n \<in> set (st_notifs (w_store ?w))" "n_id ?n = t_notification_id ?t" "next_vendor_reply ?w = Inr (404, ''gone'')"
    "\<forall>x \<in> set (tasks_of (w_store ?w) (n_id ?n)). t_status x \<in> {''SUCCEEDED'', ''DEAD_LETTER''}"
    by (simp_all add: healthy_world_def wf_store_def uuid_ok_def demo_world_def demo_store_def demo_notif_def
      demo_task_def new_task_def notif_statuses_def task_statuses_def in_i32_def next_vendor_reply_def tasks_of_def)
  have c: "\<not> is_http_success 404" "\<not> is_http_retryable 404" by (simp_all add: is_http_success_def is_http_retryable_def)
  obtain vc spec where cfg: "cp_vendor_config demo_config (t_vendor_id ?t) = Inr (Some vc)"
      "cp_delivery_spec demo_config (t_vendor_id ?t) (t_event_type ?t) = Ret (Inr (Some spec))"
      "build_request (\<lambda>_. True) (Some vc) (Some (ds_mapping spec)) (n_payload ?n) = Inr (Some demo_req)"
    using demo_decide by (simp add: decide_def demo_config_def demo_task_def new_task_def demo_notif_def split: sum.splits option.splits)
  have "t_id ?t = ''t1''" "n_id ?n = ''n1''" "map fst (w_requests ?w) = []"
    by (simp_all add: demo_task_def new_task_def demo_notif_def demo_world_def)
  with redelivery_undoes_success [OF w(1-6) demo_config_total cfg w(7) c w(8)] show ?thesis by simp
qed

end
