(* ===== verification/Ingestion_Props.thy ===== *)
theory Ingestion_Props
  imports System_Safety Worker_Props
begin

text \<open>
  What \<open>POST /api/v1/notifications\<close> answers and stores: whatever fails, and, while nothing fails, exactly.
\<close>

section \<open>Errors of the database\<close>

text \<open>An error that is neither of the two that \<open>Ingest\<close> tells apart.\<close>

definition plain_error :: "go_error \<Rightarrow> bool" where
  "plain_error e \<longleftrightarrow> \<not> is_err_event_not_found e \<and> \<not> is_schema_validation_error e"

lemma plain_external [simp]: "plain_error (ErrExternal s)"
  by (simp add: plain_error_def is_err_event_not_found_def is_schema_validation_error_def)

lemma plain_wrapped [simp]: "plain_error (Errorf fmt [ArgErr e]) = plain_error e"
  by (simp add: plain_error_def is_err_event_not_found_def is_schema_validation_error_def)

lemma plain_response: "plain_error e \<Longrightarrow> ar_status (submit_error_response env e) = 503"
  by (simp add: plain_error_def submit_error_response_def write_error_def)

lemma plain_replies [simp]: "violation c = Failed (ErrExternal c)" "no_rows = Failed (ErrExternal ''no rows in result set'')"
  "connection_lost = Failed (ErrExternal ''connection lost'')" "scan_error = ErrExternal ''scan: cannot assign''"
  by (simp_all add: violation_def no_rows_def connection_lost_def scan_error_def)

lemma select_reply:
  assumes "exec_sql (Select_Notification i) s = (r, s')"
  shows "(\<exists>n \<in> set (st_notifs s'). r = Row_Notification n) \<or> (\<exists>m. r = Failed (ErrExternal m))"
  using assms
  by (auto simp: exec_sql_def Let_def with_uuid_def select_notif_def cut_reply_def
      split: list.splits fault.splits option.splits prod.splits dest: notif_row_Some)

lemma upsert_reply:
  assumes "exec_sql (Upsert_Notification p) s = (r, s')"
  shows "(\<exists>i b. r = Row_Upsert i b) \<or> (\<exists>m. r = Failed (ErrExternal m))"
  using assms
  by (auto simp: exec_sql_def Let_def sql_upsert_def insert_notification_def cut_reply_def
      split: list.splits fault.splits option.splits prod.splits if_splits)

lemma run_get_by_id:
  "\<exists>r w'. run exec_world (get_by_id (prod_service cfg) i) w = (Inr r, w') \<and>
     ((\<exists>n \<in> set (st_notifs (w_store w')). r = Inr n) \<or> (\<exists>e. r = Inl e \<and> plain_error e))"
proof -
  obtain q s' where q: "exec_sql (Select_Notification i) (w_store w) = (q, s')" by (cases "exec_sql (Select_Notification i) (w_store w)")
  from select_reply [OF q] show ?thesis
    using q by (auto simp: get_by_id_def prod_service_def pg_client_def pg_get_notification_def wrap_err_def run_bind)
qed

lemma run_publish_trigger:
  "\<exists>r w'. run exec_world (rmq_publish_trigger i) w = (Inr r, w') \<and> w_store w' = w_store w"
  by (auto simp: rmq_publish_trigger_def wrap_opt_def run_bind exec_publish_def Let_def split: list.splits fault.splits)

lemma run_accept:
  "\<exists>r w'. run exec_world (accept (prod_service cfg) p) w = (Inr r, w') \<and>
     ((\<exists>n \<in> set (st_notifs (w_store w')). r = Inr n) \<or> (\<exists>e. r = Inl e \<and> plain_error e))"
proof -
  obtain q s' where q: "exec_sql (Upsert_Notification p) (w_store w) = (q, s')"
    by (cases "exec_sql (Upsert_Notification p) (w_store w)")
  let ?w = "w\<lparr>w_store := s'\<rparr>"
  have up: "run exec_world (pg_upsert_notification p) w =
      (Inr (map_err (\<lambda>e. Errorf ''upsert notification: %w'' [ArgErr e]) (scan_upsert q)), ?w)"
    using q by (simp add: pg_upsert_notification_def wrap_err_def run_bind)
  from upsert_reply [OF q] show ?thesis
  proof (elim disjE exE)
    fix i b
    assume "q = Row_Upsert i b"
    with up have u: "run exec_world (db_upsert_notification (sv_db (prod_service cfg)) p) w = (Inr (Inr (i, b)), ?w)"
      by (simp add: prod_service_def pg_client_def)
    obtain r w1 where "run exec_world (rmq_publish_trigger i) ?w = (Inr r, w1)" using run_publish_trigger by blast
    with u have "run exec_world (accept (prod_service cfg) p) w =
        run exec_world (get_by_id (prod_service cfg) i) (if b then w1 else ?w)"
      by (simp add: accept_def run_try_Inr run_bind) (simp add: prod_service_def rmq_client_def)
    then show ?thesis using run_get_by_id by simp
  next
    fix m
    assume "q = Failed (ErrExternal m)"
    with up have "run exec_world (db_upsert_notification (sv_db (prod_service cfg)) p) w =
        (Inr (Inl (Errorf ''upsert notification: %w'' [ArgErr (ErrExternal m)])), ?w)"
      by (simp add: prod_service_def pg_client_def)
    then show ?thesis by (simp add: accept_def run_try_Inl)
  qed
qed

section \<open>The answers\<close>

lemma rejected_response:
  "validate_schema sv cache ev p = (Some e, cache') \<Longrightarrow> ar_status (submit_error_response env e) = 422"
  by (auto simp: validate_schema_def submit_error_response_def is_err_event_not_found_def is_schema_validation_error_def
      write_error_def write_error_with_details_def split: sum.splits prod.splits if_splits)

text \<open>C13
  The answers of \<open>POST /api/v1/notifications\<close>, whatever fails: 400 and 422 leave database and broker
  untouched; 202 names a notification that is stored, with its status; anything else is 503. There is no
  other answer, and no panic.\<close>

theorem ingest_answers:
  "case run exec_world (fst (ingest (prod_service cfg) env random_bytes cache body)) w of
     (Inl m, w') \<Rightarrow> False
   | (Inr resp, w') \<Rightarrow>
       (ar_status resp \<in> {400, 422} \<and> w' = w) \<or> ar_status resp = 503 \<or>
       (ar_status resp = 202 \<and> (\<exists>n \<in> set (st_notifs (w_store w')). resp = accepted_response env n))"
proof (cases "decode_ingest body")
  case None
  then show ?thesis by (simp add: ingest_def write_error_def)
next
  case (Some r)
  show ?thesis
  proof (cases "ir_event r = []")
    case True
    with Some show ?thesis by (simp add: ingest_def write_error_def)
  next
    case False
    let ?p = "ingest_params random_bytes r"
    obtain v c where v: "validate_schema (prod_service cfg) cache (up_event_type ?p) (up_payload ?p) = (v, c)"
      by (cases "validate_schema (prod_service cfg) cache (up_event_type ?p) (up_payload ?p)")
    show ?thesis
    proof (cases v)
      case None
      obtain q w' where "run exec_world (accept (prod_service cfg) ?p) w = (Inr q, w')"
        "(\<exists>n \<in> set (st_notifs (w_store w')). q = Inr n) \<or> (\<exists>e. q = Inl e \<and> plain_error e)"
        using run_accept [of cfg ?p w] by (elim exE conjE) (rule that)
      with Some False v None show ?thesis
        by (auto simp: ingest_def submit_def run_bind plain_response accepted_response_def)
    next
      case (Some e)
      have "ar_status (submit_error_response env e) = 422" by (rule rejected_response) (use v Some in simp)
      with \<open>decode_ingest body = Some r\<close> False v Some show ?thesis by (simp add: ingest_def submit_def)
    qed
  qed
qed

section \<open>Submitting twice\<close>

definition fits :: "upsert_params \<Rightarrow> bool" where
  "fits p \<longleftrightarrow> varchar 64 (up_caller_id p) = Some (up_caller_id p) \<and>
     varchar 128 (up_idempotent_key p) = Some (up_idempotent_key p) \<and>
     varchar 128 (up_event_type p) = Some (up_event_type p)"

definition trigger_message :: "string \<Rightarrow> string \<times> string \<times> publishing" where
  "trigger_message i = (trigger_exchange, [],
     \<lparr>pb_content_type = ''text/plain'', pb_persistent = False, pb_headers = [], pb_expiration = [], pb_body = i\<rparr>)"

text \<open>A first submission, and one whose caller and key are known.\<close>

definition stored_new :: "upsert_params \<Rightarrow> world \<Rightarrow> notification \<times> world" where
  "stored_new p w =
     (let s = w_store w; i = st_ids s (st_drawn s);
          n = new_notification i p (case up_payload p of Some m \<Rightarrow> m | None \<Rightarrow> []) (st_now s)
      in (n, w\<lparr>w_store := s\<lparr>st_drawn := Suc (st_drawn s), st_notifs := st_notifs s @ [n]\<rparr>,
               w_published := w_published w @ [trigger_message i]\<rparr>))"

definition touched :: "upsert_params \<Rightarrow> notification \<Rightarrow> world \<Rightarrow> notification \<times> world" where
  "touched p n w =
     (n\<lparr>n_updated_at := st_now (w_store w)\<rparr>,
      w\<lparr>w_store := (w_store w)\<lparr>st_notifs :=
          upd_where (same_key p) (n_updated_at_update (\<lambda>_. st_now (w_store w))) (st_notifs (w_store w))\<rparr>\<rparr>)"

lemma run_select:
  "st_faults (w_store w) = [] \<Longrightarrow> st_uuid (w_store w) i = Some i \<Longrightarrow> notif_row (w_store w) i = Some n \<Longrightarrow>
   run exec_world (get_by_id (prod_service cfg) i) w = (Inr (Inr n), w)"
  by (simp add: get_by_id_def prod_service_def pg_client_def pg_get_notification_def wrap_err_def run_bind
      exec_sql_healthy with_uuid_def select_notif_def)

lemma run_upsert:
  "st_faults (w_store w) = [] \<Longrightarrow> sql_upsert p (w_store w) = (Row_Upsert i b, s) \<Longrightarrow>
   run exec_world (db_upsert_notification (sv_db (prod_service cfg)) p) w = (Inr (Inr (i, b)), w\<lparr>w_store := s\<rparr>)"
  by (simp add: prod_service_def pg_client_def pg_upsert_notification_def wrap_err_def run_bind exec_sql_healthy)

lemma sql_upsert_new:
  assumes "fits p" "up_payload p = Some m" "find (same_key p) (st_notifs (w_store w)) = None"
    and "st_ids (w_store w) (st_drawn (w_store w)) = i" "i \<notin> n_id ` set (st_notifs (w_store w))"
  shows "sql_upsert p (w_store w) = (Row_Upsert i True, w_store (snd (stored_new p w)))"
proof -
  have "notif_row (w_store w) i = None" using assms(5) by (simp add: notif_row_None)
  with assms show ?thesis by (simp add: sql_upsert_def fits_def insert_notification_def Let_def stored_new_def)
qed

lemma accept_new:
  assumes "st_faults (w_store w) = []" "w_mq_faults w = []" "fits p" "up_payload p = Some m"
    and "find (same_key p) (st_notifs (w_store w)) = None"
    and "st_ids (w_store w) (st_drawn (w_store w)) = i" "i \<notin> n_id ` set (st_notifs (w_store w))"
    and "st_uuid (w_store w) i = Some i"
  shows "run exec_world (accept (prod_service cfg) p) w = (Inr (Inr (fst (stored_new p w))), snd (stored_new p w))"
proof -
  let ?s = "w_store w"
  let ?n = "new_notification i p m (st_now ?s)"
  let ?s' = "?s\<lparr>st_drawn := Suc (st_drawn ?s), st_notifs := st_notifs ?s @ [?n]\<rparr>"
  let ?w = "w\<lparr>w_store := ?s', w_published := w_published w @ [trigger_message i]\<rparr>"
  have row: "notif_row ?s i = None" using assms(7) by (simp add: notif_row_None)
  have "sql_upsert p ?s = (Row_Upsert i True, ?s')"
    using sql_upsert_new [OF assms(3-7)] assms(4,6) by (simp add: stored_new_def Let_def)
  note up = run_upsert [OF assms(1) this]
  have pub: "run exec_world (mq_publish_trigger (sv_mq (prod_service cfg)) i) (w\<lparr>w_store := ?s'\<rparr>) = (Inr None, ?w)"
    using assms(2)
    by (simp add: prod_service_def rmq_client_def rmq_publish_trigger_def wrap_opt_def run_bind exec_publish_def trigger_message_def)
  have "notif_row ?s' i = Some ?n" using row by (simp add: notif_row_def find_append new_notification_def)
  then have "run exec_world (get_by_id (prod_service cfg) i) ?w = (Inr (Inr ?n), ?w)"
    using assms by (intro run_select) simp_all
  with assms(4,6) show ?thesis
    by (simp add: accept_def run_try_Inr [OF up] run_bind pub stored_new_def Let_def)
qed

lemma accept_again:
  assumes "st_faults (w_store w) = []" "fits p" "up_payload p = Some m" "wf_store (w_store w)"
    and "find (same_key p) (st_notifs (w_store w)) = Some n" "n_created_at n \<noteq> st_now (w_store w)"
    and "st_uuid (w_store w) (n_id n) = Some (n_id n)"
  shows "run exec_world (accept (prod_service cfg) p) w = (Inr (Inr (fst (touched p n w))), snd (touched p n w))"
proof -
  let ?s' = "w_store (snd (touched p n w))"
  have n: "n \<in> set (st_notifs (w_store w))" "same_key p n" using find_Some_in [OF assms(5)] by auto
  have "sql_upsert p (w_store w) = (Row_Upsert (n_id n) False, ?s')"
    using assms by (simp add: sql_upsert_def fits_def Let_def touched_def)
  note up = run_upsert [OF assms(1) this]
  have "notif_row ?s' (n_id n) = Some (fst (touched p n w))"
    using notif_row_in [OF assms(4) n(1)] n(2) by (simp add: notif_row_def touched_def find_upd_where)
  then have "run exec_world (get_by_id (prod_service cfg) (n_id n)) (snd (touched p n w)) =
      (Inr (Inr (fst (touched p n w))), snd (touched p n w))"
    using assms by (intro run_select) (simp_all add: touched_def)
  moreover have "w\<lparr>w_store := ?s'\<rparr> = snd (touched p n w)" by (simp add: touched_def)
  ultimately show ?thesis by (simp add: accept_def run_try_Inr [OF up])
qed

lemma validate_again:
  "validate_schema sv cache ev payload = (None, cache') \<Longrightarrow> validate_schema sv cache' ev payload = (None, cache')"
  by (auto simp: validate_schema_def validate_map_def gm_get_put split: sum.splits prod.splits option.splits if_splits)

definition at_time :: "int \<Rightarrow> world \<Rightarrow> world" where
  "at_time t w = w\<lparr>w_store := (w_store w)\<lparr>st_now := t\<rparr>\<rparr>"

lemma ingest_run:
  assumes "decode_ingest body = Some r" "ir_event r \<noteq> []" "p = ingest_params rb r"
    and "validate_schema sv cache (up_event_type p) (up_payload p) = (None, cache')"
    and "run exec_world (accept sv p) w = (Inr (Inr n), w')"
  shows "run exec_world (fst (ingest sv env rb cache body)) w = (Inr (accepted_response env n), w') \<and>
     snd (ingest sv env rb cache body) = cache'"
  using assms by (auto simp: ingest_def submit_def run_bind)

text \<open>C12
  Submitting a request that carries an idempotency key twice, while nothing fails and time passes in
  between, the key being new to its caller, the payload valid and the texts short enough for their columns: the first submission stores one
  \<open>PENDING\<close> notification and publishes its trigger message; the second gives the same answer, stores no other
  notification and publishes nothing. So a trigger message that is lost is not sent again by a repeated
  request, although the design document has the message published unconditionally. A request without a key
  is given a fresh random one each time, so nothing is said of it.\<close>

theorem ingest_idempotent:
  assumes w: "healthy_world w" and time: "st_now (w_store w) < t"
    and body: "decode_ingest body = Some r" "ir_event r \<noteq> []" "ir_key r \<noteq> []"
    and p: "p = ingest_params rb r" "fits p" "find (same_key p) (st_notifs (w_store w)) = None"
    and i: "st_ids (w_store w) (st_drawn (w_store w)) = i" "i \<notin> n_id ` set (st_notifs (w_store w))"
      "st_uuid (w_store w) i = Some i"
    and valid: "validate_schema (prod_service cfg) cache (up_event_type p) (up_payload p) = (None, cache')"
  shows "\<exists>resp n w1 w2.
     run exec_world (fst (ingest (prod_service cfg) env rb cache body)) w = (Inr resp, w1) \<and> ar_status resp = 202 \<and>
     run exec_world (fst (ingest (prod_service cfg) env rb' cache' body)) (at_time t w1) = (Inr resp, w2) \<and>
     st_notifs (w_store w1) = st_notifs (w_store w) @ [n] \<and> n_id n = i \<and> n_status n = ''PENDING'' \<and>
     n_payload n = up_payload p \<and> w_published w1 = w_published w @ [trigger_message i] \<and>
     map n_id (st_notifs (w_store w2)) = map n_id (st_notifs (w_store w1)) \<and> w_published w2 = w_published w1"
proof -
  let ?n = "fst (stored_new p w)" and ?w1 = "snd (stored_new p w)"
  let ?u = "at_time t ?w1"
  obtain m where m: "up_payload p = Some m" using p(1) by (simp add: ingest_params_def)
  have p': "p = ingest_params rb' r" using p(1) body(3) by (simp add: ingest_params_def)
  note h = healthyD [OF w]
  note run1 = ingest_run [OF body(1,2) p(1) valid accept_new [OF h(1,2) p(2) m p(3) i]]
  have n: "?n = new_notification i p m (st_now (w_store w))" using m i(1) by (simp add: stored_new_def Let_def)
  have wf: "wf_store (w_store ?u)"
    using wf_sql_upsert [OF h(3), of p] sql_upsert_new [OF p(2) m p(3) i(1,2)] by (simp add: at_time_def)
  have known: "find (same_key p) (st_notifs (w_store ?u)) = Some ?n" "n_created_at ?n \<noteq> st_now (w_store ?u)"
    "st_uuid (w_store ?u) (n_id ?n) = Some (n_id ?n)" "st_faults (w_store ?u) = []"
    using p(3) n i time h(1)
    by (simp_all add: at_time_def stored_new_def Let_def find_append same_key_def new_notification_def)
  note run2 = ingest_run [OF body(1,2) p' validate_again [OF valid] accept_again [OF known(4) p(2) m wf known(1-3)]]
  have same: "accepted_response env (fst (touched p ?n ?u)) = accepted_response env ?n" for env
    by (simp add: touched_def accepted_response_def)
  have ids: "map n_id (st_notifs (w_store (snd (touched p ?n ?u)))) = map n_id (st_notifs (w_store ?w1))"
    by (simp add: touched_def map_upd_where) (simp add: at_time_def)
  have pub: "w_published (snd (touched p ?n ?u)) = w_published ?w1" by (simp add: touched_def at_time_def)
  have one: "st_notifs (w_store ?w1) = st_notifs (w_store w) @ [?n]" "w_published ?w1 = w_published w @ [trigger_message i]"
    using i(1) by (simp_all add: stored_new_def Let_def)
  have f: "n_id ?n = i" "n_status ?n = ''PENDING''" "n_payload ?n = up_payload p" using n m by (simp_all add: new_notification_def)
  show ?thesis
    by (intro exI [of _ "accepted_response env ?n"] exI [of _ ?n] exI [of _ ?w1] exI [of _ "snd (touched p ?n ?u)"] conjI
        run1 [THEN conjunct1] run2 [THEN conjunct1, unfolded same] one f ids pub) (simp add: accepted_response_def)
qed

definition demo_empty :: world where
  "demo_empty = (demo_world [] [] [])\<lparr>w_store := (demo_store [] [])\<lparr>st_ids := (\<lambda>k. replicate (Suc k) (CHR ''a''))\<rparr>\<rparr>"

definition demo_body :: string where
  "demo_body = ''{\"event\":\"user.created\",\"idempotent_key\":\"k\",\"payload\":{\"id\":\"7\"}}''"

definition demo_request :: ingest_request where
  "demo_request = \<lparr>ir_event = ''user.created'', ir_key = ''k'', ir_payload = Some [(''id'', VStr ''7'')]\<rparr>"

lemma demo_request_ok:
  "decode_ingest demo_body = Some demo_request"
  "fits (ingest_params [] demo_request)"
  "fst (validate_schema (prod_service demo_config) [] ''user.created'' (Some [(''id'', VStr ''7'')])) = None"
  by code_simp+

definition demo_env :: api_env where
  "demo_env = \<lparr>ae_time_text = show_int, ae_error_text = (\<lambda>_. []), ae_message_text = (\<lambda>_ _. [])\<rparr>"

theorem ingest_idempotent_witness:
  "\<exists>cache' resp w1 w2 n.
     run exec_world (fst (ingest (prod_service demo_config) demo_env [] [] demo_body)) demo_empty = (Inr resp, w1) \<and>
     ar_status resp = 202 \<and> st_notifs (w_store w1) = [n] \<and> w_published w1 = [trigger_message ''a''] \<and>
     run exec_world (fst (ingest (prod_service demo_config) demo_env [] cache' demo_body)) (at_time 9 w1) = (Inr resp, w2) \<and>
     w_published w2 = [trigger_message ''a'']"
proof -
  let ?p = "ingest_params [] demo_request"
  have w: "healthy_world demo_empty"
    by (simp add: healthy_world_def wf_store_def uuid_ok_def demo_empty_def demo_world_def demo_store_def)
  have p: "up_event_type ?p = ''user.created''" "up_payload ?p = Some [(''id'', VStr ''7'')]"
    by (simp_all add: ingest_params_def demo_request_def)
  obtain c where v: "validate_schema (prod_service demo_config) [] (up_event_type ?p) (up_payload ?p) = (None, c)"
    using demo_request_ok(3) by (metis p prod.collapse)
  have e: "st_now (w_store demo_empty) < 9" "find (same_key ?p) (st_notifs (w_store demo_empty)) = None"
    "st_ids (w_store demo_empty) (st_drawn (w_store demo_empty)) = ''a''"
    "''a'' \<notin> n_id ` set (st_notifs (w_store demo_empty))" "st_uuid (w_store demo_empty) ''a'' = Some ''a''"
    by (simp_all add: demo_empty_def demo_store_def)
  have r: "ir_event demo_request \<noteq> []" "ir_key demo_request \<noteq> []" by (simp_all add: demo_request_def)
  have z: "st_notifs (w_store demo_empty) = []" "w_published demo_empty = []"
    by (simp_all add: demo_empty_def demo_store_def demo_world_def)
  from ingest_idempotent [OF w e(1) demo_request_ok(1) r refl demo_request_ok(2) e(2-5) v, of demo_env "[]"]
  obtain resp n w1 w2 where
    "run exec_world (fst (ingest (prod_service demo_config) demo_env [] [] demo_body)) demo_empty = (Inr resp, w1)"
    "ar_status resp = 202" "st_notifs (w_store w1) = [n]" "w_published w1 = [trigger_message ''a'']"
    "run exec_world (fst (ingest (prod_service demo_config) demo_env [] c demo_body)) (at_time 9 w1) = (Inr resp, w2)"
    "w_published w2 = [trigger_message ''a'']"
    unfolding z by auto
  then show ?thesis by blast
qed

end
