(* ===== verification/Listing_Props.thy ===== *)
theory Listing_Props
  imports System_Safety Worker_Props
begin

text \<open>
  \<open>GET /api/v1/notifications\<close> through handler, service and database: what the pages of a listing hold.
\<close>

section \<open>Pages\<close>

lemma concat_chunks: "concat (map (\<lambda>k. take p (drop (k * p) xs)) [0..<n]) = take (n * p) xs"
  by (induction n) (simp_all add: take_add [symmetric] add.commute)

lemma upto_from_one: "[1..int n] = map (\<lambda>k. int k + 1) [0..<n]"
  by (induction n) (simp_all add: upto_rec2 add.commute)

text \<open>Page \<open>k\<close>, counted from one.\<close>

definition page_of :: "int \<Rightarrow> int \<Rightarrow> 'a list \<Rightarrow> 'a list" where
  "page_of psize k xs = take (nat psize) (drop (nat ((k - 1) * psize)) xs)"

definition page_count :: "int \<Rightarrow> int \<Rightarrow> int" where
  "page_count cnt psize = max 1 ((cnt + psize - 1) div psize)"

lemma pages_cover:
  assumes "1 \<le> psize"
  shows "concat (map (\<lambda>k. page_of psize k xs) [1..page_count (int (length xs)) psize]) = xs"
proof -
  let ?p = "nat psize" and ?n = "nat (page_count (int (length xs)) psize)"
  have k: "[1..page_count (int (length xs)) psize] = map (\<lambda>k. int k + 1) [0..<?n]"
  proof -
    have "int ?n = page_count (int (length xs)) psize" by (simp add: page_count_def)
    with upto_from_one [of ?n] show ?thesis by (simp only:)
  qed
  have "page_of psize (int k + 1) xs = take ?p (drop (k * ?p) xs)" for k
    using assms by (simp add: page_of_def nat_mult_distrib)
  then have c: "concat (map (\<lambda>k. page_of psize k xs) [1..page_count (int (length xs)) psize]) = take (?n * ?p) xs"
    unfolding k by (simp add: comp_def concat_chunks)
  have "int (length xs) \<le> page_count (int (length xs)) psize * psize"
  proof -
    have "int (length xs) + psize - 1 < ((int (length xs) + psize - 1) div psize) * psize + psize"
      using assms by (metis div_mod_decomp_int add_less_cancel_left pos_mod_bound less_le_trans zero_less_one)
    moreover have "((int (length xs) + psize - 1) div psize) * psize \<le> page_count (int (length xs)) psize * psize"
      using assms by (intro mult_right_mono) (simp_all add: page_count_def)
    ultimately show ?thesis by linarith
  qed
  then have "length xs \<le> ?n * ?p" using assms by (simp add: nat_mult_distrib [symmetric] page_count_def)
  with c show ?thesis by simp
qed

section \<open>The run of the handler\<close>

lemma atoi_show_int: "0 \<le> k \<Longrightarrow> k \<le> max_i64 \<Longrightarrow> atoi_value (show_int k) = k"
proof -
  assume k: "0 \<le> k" "k \<le> max_i64"
  obtain c cs where s: "show_pos k = c # cs" by (cases "show_pos k") auto
  with hd_show_pos [of k] have "c \<noteq> CHR ''-''" "c \<noteq> CHR ''+''" by auto
  moreover have "read_digits 0 (c # cs) = Some k" using read_digits_show_pos [of k] s k(1) by simp
  ultimately show ?thesis using s k by (simp add: show_int_def atoi_value_def Let_def del: read_digits.simps)
qed

lemma total_pages_value:
  assumes "0 \<le> cnt" "1 \<le> psize" "cnt + psize \<le> max_i64"
  shows "total_pages cnt psize = Ret (page_count cnt psize)"
proof -
  have "w64 (w64 (cnt + psize) - 1) = cnt + psize - 1"
    using assms by (simp add: w64_id in_i64_def min_i64_def max_i64_def)
  moreover have "(cnt + psize - 1) sdiv psize = (cnt + psize - 1) div psize"
    using assms by (simp add: signed_divide_int_def sgn_if)
  ultimately show ?thesis using assms(2) by (simp add: total_pages_def Let_def page_count_def max_def)
qed

lemma list_run:
  assumes "healthy_world w" "psize = clamp_page_size (atoi_value size_text)" "page = clamp_page (atoi_value page_text)"
    and "xs = newest_first (matching (text_filter caller) (text_filter ev) (w_store w))"
    and "int (length xs) + psize \<le> max_i64" "(page - 1) * psize \<le> max_i64"
  shows "run exec_world (list_notifications (prod_service cfg) env caller ev page_text size_text) w =
     (Inr (list_response env (page_of psize page xs) (int (length xs)) page psize (page_count (int (length xs)) psize)), w)"
proof -
  have p: "1 \<le> psize" "psize \<le> 100" "1 \<le> page" "clamp_page_size psize = psize" "clamp_page page = page"
    using assms(2,3) by (auto simp: clamp_page_size_def clamp_page_def Let_def)
  have o: "w64 ((page - 1) * psize) = (page - 1) * psize" "0 \<le> (page - 1) * psize"
    using p assms(6) by (simp_all add: w64_id in_i64_def min_i64_def order_trans [of _ 0])
  have l: "length (matching (text_filter caller) (text_filter ev) (w_store w)) = length xs"
    by (simp add: assms(4) newest_first_def)
  let ?c = "ask (Sql (Count_Notifications (text_filter caller) (text_filter ev))) scan_int"
  let ?q = "ask (Sql (Page_Notifications (text_filter caller) (text_filter ev) psize ((page - 1) * psize))) scan_notifications"
  have c: "run exec_world ?c w = (Inr (Inr (int (length xs))), w)"
    using healthyD(1) [OF assms(1)] l by (simp add: run_sql exec_sql_healthy del: run_ask)
  define off where "off = (page - 1) * psize"
  have "sql_page (text_filter caller) (text_filter ev) psize off (w_store w) =
      (Rows_Notifications (page_of psize page xs) None, w_store w)"
    using p(1) o(2) unfolding off_def [symmetric] by (simp add: sql_page_def page_of_def off_def [symmetric] assms(4))
  then have q: "run exec_world ?q w = (Inr (Inr (page_of psize page xs)), w)"
    unfolding off_def using healthyD(1) [OF assms(1)] by (simp add: run_sql exec_sql_healthy del: run_ask)
  have "run exec_world (list_service (prod_service cfg) caller ev page psize) w =
      (Inr (Inr (page_of psize page xs, int (length xs))), w)"
    unfolding list_service_def prod_service_def service.simps pg_client_def db_client.simps pg_list_notifications_def Let_def
      p(4,5) o(1)
    by (simp add: run_try_Inr [OF c] run_try_Inr [OF q])
  note s = run_try_Inr [OF this]
  have d: "(let n = atoi_value page_text in if n < 1 then 1 else n) = page"
    "(let n = atoi_value size_text; m = if n \<le> 0 then 20 else n in if m > 100 then 100 else m) = psize"
    by (simp_all add: assms(2,3) clamp_page_def clamp_page_size_def)
  show ?thesis
    unfolding list_notifications_def unfolding d unfolding Let_def s
    using total_pages_value [OF _ p(1) assms(5)] by simp
qed

section \<open>Properties\<close>

text \<open>C36
  Paging, while nothing fails: whatever the filters and the requested page size (missing, negative or too
  large values are replaced), the handler answers each page from the first to the reported number of pages
  with the total count and with a part of the matching notifications, and these parts, one after another,
  are all of them, newest first, each exactly once. The creation times are supposed to differ, since the
  database leaves the order of equal ones open from one query to the next, and the count to be below
  \<open>2 ^ 63 - 200\<close>, so that no sum wraps around.\<close>

theorem listing_pages:
  assumes "healthy_world w" "psize = clamp_page_size (atoi_value size_text)"
    and "xs = newest_first (matching (text_filter caller) (text_filter ev) (w_store w))"
    and "distinct (map n_created_at xs)" "int (length xs) + 200 \<le> max_i64"
  shows "1 \<le> psize \<and> psize \<le> 100 \<and>
     (\<forall>k. 1 \<le> k \<longrightarrow> k \<le> page_count (int (length xs)) psize \<longrightarrow>
        run exec_world (list_notifications (prod_service cfg) env caller ev (show_int k) size_text) w =
          (Inr (list_response env (page_of psize k xs) (int (length xs)) k psize (page_count (int (length xs)) psize)), w)) \<and>
     concat (map (\<lambda>k. page_of psize k xs) [1..page_count (int (length xs)) psize]) = xs"
proof -
  have p: "1 \<le> psize" "psize \<le> 100" using assms(2) by (auto simp: clamp_page_size_def Let_def)
  have "run exec_world (list_notifications (prod_service cfg) env caller ev (show_int k) size_text) w =
      (Inr (list_response env (page_of psize k xs) (int (length xs)) k psize (page_count (int (length xs)) psize)), w)"
    if k: "1 \<le> k" "k \<le> page_count (int (length xs)) psize" for k
  proof (rule list_run [OF assms(1,2) _ assms(3)])
    have "(int (length xs) + psize - 1) div psize \<le> int (length xs) + psize - 1"
      using p zdiv_mono2 [of "int (length xs) + psize - 1" 1 psize] by simp
    then have "k \<le> max_i64" using k(2) p assms(5) by (simp add: page_count_def max_i64_def split: if_splits)
    with k(1) show "k = clamp_page (atoi_value (show_int k))" by (simp add: atoi_show_int clamp_page_def)
    have "(int (length xs) + psize - 1) div psize * psize \<le> int (length xs) + psize - 1"
      using p by (metis div_mod_decomp_int le_add_same_cancel1 pos_mod_sign zero_less_one less_le_trans)
    then have "(page_count (int (length xs)) psize - 1) * psize \<le> int (length xs)"
      by (simp add: page_count_def max_def left_diff_distrib)
    moreover have "(k - 1) * psize \<le> (page_count (int (length xs)) psize - 1) * psize"
      using k p by (intro mult_right_mono) simp_all
    ultimately have "(k - 1) * psize \<le> int (length xs)" by linarith
    with p assms(5) show "(k - 1) * psize \<le> max_i64" by linarith
    show "int (length xs) + psize \<le> max_i64" using p assms(5) by linarith
  qed
  with p pages_cover [OF p(1)] show ?thesis by blast
qed

theorem listing_pages_witness:
  "\<exists>w xs. healthy_world w \<and> length xs = 2 \<and>
     run exec_world (list_notifications (prod_service demo_config) \<lparr>ae_time_text = (\<lambda>_. []), ae_error_text = (\<lambda>_. []),
       ae_message_text = (\<lambda>_ _. [])\<rparr> [] [] (show_int 2) ''1'') w =
     (Inr (list_response \<lparr>ae_time_text = (\<lambda>_. []), ae_error_text = (\<lambda>_. []), ae_message_text = (\<lambda>_ _. [])\<rparr>
       (page_of 1 2 xs) 2 2 1 2), w) \<and> concat (map (\<lambda>k. page_of 1 k xs) [1..2]) = xs"
proof -
  let ?n = "demo_notif\<lparr>n_id := ''n2'', n_idempotent_key := ''k2'', n_created_at := 9\<rparr>"
  let ?w = "demo_world [demo_notif, ?n] [] []" and ?xs = "[?n, demo_notif]"
  have h: "healthy_world ?w"
    by (simp add: healthy_world_def wf_store_def uuid_ok_def demo_world_def demo_store_def demo_notif_def
        notif_statuses_def task_statuses_def notif_key_def)
  have s: "1 = clamp_page_size (atoi_value ''1'')" by code_simp
  have x: "?xs = newest_first (matching (text_filter []) (text_filter []) (w_store ?w))"
    by (simp add: newest_first_def matching_def text_filter_def demo_world_def demo_store_def demo_notif_def sort_key_def)
  have d: "distinct (map n_created_at ?xs)" "int (length ?xs) + 200 \<le> max_i64"
    by (simp_all add: demo_notif_def max_i64_def)
  have c: "int (length ?xs) = 2" "page_count 2 1 = 2" by (simp_all add: page_count_def)
  note l = listing_pages [OF h s x d, unfolded c, THEN conjunct2, THEN conjunct2]
  note r = l [THEN conjunct1, rule_format, where k = 2] and a = l [THEN conjunct2]
  have "(1 :: int) \<le> 2" "(2 :: int) \<le> 2" "length ?xs = 2" by simp_all
  note r = r [OF this(1,2)] and len = this(3)
  show ?thesis by (intro exI [of _ ?w] exI [of _ ?xs] conjI h len r a)
qed

end
