(* ===== verification/Dispatcher_Props.thy ===== *)
theory Dispatcher_Props
  imports System_Safety Worker_Props
begin

text \<open>
  What one dispatch does to a world without faults, as a function of the notification and the routing rules;
  and that a second trigger message for it changes nothing.
\<close>

section \<open>The effect of a dispatch\<close>

definition with_notif_status :: "string \<Rightarrow> string \<Rightarrow> world \<Rightarrow> world" where
  "with_notif_status nid st w =
     w\<lparr>w_store := (w_store w)\<lparr>st_notifs := upd_where (\<lambda>n. n_id n = nid)
        (\<lambda>n. n\<lparr>n_status := st, n_updated_at := st_now (w_store w)\<rparr>) (st_notifs (w_store w))\<rparr>\<rparr>"

text \<open>The tasks for some vendors, with identifiers from the \<open>d\<close>-th on.\<close>

fun tasks_for :: "store \<Rightarrow> nat \<Rightarrow> string \<Rightarrow> string \<Rightarrow> string list \<Rightarrow> delivery_task list" where
  "tasks_for s d nid ev [] = []"
| "tasks_for s d nid ev (v # vs) = new_task (st_ids s d) nid v ev (st_now s) # tasks_for s (Suc d) nid ev vs"

definition with_tasks :: "string \<Rightarrow> string \<Rightarrow> string list \<Rightarrow> store \<Rightarrow> store" where
  "with_tasks nid ev vs s =
     s\<lparr>st_tasks := st_tasks s @ tasks_for s (st_drawn s) nid ev vs, st_drawn := st_drawn s + length vs\<rparr>"

definition task_message :: "delivery_task \<Rightarrow> string \<times> string \<times> publishing" where
  "task_message t = (delivery_exchange, [], delivery_message (t_vendor_id t) (t_id t))"

definition dispatched :: "config_provider \<Rightarrow> notification \<Rightarrow> world \<Rightarrow> world" where
  "dispatched cfg n w =
     (let vs = map rl_vendor_id (matched_rules (prod_dispatcher cfg) (n_event_type n)); s = w_store w
      in if n_status n \<noteq> ''PENDING'' then w
         else if vs = [] then with_notif_status (n_id n) ''FAILED'' w
         else (with_notif_status (n_id n) ''DELIVERING'' (w\<lparr>w_store := with_tasks (n_id n) (n_event_type n) vs s\<rparr>))
                \<lparr>w_published := w_published w @ map task_message (tasks_for s (st_drawn s) (n_id n) (n_event_type n) vs)\<rparr>)"

text \<open>\<open>gen_random_uuid()\<close> never repeats a value, nor draws the identifier of a stored task.\<close>

definition fresh_ids :: "store \<Rightarrow> bool" where
  "fresh_ids s \<longleftrightarrow> inj (st_ids s) \<and> (\<forall>k. st_ids s (st_drawn s + k) \<notin> t_id ` set (st_tasks s))"

text \<open>Vendors and event fit their columns, no vendor is named twice, and the notification has no tasks yet.\<close>

definition dispatchable :: "config_provider \<Rightarrow> notification \<Rightarrow> store \<Rightarrow> bool" where
  "dispatchable cfg n s \<longleftrightarrow>
     (let vs = map rl_vendor_id (matched_rules (prod_dispatcher cfg) (n_event_type n))
      in list_all (\<lambda>v. varchar 64 v = Some v) vs \<and> varchar 128 (n_event_type n) = Some (n_event_type n) \<and>
         distinct vs \<and> (\<forall>t \<in> set (tasks_of s (n_id n)). t_vendor_id t \<notin> set vs) \<and> fresh_ids s)"

section \<open>Its steps\<close>

lemma run_insert_tasks:
  assumes "st_faults s = []" "st_uuid s nid = Some nid" "notif_row s nid \<noteq> None" "varchar 128 ev = Some ev"
    and "list_all (\<lambda>v. varchar 64 v = Some v) vs" "distinct vs" "\<forall>t \<in> set (tasks_of s nid). t_vendor_id t \<notin> set vs"
    and "fresh_ids s"
  shows "run exec_world (pg_insert_tasks nid ev vs ts) (w\<lparr>w_store := s\<rparr>) =
     (Inr (Inr (ts @ tasks_for s (st_drawn s) nid ev vs)), w\<lparr>w_store := with_tasks nid ev vs s\<rparr>)"
  using assms
proof (induction vs arbitrary: s ts)
  case Nil
  then show ?case by (simp add: with_tasks_def)
next
  case (Cons v vs)
  let ?t = "new_task (st_ids s (st_drawn s)) nid v ev (st_now s)"
  let ?s = "s\<lparr>st_drawn := Suc (st_drawn s), st_tasks := st_tasks s @ [?t]\<rparr>"
  have "task_row s (st_ids s (st_drawn s)) = None"
    using Cons.prems(8) unfolding fresh_ids_def task_row_None by (metis add_0_right)
  then have e: "exec_sql (Insert_Task nid v ev) s = (Row_Task ?t, ?s)"
    using Cons.prems
    by (auto simp: exec_sql_healthy with_uuid_def sql_insert_task_def Let_def list_ex_iff)
  then have "run exec_world (ask (Sql (Insert_Task nid v ev)) scan_task) (w\<lparr>w_store := s\<rparr>) = (Inr (Inr ?t), w\<lparr>w_store := ?s\<rparr>)"
    by simp
  then have r: "run exec_world (pg_insert_tasks nid ev (v # vs) ts) (w\<lparr>w_store := s\<rparr>) =
      run exec_world (pg_insert_tasks nid ev vs (ts @ [?t])) (w\<lparr>w_store := ?s\<rparr>)"
    by (simp add: run_try_Inr)
  have f: "fresh_ids ?s"
    unfolding fresh_ids_def
  proof (intro conjI allI)
    show "inj (st_ids ?s)" using Cons.prems(8) by (simp add: fresh_ids_def)
    fix k
    have "st_ids s (st_drawn s + Suc k) \<notin> t_id ` set (st_tasks s)" using Cons.prems(8) unfolding fresh_ids_def by blast
    moreover have "st_ids s (st_drawn s + Suc k) \<noteq> st_ids s (st_drawn s)"
      using Cons.prems(8) by (simp add: fresh_ids_def inj_eq)
    ultimately show "st_ids ?s (st_drawn ?s + k) \<notin> t_id ` set (st_tasks ?s)" by (simp add: new_task_def)
  qed
  have n: "tasks_for ?s d nid ev us = tasks_for s d nid ev us" for d us by (induction us arbitrary: d) auto
  have "run exec_world (pg_insert_tasks nid ev vs (ts @ [?t])) (w\<lparr>w_store := ?s\<rparr>) =
      (Inr (Inr ((ts @ [?t]) @ tasks_for ?s (st_drawn ?s) nid ev vs)), w\<lparr>w_store := with_tasks nid ev vs ?s\<rparr>)"
    using Cons.prems f by (intro Cons.IH) (auto simp: notif_row_def tasks_of_def new_task_def)
  then show ?case unfolding r by (simp add: n with_tasks_def)
qed

lemma run_publish_tasks:
  "w_mq_faults w = [] \<Longrightarrow> run exec_world (publish_tasks (prod_dispatcher cfg) ts) w =
     (Inr None, w\<lparr>w_published := w_published w @ map task_message ts\<rparr>)"
proof (induction ts arbitrary: w)
  case (Cons t ts)
  let ?w = "w\<lparr>w_published := w_published w @ [task_message t]\<rparr>"
  have "run exec_world (mq_publish_delivery (dd_mq (prod_dispatcher cfg)) (t_vendor_id t) (t_id t)) w = (Inr None, ?w)"
    using Cons.prems
    by (simp add: prod_dispatcher_def rmq_client_def rmq_publish_delivery_def marshal_delivery wrap_opt_def run_bind
        exec_publish_def task_message_def delivery_message_def)
  then show ?case using Cons by (simp add: run_check_None)
qed simp

lemma run_set_status:
  assumes "st_faults (w_store w) = []" "st_uuid (w_store w) nid = Some nid" "notif_row (w_store w) nid \<noteq> None"
    and "st \<in> set notif_statuses"
  shows "run exec_world (pg_update_notification_status nid st) w = (Inr None, with_notif_status nid st w)"
proof -
  have "exec_sql (Update_Notification_Status nid st) (w_store w) = (Done, w_store (with_notif_status nid st w))"
    using assms by (auto simp: exec_sql_healthy with_uuid_def sql_set_notif_status_def with_notif_status_def)
  from run_wrap_opt_sql [OF this] show ?thesis
    by (simp add: pg_update_notification_status_def with_notif_status_def)
qed

lemma run_get_notification:
  assumes "st_faults (w_store w) = []" "st_uuid (w_store w) nid = Some nid" "notif_row (w_store w) nid = Some n"
  shows "run exec_world (pg_get_notification nid) w = (Inr (Inr n), w)"
proof -
  have "exec_sql (Select_Notification nid) (w_store w) = (Row_Notification n, w_store w)"
    using assms by (simp add: exec_sql_healthy with_uuid_def select_notif_def)
  from run_wrap_err_sql [OF this, of scan_notification n] show ?thesis by (simp add: pg_get_notification_def)
qed

section \<open>Properties\<close>

lemma dispatched_row:
  assumes "notif_row (w_store w) (n_id n) = Some n" "n_status n = ''PENDING''"
  shows "\<exists>n'. notif_row (w_store (dispatched cfg n w)) (n_id n) = Some n' \<and> n_status n' \<noteq> ''PENDING''"
proof -
  have "\<exists>n'. notif_row (w_store (with_notif_status (n_id n) st w')) (n_id n) = Some n' \<and> n_status n' = st"
    if "st_notifs (w_store w') = st_notifs (w_store w)" for w' st
    using assms(1) that by (simp add: notif_row_def with_notif_status_def find_upd_where)
  from this [of w "''FAILED''"] this [of "w\<lparr>w_store := with_tasks (n_id n) (n_event_type n)
      (map rl_vendor_id (matched_rules (prod_dispatcher cfg) (n_event_type n))) (w_store w)\<rparr>" "''DELIVERING''"] assms(2)
  show ?thesis by (auto simp: dispatched_def Let_def with_tasks_def)
qed

lemma dispatched_same:
  "st_faults (w_store (dispatched cfg n w)) = st_faults (w_store w)"
  "st_uuid (w_store (dispatched cfg n w)) = st_uuid (w_store w)"
  by (simp_all add: dispatched_def Let_def with_notif_status_def with_tasks_def)

lemma run_dispatch_done:
  assumes "st_faults (w_store w) = []" "st_uuid (w_store w) nid = Some nid" "notif_row (w_store w) nid = Some n"
    and "n_status n \<noteq> ''PENDING''"
  shows "run exec_world (dispatch (prod_dispatcher cfg) nid) w = (Inr None, w)"
  unfolding dispatch_def using run_get_notification [OF assms(1-3)] assms(4)
  by (simp add: run_try_Inr prod_dispatcher_def pg_client_def)

lemma run_fan_out:
  assumes "st_faults (w_store w) = []" "st_uuid (w_store w) (n_id n) = Some (n_id n)"
    and "notif_row (w_store w) (n_id n) = Some n" "w_mq_faults w = []" "dispatchable cfg n (w_store w)"
    and rules: "rules = matched_rules (prod_dispatcher cfg) (n_event_type n)" "rules \<noteq> []" "n_status n = ''PENDING''"
  shows "run exec_world (fan_out (prod_dispatcher cfg) (n_id n) rules) w = (Inr None, dispatched cfg n w)"
proof -
  let ?d = "prod_dispatcher cfg" and ?s = "w_store w" and ?vs = "map rl_vendor_id rules"
  let ?ts = "tasks_for ?s (st_drawn ?s) (n_id n) (n_event_type n) ?vs"
  let ?w1 = "w\<lparr>w_store := with_tasks (n_id n) (n_event_type n) ?vs ?s\<rparr>"
  let ?w2 = "with_notif_status (n_id n) ''DELIVERING'' ?w1"
  have ins: "run exec_world (pg_insert_tasks (n_id n) (n_event_type n) ?vs []) w = (Inr (Inr ?ts), ?w1)"
    using run_insert_tasks [of ?s "n_id n" "n_event_type n" ?vs "[]" w] assms by (simp add: dispatchable_def Let_def)
  have "exec_sql (Select_Event_Type (n_id n)) ?s = (Row_Text (n_event_type n), ?s)"
    using assms by (simp add: exec_sql_healthy with_uuid_def select_notif_def)
  then have create: "run exec_world (db_create_tasks (dd_db ?d) (n_id n) ?vs) w = (Inr (Inr ?ts), ?w1)"
    using ins by (simp add: prod_dispatcher_def pg_client_def pg_create_tasks_def try_call_def run_bind)
  have upd: "run exec_world (db_update_notification_status (dd_db ?d) (n_id n) ''DELIVERING'') ?w1 = (Inr None, ?w2)"
    using run_set_status [of ?w1 "n_id n" "''DELIVERING''"] assms
    by (simp add: prod_dispatcher_def pg_client_def notif_statuses_def with_tasks_def notif_row_def)
  have pub: "run exec_world (publish_tasks ?d ?ts) ?w2 = (Inr None, ?w2\<lparr>w_published := w_published w @ map task_message ?ts\<rparr>)"
    using run_publish_tasks [of ?w2 cfg ?ts] assms(4) by (simp add: with_notif_status_def)
  have "run exec_world (fan_out ?d (n_id n) rules) w = (Inr None, ?w2\<lparr>w_published := w_published w @ map task_message ?ts\<rparr>)"
    unfolding fan_out_def by (simp only: run_try_Inr [OF create] run_check_None [OF upd] pub)
  with rules show ?thesis by (simp add: dispatched_def Let_def)
qed

text \<open>C10
  What a trigger message does while nothing fails, exactly: a notification that has left \<open>PENDING\<close> is not
  touched; without routing rules it becomes \<open>FAILED\<close>; otherwise one \<open>PENDING\<close> task per rule is stored in the
  order of the rules, the notification becomes \<open>DELIVERING\<close>, and one delivery message per task is
  published in the same order. A redelivered trigger then changes nothing.\<close>

theorem dispatch_outcome:
  assumes "healthy_world w" "n \<in> set (st_notifs (w_store w))" "dispatchable cfg n (w_store w)"
  shows "run exec_world (dispatch (prod_dispatcher cfg) (n_id n)) w = (Inr None, dispatched cfg n w) \<and>
         run exec_world (dispatch (prod_dispatcher cfg) (n_id n)) (dispatched cfg n w) = (Inr None, dispatched cfg n w)"
proof -
  let ?d = "prod_dispatcher cfg" and ?s = "w_store w"
  let ?rules = "matched_rules ?d (n_event_type n)"
  have h: "st_faults ?s = []" "st_uuid ?s (n_id n) = Some (n_id n)" "notif_row ?s (n_id n) = Some n" "w_mq_faults w = []"
    using assms(1,2) by (simp_all add: healthyD healthy_uuid notif_row_in)
  have get: "run exec_world (db_get_notification (dd_db ?d) (n_id n)) w = (Inr (Inr n), w)"
    using run_get_notification [OF h(1-3)] by (simp add: prod_dispatcher_def pg_client_def)
  have first: "run exec_world (dispatch ?d (n_id n)) w = (Inr None, dispatched cfg n w)"
  proof (cases "n_status n = ''PENDING''")
    case False
    with run_dispatch_done [OF h(1-3)] show ?thesis by (simp add: dispatched_def)
  next
    case pending: True
    show ?thesis
    proof (cases "?rules = []")
      case True
      have "run exec_world (db_update_notification_status (dd_db ?d) (n_id n) ''FAILED'') w =
          (Inr None, with_notif_status (n_id n) ''FAILED'' w)"
        using run_set_status [of w "n_id n" "''FAILED''"] h by (simp add: prod_dispatcher_def pg_client_def notif_statuses_def)
      with True pending get show ?thesis by (simp add: dispatch_def run_try_Inr run_check_None dispatched_def)
    next
      case False
      with run_fan_out [OF h assms(3) refl _ pending] pending get show ?thesis by (simp add: dispatch_def run_try_Inr)
    qed
  qed
  have "run exec_world (dispatch ?d (n_id n)) (dispatched cfg n w) = (Inr None, dispatched cfg n w)"
  proof (cases "n_status n = ''PENDING''")
    case True
    from dispatched_row [OF h(3) True] obtain n' where
      "notif_row (w_store (dispatched cfg n w)) (n_id n) = Some n'" "n_status n' \<noteq> ''PENDING''" by blast
    with h show ?thesis by (intro run_dispatch_done) (simp_all add: dispatched_same)
  next
    case False
    with first show ?thesis by (simp add: dispatched_def)
  qed
  with first show ?thesis by blast
qed

definition demo_pending :: world where
  "demo_pending = (demo_world [demo_notif\<lparr>n_status := ''PENDING''\<rparr>] [] [])
     \<lparr>w_store := (demo_store [demo_notif\<lparr>n_status := ''PENDING''\<rparr>] [])\<lparr>st_ids := (\<lambda>k. replicate k (CHR ''a''))\<rparr>\<rparr>"

theorem dispatch_outcome_witness:
  "\<exists>w'. run exec_world (dispatch (prod_dispatcher demo_config) ''n1'') demo_pending = (Inr None, w') \<and>
     run exec_world (dispatch (prod_dispatcher demo_config) ''n1'') w' = (Inr None, w') \<and>
     map (\<lambda>t. (t_vendor_id t, t_status t)) (st_tasks (w_store w')) = [(''crm'', ''PENDING'')] \<and>
     map n_status (st_notifs (w_store w')) = [''DELIVERING''] \<and> length (w_published w') = 1"
proof -
  let ?n = "demo_notif\<lparr>n_status := ''PENDING''\<rparr>"
  have v: "varchar 64 ''crm'' = Some ''crm''" "varchar 128 ''user.created'' = Some ''user.created''" by code_simp+
  have h: "healthy_world demo_pending"
    by (simp add: healthy_world_def wf_store_def uuid_ok_def demo_pending_def demo_world_def demo_store_def demo_notif_def
        notif_statuses_def)
  have n: "?n \<in> set (st_notifs (w_store demo_pending))" by (simp add: demo_pending_def demo_store_def)
  have inj: "inj (\<lambda>k. replicate k (CHR ''a''))" by (rule injI) (drule arg_cong [where f = length], simp)
  have d: "dispatchable demo_config ?n (w_store demo_pending)"
    using v inj
    by (simp add: dispatchable_def Let_def matched_rules_def prod_dispatcher_def demo_config_def demo_notif_def demo_pending_def
        demo_world_def demo_store_def tasks_of_def fresh_ids_def)
  have i: "n_id ?n = ''n1''" by (simp add: demo_notif_def)
  have f: "map (\<lambda>t. (t_vendor_id t, t_status t)) (st_tasks (w_store (dispatched demo_config ?n demo_pending))) = [(''crm'', ''PENDING'')] \<and>
     map n_status (st_notifs (w_store (dispatched demo_config ?n demo_pending))) = [''DELIVERING''] \<and>
     length (w_published (dispatched demo_config ?n demo_pending)) = 1"
    by (simp add: dispatched_def with_notif_status_def with_tasks_def upd_where_def matched_rules_def prod_dispatcher_def
        demo_config_def demo_notif_def demo_pending_def demo_world_def demo_store_def new_task_def Let_def)
  from dispatch_outcome [OF h n d] show ?thesis
    unfolding i by (intro exI [of _ "dispatched demo_config ?n demo_pending"] conjI f [THEN conjunct1]
        f [THEN conjunct2, THEN conjunct1] f [THEN conjunct2, THEN conjunct2]) simp_all
qed

end
