(* ===== verification/Go_Duration.thy ===== *)
theory Go_Duration
  imports Go_Value
begin

text \<open>
  Go's \<open>time.ParseDuration\<close>, which reads the delays of the configuration files: a signed sequence of
  decimal numbers with units, in nanoseconds, with its overflow checks on \<open>uint64\<close>.
\<close>

definition invalid_duration :: go_error where
  "invalid_duration = ErrExternal ''time: invalid duration''"

definition f_div :: "f64 \<Rightarrow> f64 \<Rightarrow> f64" where
  "f_div a b =
     (if a = NaN \<or> b = NaN then NaN
      else let s = (f_neg a \<noteq> f_neg b)
           in case (f_val a, f_val b) of
                (Some x, Some y) \<Rightarrow>
                  if y = 0 then (if x = 0 then NaN else Infinite s)
                  else if x = 0 then signed_zero s else rnd64 (x / y)
              | (Some x, None) \<Rightarrow> signed_zero s
              | (None, Some y) \<Rightarrow> Infinite s
              | (None, None) \<Rightarrow> NaN)"

text \<open>\<open>leadingInt\<close>: the value of the leading digits and the rest; \<open>None\<close> when it exceeds \<open>1<<63\<close>.\<close>

fun leading_int :: "int \<Rightarrow> string \<Rightarrow> (int \<times> string) option" where
  "leading_int x [] = Some (x, [])"
| "leading_int x (c # cs) =
     (case digit_val c of
        None \<Rightarrow> Some (x, c # cs)
      | Some d \<Rightarrow>
          if x > 2 ^ 63 div 10 then None
          else let y = 10 * x + int d in if y > 2 ^ 63 then None else leading_int y cs)"

text \<open>\<open>leadingFraction\<close>: digits beyond the precision are read and dropped.\<close>

fun leading_fraction :: "int \<Rightarrow> f64 \<Rightarrow> bool \<Rightarrow> string \<Rightarrow> int \<times> f64 \<times> string" where
  "leading_fraction x scale overflow [] = (x, scale, [])"
| "leading_fraction x scale overflow (c # cs) =
     (case digit_val c of
        None \<Rightarrow> (x, scale, c # cs)
      | Some d \<Rightarrow>
          if overflow then leading_fraction x scale True cs
          else if x > (2 ^ 63 - 1) div 10 then leading_fraction x scale True cs
          else let y = 10 * x + int d
               in if y > 2 ^ 63 then leading_fraction x scale True cs
                  else leading_fraction y (f_mul scale (Fin 10)) False cs)"

definition unit_ns :: "string \<Rightarrow> int option" where
  "unit_ns u = map_of
     [(''ns'', 1), (''us'', 1000), ([CHR 0xC2, CHR 0xB5, CHR ''s''], 1000),
      ([CHR 0xCE, CHR 0xBC, CHR ''s''], 1000), (''ms'', 1000000), (''s'', 1000000000),
      (''m'', 60000000000), (''h'', 3600000000000)] u"

definition unit_char :: "char \<Rightarrow> bool" where
  "unit_char c \<longleftrightarrow> c \<noteq> CHR ''.'' \<and> \<not> is_digit c"

definition span_unit :: "string \<Rightarrow> string \<times> string" where
  "span_unit s = (takeWhile unit_char s, dropWhile unit_char s)"

text \<open>The number with its unit at the head of \<open>s\<close>, in nanoseconds, and what follows it.\<close>

definition parse_term :: "string \<Rightarrow> go_error + int \<times> string" where
  "parse_term s =
     (if s = [] \<or> \<not> (hd s = CHR ''.'' \<or> is_digit (hd s)) then Inl invalid_duration
      else case leading_int 0 s of
        None \<Rightarrow> Inl invalid_duration
      | Some (v, s1) \<Rightarrow>
          (let pre = (length s1 \<noteq> length s);
               (f, scale, s2, post) =
                 (case s1 of
                    c # r \<Rightarrow> if c = CHR ''.''
                      then (case leading_fraction 0 (Fin 1) False r of (f, scale, r') \<Rightarrow> (f, scale, r', length r' \<noteq> length r))
                      else (0, Fin 1, s1, False)
                  | [] \<Rightarrow> (0, Fin 1, s1, False))
           in if \<not> pre \<and> \<not> post then Inl invalid_duration
              else case span_unit s2 of (u, rest) \<Rightarrow>
                if u = [] then Inl (ErrExternal ''time: missing unit in duration'')
                else case unit_ns u of
                  None \<Rightarrow> Inl (ErrExternal ''time: unknown unit in duration'')
                | Some unit \<Rightarrow>
                    if v > 2 ^ 63 div unit then Inl invalid_duration
                    else let w = v * unit;
                             w' = (if f > 0 then (w + f_to_i64 (f_mul (f_of_int f) (f_div (f_of_int unit) scale))) mod 2 ^ 64
                                   else w)
                         in if f > 0 \<and> w' > 2 ^ 63 then Inl invalid_duration else Inr (w', rest)))"

lemma leading_int_length: "leading_int x s = Some (v, r) \<Longrightarrow> length r \<le> length s"
  by (induction x s rule: leading_int.induct) (auto simp: Let_def split: option.splits if_splits intro: le_SucI)

lemma leading_fraction_length: "leading_fraction x sc ov s = (f, sc', r) \<Longrightarrow> length r \<le> length s"
  by (induction x sc ov s rule: leading_fraction.induct) (auto simp: Let_def split: option.splits if_splits intro: le_SucI)

lemma span_unit_length: "span_unit s = (u, r) \<Longrightarrow> u \<noteq> [] \<Longrightarrow> length r < length s"
proof -
  assume "span_unit s = (u, r)" "u \<noteq> []"
  then have "s = u @ r" by (auto simp: span_unit_def)
  with \<open>u \<noteq> []\<close> show ?thesis by simp
qed

lemma parse_term_length: "parse_term s = Inr (v, r) \<Longrightarrow> length r < length s"
  unfolding parse_term_def Let_def
  by (auto split: if_splits option.splits prod.splits list.splits
      dest!: leading_int_length leading_fraction_length span_unit_length)

text \<open>The loop; \<open>d\<close> is an \<open>uint64\<close>.\<close>

function parse_terms :: "int \<Rightarrow> string \<Rightarrow> go_error + int" where
  "parse_terms d s =
     (if s = [] then Inr d
      else case parse_term s of
        Inl e \<Rightarrow> Inl e
      | Inr (v, r) \<Rightarrow>
          (let d' = (d + v) mod 2 ^ 64
           in if d' > 2 ^ 63 then Inl invalid_duration else parse_terms d' r))"
  by pat_completeness auto
termination
  by (relation "measure (\<lambda>(d, s). length s)") (auto dest: parse_term_length)

declare parse_terms.simps [simp del]

definition parse_duration :: "string \<Rightarrow> go_error + int" where
  "parse_duration orig =
     (let (neg, s) = (case orig of
            c # cs \<Rightarrow> if c = CHR ''-'' \<or> c = CHR ''+'' then (c = CHR ''-'', cs) else (False, orig)
          | [] \<Rightarrow> (False, []))
      in if s = ''0'' then Inr 0
         else if s = [] then Inl invalid_duration
         else case parse_terms 0 s of
           Inl e \<Rightarrow> Inl e
         | Inr d \<Rightarrow>
             if neg then Inr (w64 (- d))
             else if d > 2 ^ 63 - 1 then Inl invalid_duration else Inr d)"

section \<open>Durations of one number and one unit\<close>

lemma digit_val_less: "digit_val c = Some d \<Longrightarrow> d < 10"
  by (auto simp: digit_val_def Let_def split: if_splits)

lemma leading_int_digits:
  assumes "read_digits x s = Some n" "0 \<le> x" "n \<le> 2 ^ 63" "r = [] \<or> \<not> is_digit (hd r)"
  shows "leading_int x (s @ r) = Some (n, r)"
  using assms(1-3)
proof (induction x s rule: read_digits.induct)
  case (1 x)
  with assms(4) show ?case by (cases r) (auto simp: is_digit_def)
next
  case (2 x c cs)
  then obtain d where d: "digit_val c = Some d" "read_digits (10 * x + int d) cs = Some n"
    by (auto split: option.splits)
  have mono: "y \<le> m" if "read_digits y t = Some m" "0 \<le> y" for y t and m :: int
    using that by (induction y t rule: read_digits.induct) (fastforce split: option.splits)+
  have "10 * x + int d \<le> n" using mono [OF d(2)] 2(3) by simp
  then have "x \<le> 2 ^ 63 div 10" "10 * x + int d \<le> 2 ^ 63" using 2(4) by linarith+
  with 2 d show ?case by (simp add: Let_def)
qed

lemma parse_number_unit:
  assumes "0 \<le> n" "unit_ns u = Some k" "n * k \<le> max_i64"
  shows "parse_duration (show_int n @ u) = Inr (n * k)"
proof -
  have k: "0 < k" "u \<noteq> []" "\<forall>c \<in> set u. unit_char c"
    using assms(2) by (auto simp: unit_ns_def unit_char_def is_digit_def digit_val_def split: if_splits)
  have n: "n \<le> 2 ^ 63 div k" "n \<le> 2 ^ 63"
  proof -
    have "n = n * k div k" using k(1) by simp
    also have "\<dots> \<le> 2 ^ 63 div k" using assms(3) k(1) by (intro zdiv_mono1) (simp_all add: max_i64_def)
    finally show "n \<le> 2 ^ 63 div k" .
    have "n * 1 \<le> n * k" using assms(1) k(1) by (intro mult_left_mono) auto
    then show "n \<le> 2 ^ 63" using assms(3) by (simp add: max_i64_def)
  qed
  let ?s = "show_pos n"
  have digits: "leading_int 0 (?s @ u) = Some (n, u)"
    using k by (intro leading_int_digits read_digits_show_pos assms(1) n) (auto simp: unit_char_def)
  have span: "span_unit u = (u, [])" using k(3) by (auto simp: span_unit_def)
  have hd: "is_digit (hd (?s @ u))"
  proof -
    obtain c cs where c: "?s = c # cs" by (cases ?s) auto
    with read_digits_show_pos [OF assms(1)] show ?thesis by (auto simp: is_digit_def split: option.splits)
  qed
  obtain c cs where c: "u = c # cs" "c \<noteq> CHR ''.''" using k by (cases u) (auto simp: unit_char_def)
  have "parse_term (?s @ u) = Inr (n * k, [])"
    using hd digits span k(2) assms(2) n c
    by (simp add: parse_term_def Let_def)
  then have "parse_terms 0 (?s @ u) = Inr (n * k)"
    using assms k c by (simp add: parse_terms.simps max_i64_def)
  moreover have "?s @ u \<noteq> ''0''" using c k(2) by (auto simp: append_eq_Cons_conv)
  moreover have "hd (?s @ u) \<noteq> CHR ''-''" "hd (?s @ u) \<noteq> CHR ''+''" using hd by (auto simp: is_digit_def digit_val_def)
  ultimately show ?thesis
    using assms(1,3) by (cases "?s @ u") (auto simp: parse_duration_def show_int_def max_i64_def)
qed

end
