(* ===== verification/Config_Loader.thy ===== *)
theory Config_Loader
  imports Go_Duration Effects "HOL-Library.Signed_Division"
begin

text \<open>
  \<open>internal/config/loader.go\<close>: the configuration directory is walked, each YAML file decoded and
  converted, failures recorded beside the values, and the result checked across files and served through
  the getters of \<open>port.ConfigProvider\<close>. The YAML library is a parameter: one decoder per file type. The
  file system is a tree; a map's iteration order is an argument of the loops that depend on it.
\<close>

section \<open>File contents\<close>

record routes_file =
  rf_event_type :: string
  rf_routes :: "string list"

record vendor_auth_file =
  af_type :: string
  af_config :: "(string, gval) gomap"

record vendor_retry_file =
  rt_max_attempts :: int
  rt_base_delay :: string
  rt_max_delay :: string
  rt_multiplier :: f64
  rt_jitter :: f64

record response_rule_item =
  ri_type :: string
  ri_field :: string
  ri_expected :: gval
  ri_expected_status :: int

record response_judgment_file =
  jf_success :: "response_rule_item option"
  jf_retryable :: "response_rule_item option"

record vendor_config_file =
  vf_vendor_id :: string
  vf_base_url :: string
  vf_auth :: "vendor_auth_file option"
  vf_retry :: vendor_retry_file
  vf_judgment :: "response_judgment_file option"

record contract_file =
  cf_event_type :: string
  cf_method :: string
  cf_path :: string
  cf_headers :: "(string, string) gomap"
  cf_body_type :: string
  cf_template :: "(string, gval) gomap option"
  cf_retry :: "vendor_retry_file option"

record schema_file =
  sf_event_type :: string
  sf_description :: string
  sf_version :: int
  sf_schema :: "(string, gval) gomap option"

record yaml =
  ym_routes :: "string \<Rightarrow> go_error + routes_file"
  ym_vendor :: "string \<Rightarrow> go_error + vendor_config_file"
  ym_contract :: "string \<Rightarrow> go_error + contract_file"
  ym_schema :: "string \<Rightarrow> go_error + schema_file"

section \<open>The loader\<close>

record 'a loaded_value =
  lv_value :: 'a
  lv_error :: "go_error option"

text \<open>\<open>ld_next\<close> is the address of the next map the decoder allocates.\<close>

record loader =
  ld_paths :: "string list"
  ld_rules :: "(string, routing_rule list loaded_value) gomap"
  ld_vendors :: "(string, vendor_config option loaded_value) gomap"
  ld_contracts :: "(string, delivery_spec option loaded_value) gomap"
  ld_schemas :: "(string, (nat \<times> (string, gval) gomap) option loaded_value) gomap"
  ld_next :: nat

definition new_loader :: "string list \<Rightarrow> loader" where
  "new_loader paths = \<lparr>ld_paths = paths, ld_rules = [], ld_vendors = [], ld_contracts = [], ld_schemas = [],
     ld_next = 1\<rparr>"

definition loaded :: "'a \<Rightarrow> 'a loaded_value" where
  "loaded v = \<lparr>lv_value = v, lv_error = None\<rparr>"

definition failed :: "'a \<Rightarrow> go_error \<Rightarrow> 'a loaded_value" where
  "failed zero e = \<lparr>lv_value = zero, lv_error = Some e\<rparr>"

definition record_error :: "string \<Rightarrow> string \<Rightarrow> go_error \<Rightarrow> loader \<Rightarrow> loader" where
  "record_error typ scope e l =
     (if typ = ''vendor'' then l\<lparr>ld_vendors := gm_put scope (failed None e) (ld_vendors l)\<rparr>
      else if typ = ''contract'' then l\<lparr>ld_contracts := gm_put scope (failed None e) (ld_contracts l)\<rparr>
      else if typ = ''schema'' then l\<lparr>ld_schemas := gm_put scope (failed None e) (ld_schemas l)\<rparr>
      else if typ = ''route'' then l\<lparr>ld_rules := gm_put scope (failed [] e) (ld_rules l)\<rparr>
      else l)"

section \<open>Path templates\<close>

record yaml_seg =
  sg_is_var :: bool
  sg_name :: string
  sg_ext :: string

text \<open>\<open>None\<close> stands for the slice expression out of range that a template without \<open>}\<close> gives.\<close>

definition parse_seg :: "string \<Rightarrow> yaml_seg option" where
  "parse_seg part =
     (case index_byte part (CHR ''{'') of
        None \<Rightarrow> Some \<lparr>sg_is_var = False, sg_name = part, sg_ext = []\<rparr>
      | Some b \<Rightarrow>
          (case index_byte part (CHR ''}'') of
             None \<Rightarrow> None
           | Some c \<Rightarrow> if c < b + 1 then None
               else Some \<lparr>sg_is_var = True, sg_name = take (c - (b + 1)) (drop (b + 1) part),
                          sg_ext = drop (c + 1) part\<rparr>))"

definition parse_yaml_template :: "string \<Rightarrow> yaml_seg list option" where
  "parse_yaml_template tmpl = those (map parse_seg (split_on (CHR ''/'') tmpl))"

section \<open>The file system\<close>

text \<open>
  A directory has the error that listing it gives, if any, and its entries; a link has its target. Only a
  directory proper counts as one when it is met as an entry.
\<close>

datatype fs_node = File "go_error + string" | Dir "go_error option" "(string \<times> fs_node) list" | Link fs_node

fun follow :: "fs_node \<Rightarrow> fs_node" where
  "follow (Link n) = follow n"
| "follow n = n"

fun entry_is_dir :: "fs_node \<Rightarrow> bool" where
  "entry_is_dir (Dir _ _) = True"
| "entry_is_dir _ = False"

definition exists_and_is_dir :: "fs_node option \<Rightarrow> bool" where
  "exists_and_is_dir n = (case n of None \<Rightarrow> False | Some n \<Rightarrow> entry_is_dir (follow n))"

definition child :: "fs_node \<Rightarrow> string \<Rightarrow> fs_node option" where
  "child n name = (case follow n of Dir _ es \<Rightarrow> map_of es name | _ \<Rightarrow> None)"

definition read_dir :: "fs_node \<Rightarrow> go_error + (string \<times> fs_node) list" where
  "read_dir n =
     (case follow n of
        Dir None es \<Rightarrow> Inr (sort_entries es)
      | Dir (Some e) es \<Rightarrow> Inl e
      | _ \<Rightarrow> Inl (ErrExternal ''not a directory''))"

definition read_file :: "fs_node option \<Rightarrow> go_error + string" where
  "read_file n =
     (case n of
        None \<Rightarrow> Inl (ErrExternal ''no such file or directory'')
      | Some n \<Rightarrow> (case follow n of File r \<Rightarrow> r | _ \<Rightarrow> Inl (ErrExternal ''is a directory'')))"

definition join_path :: "string \<Rightarrow> string \<Rightarrow> string" where
  "join_path dir name = dir @ CHR ''/'' # name"

text \<open>\<open>filepath.Base\<close> of a path that \<open>join_path\<close> has built from a file name.\<close>

definition base_name :: "string \<Rightarrow> string" where
  "base_name path = last (split_on (CHR ''/'') path)"

section \<open>Walking\<close>

type_synonym vars = "(string, string) gomap"
type_synonym 'a visit = "(go_error + 'a) \<times> string \<times> vars"

definition parse_yaml_file_at ::
  "(string \<Rightarrow> go_error + 'a) \<Rightarrow> string \<Rightarrow> fs_node option \<Rightarrow> vars \<Rightarrow> 'a visit" where
  "parse_yaml_file_at decode path node vars =
     (case read_file node of
        Inl e \<Rightarrow> Inl (Errorf ''reading file: %w'' [ArgErr e])
      | Inr data \<Rightarrow> map_err (\<lambda>e. Errorf ''parsing YAML: %w'' [ArgErr e]) (decode data), path, vars)"

definition var_of :: "vars \<Rightarrow> string \<Rightarrow> string" where
  "var_of vars k = (case gm_get vars k of None \<Rightarrow> [] | Some v \<Rightarrow> v)"

text \<open>The calls of the visitor, in order.\<close>

fun walk_yaml_at ::
  "(string \<Rightarrow> go_error + 'a) \<Rightarrow> string \<Rightarrow> fs_node \<Rightarrow> yaml_seg list \<Rightarrow> vars \<Rightarrow> 'a visit list" where
  "walk_yaml_at decode dir node [] vars = []"
| "walk_yaml_at decode dir node [seg] vars =
     (if sg_is_var seg then
        (case read_dir node of
           Inl e \<Rightarrow> []
         | Inr es \<Rightarrow>
             map (\<lambda>(name, n). parse_yaml_file_at decode (join_path dir name) (Some n)
                    (gm_put (sg_name seg) (trim_suffix name (sg_ext seg)) vars))
               (filter (\<lambda>(name, n). \<not> entry_is_dir n \<and> has_suffix name (sg_ext seg)) es))
      else [parse_yaml_file_at decode (join_path dir (sg_name seg)) (child node (sg_name seg)) vars])"
| "walk_yaml_at decode dir node (seg # seg' # segs) vars =
     (if sg_is_var seg then
        (case read_dir node of
           Inl e \<Rightarrow> []
         | Inr es \<Rightarrow>
             concat (map (\<lambda>(name, n).
                 walk_yaml_at decode (join_path dir name) n (seg' # segs) (gm_put (sg_name seg) name vars))
               (filter (\<lambda>(name, n). entry_is_dir n) es)))
      else
        (case child node (sg_name seg) of
           None \<Rightarrow> []
         | Some n \<Rightarrow> if exists_and_is_dir (Some n)
             then walk_yaml_at decode (join_path dir (sg_name seg)) n (seg' # segs) vars else []))"

definition walk_yaml ::
  "(string \<Rightarrow> go_error + 'a) \<Rightarrow> string \<Rightarrow> fs_node \<Rightarrow> string \<Rightarrow> 'a visit list prog" where
  "walk_yaml decode dir node tmpl =
     (case parse_yaml_template tmpl of
        None \<Rightarrow> Panic ''slice bounds out of range''
      | Some segs \<Rightarrow> Ret (walk_yaml_at decode dir node segs []))"

section \<open>Conversions\<close>

definition parse_duration_to_ms :: "string \<Rightarrow> go_error + int" where
  "parse_duration_to_ms s = (case parse_duration s of Inl e \<Rightarrow> Inl e | Inr d \<Rightarrow> Inr (d sdiv 1000000))"

definition convert_retry :: "vendor_retry_file \<Rightarrow> int \<Rightarrow> int \<Rightarrow> retry_policy" where
  "convert_retry r base limit =
     \<lparr>rp_max_attempts = rt_max_attempts r, rp_base_delay_ms = base, rp_max_delay_ms = limit,
      rp_multiplier = rt_multiplier r, rp_jitter = rt_jitter r\<rparr>"

definition convert_vendor_retry_file :: "vendor_retry_file option \<Rightarrow> go_error + retry_policy option" where
  "convert_vendor_retry_file r =
     (case r of
        None \<Rightarrow> Inr None
      | Some r \<Rightarrow>
          (case parse_duration_to_ms (rt_base_delay r) of
             Inl e \<Rightarrow> Inl e
           | Inr base \<Rightarrow>
               (case parse_duration_to_ms (rt_max_delay r) of
                  Inl e \<Rightarrow> Inl e
                | Inr limit \<Rightarrow> Inr (Some (convert_retry r base limit)))))"

definition convert_rule :: "response_rule_item \<Rightarrow> response_rule" where
  "convert_rule i = \<lparr>rr_judge_type = ri_type i, rr_field = ri_field i, rr_expected = ri_expected i,
     rr_expected_status = ri_expected_status i\<rparr>"

definition convert_response_judgment :: "response_judgment_file option \<Rightarrow> response_judgment" where
  "convert_response_judgment rj =
     (case rj of
        None \<Rightarrow> \<lparr>rj_success_rules = [], rj_retryable_rules = []\<rparr>
      | Some j \<Rightarrow>
          \<lparr>rj_success_rules = (case jf_success j of None \<Rightarrow> [] | Some i \<Rightarrow> [convert_rule i]),
           rj_retryable_rules = (case jf_retryable j of None \<Rightarrow> [] | Some i \<Rightarrow> [convert_rule i])\<rparr>)"

section \<open>Loading\<close>

text \<open>The four visitors of \<open>loadDir\<close>.\<close>

definition load_route :: "routes_file visit \<Rightarrow> loader \<Rightarrow> loader" where
  "load_route visit l =
     (case visit of (r, path, vars) \<Rightarrow>
        case r of
          Inl e \<Rightarrow> record_error ''route'' (var_of vars ''event'') e l
        | Inr file \<Rightarrow>
            if rf_event_type file = []
            then record_error ''route'' (var_of vars ''event'') (Errorf ''missing event_type'' []) l
            else l\<lparr>ld_rules := gm_put (rf_event_type file)
                     (loaded (map (\<lambda>v. \<lparr>rl_event_type = rf_event_type file, rl_vendor_id = v\<rparr>) (rf_routes file)))
                     (ld_rules l)\<rparr>)"

definition load_schema :: "schema_file visit \<Rightarrow> loader \<Rightarrow> loader" where
  "load_schema visit l =
     (case visit of (r, path, vars) \<Rightarrow>
        case r of
          Inl e \<Rightarrow> record_error ''schema'' (var_of vars ''event'') e l
        | Inr file \<Rightarrow>
            (case sf_schema file of
               None \<Rightarrow> record_error ''schema'' (var_of vars ''event'') (Errorf ''missing event_type or schema'' []) l
             | Some m \<Rightarrow>
                 if sf_event_type file = []
                 then record_error ''schema'' (var_of vars ''event'') (Errorf ''missing event_type or schema'' []) l
                 else l\<lparr>ld_schemas := gm_put (sf_event_type file) (loaded (Some (ld_next l, m))) (ld_schemas l),
                        ld_next := Suc (ld_next l)\<rparr>))"

definition load_vendor :: "vendor_config_file visit \<Rightarrow> loader \<Rightarrow> loader" where
  "load_vendor visit l =
     (case visit of (r, path, vars) \<Rightarrow>
        let vendor_id = var_of vars ''vendor''
        in case r of
             Inl e \<Rightarrow> record_error ''vendor'' vendor_id e l
           | Inr file \<Rightarrow>
               (case parse_duration_to_ms (rt_base_delay (vf_retry file)) of
                  Inl e \<Rightarrow> record_error ''vendor'' vendor_id (Errorf ''parsing base_delay: %w'' [ArgErr e]) l
                | Inr base \<Rightarrow>
                    (case parse_duration_to_ms (rt_max_delay (vf_retry file)) of
                       Inl e \<Rightarrow> record_error ''vendor'' vendor_id (Errorf ''parsing max_delay: %w'' [ArgErr e]) l
                     | Inr limit \<Rightarrow>
                         l\<lparr>ld_vendors := gm_put vendor_id (loaded (Some
                             \<lparr>vc_vendor_id = vendor_id, vc_base_url = vf_base_url file,
                              vc_auth = map_option (\<lambda>a. \<lparr>ac_type = af_type a, ac_config = af_config a\<rparr>) (vf_auth file),
                              vc_retry = convert_retry (vf_retry file) base limit,
                              vc_judgment = convert_response_judgment (vf_judgment file)\<rparr>)) (ld_vendors l)\<rparr>)))"

definition contract_key :: "string \<Rightarrow> string \<Rightarrow> string" where
  "contract_key vendor ev = vendor @ CHR ''/'' # ev"

definition contract_spec :: "contract_file \<Rightarrow> string \<Rightarrow> retry_policy option \<Rightarrow> delivery_spec" where
  "contract_spec file ev retry =
     \<lparr>ds_mapping =
        \<lparr>mc_event_type = ev,
         mc_request = \<lparr>rq_method = cf_method file, rq_path = cf_path file, rq_headers = cf_headers file\<rparr>,
         mc_body = \<lparr>bc_type = cf_body_type file, bc_template = cf_template file\<rparr>\<rparr>,
      ds_judgment = None, ds_retry = retry\<rparr>"

definition load_contract :: "contract_file visit \<Rightarrow> loader \<Rightarrow> loader" where
  "load_contract visit l =
     (case visit of (r, path, vars) \<Rightarrow>
        let vendor_id = var_of vars ''vendor''
        in case r of
             Inl e \<Rightarrow> record_error ''contract'' (contract_key vendor_id (var_of vars ''event'')) e l
           | Inr file \<Rightarrow>
               let event_type = (if cf_event_type file = [] then var_of vars ''event'' else cf_event_type file);
                   scope = contract_key vendor_id (base_name path)
               in case convert_vendor_retry_file (cf_retry file) of
                    Inl e \<Rightarrow> record_error ''contract'' scope (Errorf ''contract retry_policy: %w'' [ArgErr e]) l
                  | Inr retry \<Rightarrow>
                      l\<lparr>ld_contracts := gm_put (contract_key vendor_id event_type)
                          (loaded (Some (contract_spec file event_type retry))) (ld_contracts l)\<rparr>)"

definition load_events :: "yaml \<Rightarrow> string \<Rightarrow> fs_node \<Rightarrow> loader \<Rightarrow> loader prog" where
  "load_events y dir node l =
     bind (walk_yaml (ym_routes y) dir node ''{biz}/routes/{event}.yaml'')
       (\<lambda>routes. bind (walk_yaml (ym_schema y) dir node ''{biz}/events/{event}.yaml'')
          (\<lambda>schemas. Ret (fold load_schema schemas (fold load_route routes l))))"

definition load_vendors :: "yaml \<Rightarrow> string \<Rightarrow> fs_node \<Rightarrow> loader \<Rightarrow> loader prog" where
  "load_vendors y dir node l =
     bind (walk_yaml (ym_vendor y) dir node ''{vendor}/vendor.yaml'')
       (\<lambda>vendors. bind (walk_yaml (ym_contract y) dir node ''{vendor}/{biz}/{event}.yaml'')
          (\<lambda>contracts. Ret (fold load_contract contracts (fold load_vendor vendors l))))"

definition load_dir :: "yaml \<Rightarrow> string \<Rightarrow> fs_node \<Rightarrow> loader \<Rightarrow> (go_error option \<times> loader) prog" where
  "load_dir y dir node l =
     (let events_dir = join_path dir ''events''; vendors_dir = join_path dir ''vendors'';
          events = child node ''events''; vendors = child node ''vendors''
      in if \<not> exists_and_is_dir events \<and> \<not> exists_and_is_dir vendors
         then Ret (Some (Errorf ''neither %q nor %q exist or are readable'' [ArgStr events_dir, ArgStr vendors_dir]), l)
         else bind (case events of Some n \<Rightarrow> if exists_and_is_dir events then load_events y events_dir n l else Ret l
                    | None \<Rightarrow> Ret l)
                (\<lambda>l. bind (case vendors of Some n \<Rightarrow> if exists_and_is_dir vendors then load_vendors y vendors_dir n l else Ret l
                           | None \<Rightarrow> Ret l)
                   (\<lambda>l. Ret (None, l))))"

section \<open>Checks across files\<close>

function extract_text_refs :: "string \<Rightarrow> string list" where
  "extract_text_refs [] = []"
| "extract_text_refs (c # cs) =
     (let s = c # cs
      in if 10 < length s \<and> has_prefix s (CHR ''@'' # ''{payload:'') then
           (case index_byte s (CHR ''}'') of
              Some e \<Rightarrow>
                (if 0 < e then
                   (let ref = drop 10 (take e s);
                        first = (case index_byte ref (CHR ''.'') of
                                   Some d \<Rightarrow> if 0 < d then take d ref else ref
                                 | None \<Rightarrow> ref)
                    in (if first = [] then [] else [first]) @ extract_text_refs (drop (e + 1) s))
                 else extract_text_refs cs)
            | None \<Rightarrow> extract_text_refs cs)
         else extract_text_refs cs)"
  by pat_completeness auto
termination
  by (relation "measure length") auto

text \<open>\<open>order\<close> gives the order in which Go's \<open>range\<close> visits the keys of a map.\<close>

function (sequential) extract_payload_refs :: "(string list \<Rightarrow> string list) \<Rightarrow> gval \<Rightarrow> string list" where
  "extract_payload_refs order (VStr s) = extract_text_refs s"
| "extract_payload_refs order (VMap m) =
     concat (map (\<lambda>k. case gm_get m k of None \<Rightarrow> [] | Some v \<Rightarrow> extract_payload_refs order v) (order (map fst m)))"
| "extract_payload_refs order (VList vs) = concat (map (extract_payload_refs order) vs)"
| "extract_payload_refs order _ = []"
  by pat_completeness auto
termination
  by (relation "measure (\<lambda>(order, v). size v)") (auto dest: gval_size_get gval_size_elem)

definition check_route ::
  "(string, vendor_config option loaded_value) gomap \<Rightarrow> routing_rule list loaded_value \<Rightarrow> routing_rule list loaded_value" where
  "check_route vendors lv =
     (if lv_error lv \<noteq> None then lv
      else case find (\<lambda>r. \<not> gm_has vendors (rl_vendor_id r)) (lv_value lv) of
        None \<Rightarrow> lv
      | Some r \<Rightarrow> failed [] (Errorf ''routing rule references non-existent vendor %q'' [ArgStr (rl_vendor_id r)]))"

definition declared_fields ::
  "(string, (nat \<times> (string, gval) gomap) option loaded_value) gomap \<Rightarrow> string \<Rightarrow> (string, gval) gomap option" where
  "declared_fields schemas ev =
     (case gm_get schemas ev of
        None \<Rightarrow> None
      | Some s \<Rightarrow>
          if lv_error s \<noteq> None then None
          else case lv_value s of
            None \<Rightarrow> None
          | Some (a, m) \<Rightarrow> (case gm_get m ''properties'' of Some (VMap props) \<Rightarrow> Some props | _ \<Rightarrow> None))"

definition check_contract ::
  "(string list \<Rightarrow> string list) \<Rightarrow> (string, (nat \<times> (string, gval) gomap) option loaded_value) gomap \<Rightarrow>
   delivery_spec option loaded_value \<Rightarrow> delivery_spec option loaded_value" where
  "check_contract order schemas lv =
     (if lv_error lv \<noteq> None then lv
      else case lv_value lv of
        None \<Rightarrow> lv
      | Some spec \<Rightarrow>
          let ev = mc_event_type (ds_mapping spec)
          in if ev = [] then lv
             else case declared_fields schemas ev of
               None \<Rightarrow> lv
             | Some props \<Rightarrow>
                 (case find (\<lambda>f. \<not> gm_has props f)
                         (extract_payload_refs order (map_value (bc_template (mc_body (ds_mapping spec))))) of
                    None \<Rightarrow> lv
                  | Some f \<Rightarrow> failed None
                      (Errorf ''contract references field %q not declared in schema for %q'' [ArgStr f, ArgStr ev])))"

text \<open>The loops over the two maps visit the keys in some order and update the entry they are at.\<close>

definition validate_routes :: "string list \<Rightarrow> loader \<Rightarrow> loader" where
  "validate_routes order l = fold (\<lambda>k l.
     case gm_get (ld_rules l) k of
       None \<Rightarrow> l
     | Some lv \<Rightarrow> l\<lparr>ld_rules := gm_put k (check_route (ld_vendors l) lv) (ld_rules l)\<rparr>) order l"

definition validate_contracts :: "(string list \<Rightarrow> string list) \<Rightarrow> string list \<Rightarrow> loader \<Rightarrow> loader" where
  "validate_contracts order keys l = fold (\<lambda>k l.
     case gm_get (ld_contracts l) k of
       None \<Rightarrow> l
     | Some lv \<Rightarrow> l\<lparr>ld_contracts := gm_put k (check_contract order (ld_schemas l) lv) (ld_contracts l)\<rparr>) keys l"

definition validate_cross_config :: "(string list \<Rightarrow> string list) \<Rightarrow> loader \<Rightarrow> loader" where
  "validate_cross_config order l =
     (let l1 = validate_routes (order (map fst (ld_rules l))) l
      in validate_contracts order (order (map fst (ld_contracts l1))) l1)"

section \<open>\<open>Load\<close>\<close>

text \<open>\<open>stat\<close> is the file system as \<open>os.Stat\<close> sees it from the configured paths.\<close>

fun load_paths ::
  "yaml \<Rightarrow> (string \<Rightarrow> go_error + fs_node) \<Rightarrow> string list \<Rightarrow> loader \<Rightarrow> (go_error option \<times> loader) prog" where
  "load_paths y stat [] l = Ret (None, l)"
| "load_paths y stat (path # paths) l =
     (case stat path of
        Inl e \<Rightarrow> Ret (Some (Errorf ''config path %q: %w'' [ArgStr path, ArgErr e]), l)
      | Inr node \<Rightarrow>
          if exists_and_is_dir (Some node) then
            bind (load_dir y path node l) (\<lambda>(err, l).
              case err of Some e \<Rightarrow> Ret (Some e, l) | None \<Rightarrow> load_paths y stat paths l)
          else load_paths y stat paths l)"

definition load_config ::
  "yaml \<Rightarrow> (string \<Rightarrow> go_error + fs_node) \<Rightarrow> (string list \<Rightarrow> string list) \<Rightarrow> loader \<Rightarrow>
   (go_error option \<times> loader) prog" where
  "load_config y stat order l =
     bind (load_paths y stat (ld_paths l) l) (\<lambda>(err, l).
       Ret (case err of Some e \<Rightarrow> (Some e, l) | None \<Rightarrow> (None, validate_cross_config order l)))"

section \<open>Getters\<close>

definition get_vendor_config :: "loader \<Rightarrow> string \<Rightarrow> vendor_config option \<times> go_error option" where
  "get_vendor_config l vendor_id =
     (case gm_get (ld_vendors l) vendor_id of
        None \<Rightarrow> (None, Some ErrNotConfigured)
      | Some lv \<Rightarrow> (lv_value lv, lv_error lv))"

definition get_all_vendor_ids :: "loader \<Rightarrow> string list" where
  "get_all_vendor_ids l = map fst (ld_vendors l)"

definition get_delivery_spec :: "loader \<Rightarrow> string \<Rightarrow> string \<Rightarrow> (delivery_spec option \<times> go_error option) prog" where
  "get_delivery_spec l vendor_id event_type =
     (case gm_get (ld_vendors l) vendor_id of
        None \<Rightarrow> Ret (None, Some ErrNotConfigured)
      | Some vendor_lv \<Rightarrow>
          (case lv_error vendor_lv of
             Some e \<Rightarrow> Ret (None, Some e)
           | None \<Rightarrow>
               (case gm_get (ld_contracts l) (contract_key vendor_id event_type) of
                  None \<Rightarrow> Ret (None, Some ErrNotConfigured)
                | Some contract_lv \<Rightarrow>
                    (case lv_error contract_lv of
                       Some e \<Rightarrow> Ret (None, Some e)
                     | None \<Rightarrow>
                         (case lv_value contract_lv of
                            None \<Rightarrow> Panic ''nil pointer dereference''
                          | Some spec \<Rightarrow>
                              if ds_retry spec = None then
                                (case lv_value vendor_lv of
                                   None \<Rightarrow> Panic ''nil pointer dereference''
                                 | Some vendor \<Rightarrow> Ret (Some (spec\<lparr>ds_retry := Some (vc_retry vendor)\<rparr>), None))
                              else Ret (Some spec, None))))))"

definition get_routing_rules :: "loader \<Rightarrow> string \<Rightarrow> routing_rule list \<times> go_error option" where
  "get_routing_rules l event_type =
     (case gm_get (ld_rules l) event_type of
        None \<Rightarrow> ([], Some ErrNotConfigured)
      | Some lv \<Rightarrow> (case lv_error lv of Some e \<Rightarrow> ([], Some e) | None \<Rightarrow> (lv_value lv, lv_error lv)))"

definition get_event_schema :: "loader \<Rightarrow> string \<Rightarrow> (nat \<times> (string, gval) gomap) option \<times> go_error option" where
  "get_event_schema l event_type =
     (case gm_get (ld_schemas l) event_type of
        None \<Rightarrow> (None, Some ErrNotConfigured)
      | Some lv \<Rightarrow> (lv_value lv, lv_error lv))"

text \<open>The loader as the \<open>ConfigProvider\<close> of its clients. A nil map has the address 0 and no entries.\<close>

definition result_of :: "'a option \<times> go_error option \<Rightarrow> go_error + 'a option" where
  "result_of r = (case r of (v, Some e) \<Rightarrow> Inl e | (v, None) \<Rightarrow> Inr v)"

definition loader_provider :: "loader \<Rightarrow> config_provider" where
  "loader_provider l =
     \<lparr>cp_vendor_config = (\<lambda>v. result_of (get_vendor_config l v)),
      cp_delivery_spec = (\<lambda>v ev. bind (get_delivery_spec l v ev) (\<lambda>r. Ret (result_of r))),
      cp_routing_rules = (\<lambda>ev. case get_routing_rules l ev of (rules, Some e) \<Rightarrow> Inl e | (rules, None) \<Rightarrow> Inr rules),
      cp_event_schema = (\<lambda>ev. map_sum id (\<lambda>m. case m of Some s \<Rightarrow> s | None \<Rightarrow> (0, [])) (result_of (get_event_schema l ev)))\<rparr>"

end
