(* ===== verification/Config_Facts.thy ===== *)
theory Config_Facts
  imports Config_Loader Mapping_Facts
begin

text \<open>
  Facts on the loader: its four path templates, what the folds over visited files keep, the pointwise
  effect of the cross checks, and what one vendor's entry depends on.
\<close>

section \<open>The templates\<close>

definition var_seg :: "string \<Rightarrow> string \<Rightarrow> yaml_seg" where
  "var_seg name ext = \<lparr>sg_is_var = True, sg_name = name, sg_ext = ext\<rparr>"

definition const_seg :: "string \<Rightarrow> yaml_seg" where
  "const_seg name = \<lparr>sg_is_var = False, sg_name = name, sg_ext = []\<rparr>"

lemma templates:
  "parse_yaml_template ''{biz}/routes/{event}.yaml'' =
     Some [var_seg ''biz'' [], const_seg ''routes'', var_seg ''event'' ''.yaml'']"
  "parse_yaml_template ''{biz}/events/{event}.yaml'' =
     Some [var_seg ''biz'' [], const_seg ''events'', var_seg ''event'' ''.yaml'']"
  "parse_yaml_template ''{vendor}/vendor.yaml'' = Some [var_seg ''vendor'' [], const_seg ''vendor.yaml'']"
  "parse_yaml_template ''{vendor}/{biz}/{event}.yaml'' =
     Some [var_seg ''vendor'' [], var_seg ''biz'' [], var_seg ''event'' ''.yaml'']"
  by code_simp+

definition route_visits :: "yaml \<Rightarrow> string \<Rightarrow> fs_node \<Rightarrow> routes_file visit list" where
  "route_visits y dir node = walk_yaml_at (ym_routes y) dir node
     [var_seg ''biz'' [], const_seg ''routes'', var_seg ''event'' ''.yaml''] []"

definition schema_visits :: "yaml \<Rightarrow> string \<Rightarrow> fs_node \<Rightarrow> schema_file visit list" where
  "schema_visits y dir node = walk_yaml_at (ym_schema y) dir node
     [var_seg ''biz'' [], const_seg ''events'', var_seg ''event'' ''.yaml''] []"

definition vendor_visits :: "yaml \<Rightarrow> string \<Rightarrow> fs_node \<Rightarrow> vendor_config_file visit list" where
  "vendor_visits y dir node = walk_yaml_at (ym_vendor y) dir node [var_seg ''vendor'' [], const_seg ''vendor.yaml''] []"

definition contract_visits :: "yaml \<Rightarrow> string \<Rightarrow> fs_node \<Rightarrow> contract_file visit list" where
  "contract_visits y dir node = walk_yaml_at (ym_contract y) dir node
     [var_seg ''vendor'' [], var_seg ''biz'' [], var_seg ''event'' ''.yaml''] []"

lemma load_events_Ret:
  "load_events y dir node l = Ret (fold load_schema (schema_visits y dir node) (fold load_route (route_visits y dir node) l))"
  by (simp add: load_events_def walk_yaml_def templates schema_visits_def route_visits_def)

lemma load_vendors_Ret:
  "load_vendors y dir node l =
     Ret (fold load_contract (contract_visits y dir node) (fold load_vendor (vendor_visits y dir node) l))"
  by (simp add: load_vendors_def walk_yaml_def templates contract_visits_def vendor_visits_def)

section \<open>Invariants of loading\<close>

text \<open>A property of the loader that every visitor keeps holds after loading, up to the cross checks.\<close>

definition visitors_keep :: "(loader \<Rightarrow> bool) \<Rightarrow> bool" where
  "visitors_keep P \<longleftrightarrow>
     (\<forall>v l. P l \<longrightarrow> P (load_route v l)) \<and> (\<forall>v l. P l \<longrightarrow> P (load_schema v l)) \<and>
     (\<forall>v l. P l \<longrightarrow> P (load_vendor v l)) \<and> (\<forall>v l. P l \<longrightarrow> P (load_contract v l))"

lemma fold_keep: "(\<And>v l. P l \<Longrightarrow> P (f v l)) \<Longrightarrow> P l \<Longrightarrow> P (fold f vs l)"
  by (induction vs arbitrary: l) auto

lemma load_dir_keep:
  assumes "visitors_keep P" "P l"
  shows "\<exists>r l'. load_dir y dir node l = Ret (r, l') \<and> P l'"
proof -
  note k = assms(1) [unfolded visitors_keep_def]
  have e: "P (fold load_schema ss (fold load_route rs l))" if "P l" for ss rs l
    using k that by (intro fold_keep [of P load_schema] fold_keep [of P load_route]) blast+
  have v: "P (fold load_contract cs (fold load_vendor vs l))" if "P l" for cs vs l
    using k that by (intro fold_keep [of P load_contract] fold_keep [of P load_vendor]) blast+
  show ?thesis
    using assms(2) e v
    by (auto simp: load_dir_def Let_def load_events_Ret load_vendors_Ret split: option.split)
qed

lemma load_paths_keep:
  assumes "visitors_keep P" "P l"
  shows "\<exists>r l'. load_paths y stat paths l = Ret (r, l') \<and> P l'"
  using assms(2)
proof (induction paths arbitrary: l)
  case (Cons path paths)
  show ?case
  proof (cases "stat path")
    case (Inr node)
    obtain r l' where "load_dir y path node l = Ret (r, l')" "P l'"
      using load_dir_keep [OF assms(1) Cons.prems] by blast
    with Inr Cons show ?thesis by (cases r) auto
  qed (use Cons in auto)
qed simp

lemma load_config_keep:
  assumes "visitors_keep P" "P l" "\<And>l. P l \<Longrightarrow> P (validate_cross_config order l)"
  shows "\<exists>r l'. load_config y stat order l = Ret (r, l') \<and> P l'"
proof -
  obtain r l' where "load_paths y stat (ld_paths l) l = Ret (r, l')" "P l'"
    using load_paths_keep [OF assms(1,2)] by blast
  with assms(3) show ?thesis by (cases r) (auto simp: load_config_def)
qed

text \<open>The entries of a map after a change of one of them.\<close>

definition all_entries :: "('k \<Rightarrow> 'v \<Rightarrow> bool) \<Rightarrow> ('k, 'v) gomap \<Rightarrow> bool" where
  "all_entries P m \<longleftrightarrow> (\<forall>k v. gm_get m k = Some v \<longrightarrow> P k v)"

lemma all_entries_simps [simp]: "all_entries P []" "P k v \<Longrightarrow> all_entries P m \<Longrightarrow> all_entries P (gm_put k v m)"
  by (simp_all add: all_entries_def)

lemma all_entriesD: "all_entries P m \<Longrightarrow> gm_get m k = Some v \<Longrightarrow> P k v"
  by (simp add: all_entries_def)

section \<open>Cross checks\<close>

lemma validate_routes_frame [simp]:
  "ld_vendors (validate_routes order l) = ld_vendors l" "ld_contracts (validate_routes order l) = ld_contracts l"
  "ld_schemas (validate_routes order l) = ld_schemas l" "ld_next (validate_routes order l) = ld_next l"
  unfolding validate_routes_def by (induction order arbitrary: l) (auto split: option.split)

lemma validate_contracts_frame [simp]:
  "ld_vendors (validate_contracts order ks l) = ld_vendors l" "ld_rules (validate_contracts order ks l) = ld_rules l"
  "ld_schemas (validate_contracts order ks l) = ld_schemas l" "ld_next (validate_contracts order ks l) = ld_next l"
  unfolding validate_contracts_def by (induction ks arbitrary: l) (auto split: option.split)

lemma check_route_idem [simp]: "check_route vs (check_route vs lv) = check_route vs lv"
  by (auto simp: check_route_def failed_def split: option.split)

lemma check_contract_idem [simp]: "check_contract order ss (check_contract order ss lv) = check_contract order ss lv"
  by (auto simp: check_contract_def failed_def Let_def split: option.split)

lemma get_validate_routes:
  "gm_get (ld_rules (validate_routes order l)) k =
     map_option (\<lambda>lv. if k \<in> set order then check_route (ld_vendors l) lv else lv) (gm_get (ld_rules l) k)"
proof (induction order arbitrary: l)
  case Nil
  then show ?case by (simp add: validate_routes_def option.map_ident)
next
  case (Cons j order)
  have step: "validate_routes (j # order) l = validate_routes order (validate_routes [j] l)"
    by (simp add: validate_routes_def)
  have "gm_get (ld_rules (validate_routes [j] l)) k =
      map_option (\<lambda>lv. if k = j then check_route (ld_vendors l) lv else lv) (gm_get (ld_rules l) k)"
    by (cases "gm_get (ld_rules l) k"; cases "k = j") (auto simp: validate_routes_def split: option.split)
  with Cons.IH [of "validate_routes [j] l"] show ?case
    by (cases "gm_get (ld_rules l) k") (auto simp: step)
qed

lemma get_validate_contracts:
  "gm_get (ld_contracts (validate_contracts ord ks l)) k =
     map_option (\<lambda>lv. if k \<in> set ks then check_contract ord (ld_schemas l) lv else lv) (gm_get (ld_contracts l) k)"
proof (induction ks arbitrary: l)
  case Nil
  then show ?case by (simp add: validate_contracts_def option.map_ident)
next
  case (Cons j ks)
  have step: "validate_contracts ord (j # ks) l = validate_contracts ord ks (validate_contracts ord [j] l)"
    by (simp add: validate_contracts_def)
  have "gm_get (ld_contracts (validate_contracts ord [j] l)) k =
      map_option (\<lambda>lv. if k = j then check_contract ord (ld_schemas l) lv else lv) (gm_get (ld_contracts l) k)"
    by (cases "gm_get (ld_contracts l) k"; cases "k = j") (auto simp: validate_contracts_def split: option.split)
  with Cons.IH [of "validate_contracts ord [j] l"] show ?case
    by (cases "gm_get (ld_contracts l) k") (auto simp: step)
qed

lemma gm_get_key: "gm_get m k = Some v \<Longrightarrow> k \<in> set (map fst m)"
  by (auto dest: gm_get_Some_in intro: rev_image_eqI)

text \<open>Every entry is checked, in whatever order a map's keys come.\<close>

lemma get_validated:
  assumes "\<And>ks. set (order ks) = set ks"
  shows "gm_get (ld_rules (validate_cross_config order l)) k =
           map_option (check_route (ld_vendors l)) (gm_get (ld_rules l) k)"
    and "gm_get (ld_contracts (validate_cross_config order l)) k =
           map_option (check_contract order (ld_schemas l)) (gm_get (ld_contracts l) k)"
    and "ld_vendors (validate_cross_config order l) = ld_vendors l"
    and "ld_schemas (validate_cross_config order l) = ld_schemas l"
  using assms
  by (auto simp: validate_cross_config_def Let_def get_validate_routes get_validate_contracts
      simp del: set_map dest: gm_get_key split: option.splits
      intro!: option.map_cong)

text \<open>Nor does the order in which a template's maps are visited matter, but for the error's text.\<close>

lemma extract_order:
  assumes "\<And>ks. set (order ks) = set ks" "\<And>ks. set (order' ks) = set ks"
  shows "set (extract_payload_refs order v) = set (extract_payload_refs order' v)"
proof (induction "size v" arbitrary: v rule: less_induct)
  case less
  show ?case
  proof (cases v)
    case (VList vs)
    then show ?thesis using less gval_size_elem by fastforce
  next
    case (VMap m)
    have "set (extract_payload_refs order x) = set (extract_payload_refs order' x)" if "gm_get m k = Some x" for k x
      using less gval_size_get [OF that] VMap by blast
    then have "set (case gm_get m k of None \<Rightarrow> [] | Some x \<Rightarrow> extract_payload_refs order x) =
        set (case gm_get m k of None \<Rightarrow> [] | Some x \<Rightarrow> extract_payload_refs order' x)" for k
      by (auto split: option.split)
    then show ?thesis by (simp only: VMap extract_payload_refs.simps set_concat set_map image_image assms)
  qed simp_all
qed

lemma check_contract_order:
  assumes "\<And>ks. set (order ks) = set ks" "\<And>ks. set (order' ks) = set ks"
  shows "lv_value (check_contract order ss lv) = lv_value (check_contract order' ss lv) \<and>
    (lv_error (check_contract order ss lv) = None \<longleftrightarrow> lv_error (check_contract order' ss lv) = None)"
proof -
  have "find P (extract_payload_refs order v) = None \<longleftrightarrow> find P (extract_payload_refs order' v) = None" for P v
    using extract_order [OF assms, of v] by (simp add: find_None_iff)
  then show ?thesis
    by (auto simp: check_contract_def Let_def failed_def split: option.split) (metis option.distinct(1))+
qed

section \<open>Well-formed loaders\<close>

text \<open>An entry holds a value or an error, never both and never neither.\<close>

definition exclusive :: "'a option \<times> go_error option \<Rightarrow> bool" where
  "exclusive r \<longleftrightarrow> (fst r = None) \<noteq> (snd r = None)"

definition entry_ok :: "'a option loaded_value \<Rightarrow> bool" where
  "entry_ok lv \<longleftrightarrow> exclusive (lv_value lv, lv_error lv)"

definition rules_ok :: "string \<Rightarrow> routing_rule list loaded_value \<Rightarrow> bool" where
  "rules_ok ev lv \<longleftrightarrow> (if lv_error lv = None then \<forall>r \<in> set (lv_value lv). rl_event_type r = ev else lv_value lv = [])"

definition loader_ok :: "loader \<Rightarrow> bool" where
  "loader_ok l \<longleftrightarrow>
     all_entries rules_ok (ld_rules l) \<and>
     all_entries (\<lambda>k lv. entry_ok lv \<and> (\<forall>v. lv_value lv = Some v \<longrightarrow> vc_vendor_id v = k)) (ld_vendors l) \<and>
     all_entries (\<lambda>k lv. entry_ok lv) (ld_contracts l) \<and>
     all_entries (\<lambda>k lv. entry_ok lv \<and> (\<forall>a m. lv_value lv = Some (a, m) \<longrightarrow> a < ld_next l)) (ld_schemas l) \<and>
     (\<forall>k k' lv lv' a m m'. gm_get (ld_schemas l) k = Some lv \<longrightarrow> gm_get (ld_schemas l) k' = Some lv' \<longrightarrow>
        lv_value lv = Some (a, m) \<longrightarrow> lv_value lv' = Some (a, m') \<longrightarrow> k = k')"

lemma entry_simps [simp]:
  "entry_ok (loaded (Some v))" "entry_ok (failed None e)" "rules_ok ev (failed [] e)"
  "lv_value (loaded v) = v" "lv_error (loaded v) = None" "lv_value (failed v e) = v" "lv_error (failed v e) = Some e"
  by (simp_all add: entry_ok_def exclusive_def rules_ok_def loaded_def failed_def)

lemma record_error_ok: "loader_ok l \<Longrightarrow> loader_ok (record_error typ scope e l)"
  by (auto simp: loader_ok_def record_error_def all_entries_def split: if_splits)

lemma loader_ok_next:
  assumes "loader_ok l"
  shows "loader_ok (l\<lparr>ld_schemas := gm_put k (loaded (Some (ld_next l, m))) (ld_schemas l), ld_next := Suc (ld_next l)\<rparr>)"
proof -
  have old: "a < ld_next l" if "gm_get (ld_schemas l) j = Some lv" "lv_value lv = Some (a, m')" for j lv a m'
    using assms that unfolding loader_ok_def all_entries_def by blast
  then have fresh: "lv_value lv \<noteq> Some (ld_next l, m')" if "gm_get (ld_schemas l) j = Some lv" for j lv m'
    using that by blast
  have "a < Suc (ld_next l)" if "gm_get (ld_schemas l) j = Some lv" "lv_value lv = Some (a, m')" for j lv a m'
    using old [OF that] by simp
  with fresh assms show ?thesis
    unfolding loader_ok_def all_entries_def by (auto split: if_splits)
qed

lemma visitors_keep_ok: "visitors_keep loader_ok"
  unfolding visitors_keep_def
proof (intro conjI allI impI)
  fix l
  assume l: "loader_ok l"
  show "loader_ok (load_route v l)" for v
    using l record_error_ok [OF l]
    by (auto simp: load_route_def split: prod.split sum.split) (auto simp: loader_ok_def all_entries_def rules_ok_def)
  show "loader_ok (load_schema v l)" for v
    using l by (auto simp: load_schema_def record_error_ok loader_ok_next split: prod.split sum.split option.split)
  show "loader_ok (load_vendor v l)" for v
    using l record_error_ok [OF l]
    by (auto simp: load_vendor_def Let_def split: prod.split sum.split) (auto simp: loader_ok_def all_entries_def)
  show "loader_ok (load_contract v l)" for v
    using l record_error_ok [OF l]
    by (auto simp: load_contract_def Let_def split: prod.split sum.split) (auto simp: loader_ok_def all_entries_def)
qed

lemma check_ok:
  "rules_ok ev lv \<Longrightarrow> rules_ok ev (check_route vs lv)" "entry_ok c \<Longrightarrow> entry_ok (check_contract order ss c)"
  by (auto simp: check_route_def check_contract_def Let_def split: option.split)

lemma validate_ok: "loader_ok l \<Longrightarrow> loader_ok (validate_cross_config order l)"
  using check_ok
  by (auto simp: loader_ok_def all_entries_def validate_cross_config_def Let_def get_validate_routes
      get_validate_contracts split: if_splits)

lemma new_loader_ok [simp]: "loader_ok (new_loader paths)"
  by (simp add: loader_ok_def new_loader_def)

lemma load_config_ok: "\<exists>r l. load_config y stat order (new_loader paths) = Ret (r, l) \<and> loader_ok l"
  by (rule load_config_keep [OF visitors_keep_ok]) (simp_all add: validate_ok)

text \<open>The getters of such a loader: a value or an error, and no panic.\<close>

lemma loader_getters:
  assumes "loader_ok l"
  shows "exclusive (get_vendor_config l v)" "exclusive (get_event_schema l ev)"
    "\<exists>x. get_delivery_spec l v ev = Ret x \<and> exclusive x"
proof -
  have v: "entry_ok lv" if "gm_get (ld_vendors l) k = Some lv" for k lv
    using assms that by (auto simp: loader_ok_def dest: all_entriesD)
  have c: "entry_ok lv" if "gm_get (ld_contracts l) k = Some lv" for k lv
    using assms that by (auto simp: loader_ok_def dest: all_entriesD)
  have s: "entry_ok lv" if "gm_get (ld_schemas l) k = Some lv" for k lv
    using assms that by (auto simp: loader_ok_def dest: all_entriesD)
  show "exclusive (get_vendor_config l v)"
    using v by (auto simp: get_vendor_config_def entry_ok_def exclusive_def split: option.split)
  show "exclusive (get_event_schema l ev)"
    using s by (auto simp: get_event_schema_def entry_ok_def exclusive_def split: option.split)
  show "\<exists>x. get_delivery_spec l v ev = Ret x \<and> exclusive x"
    using v [of v] c [of "contract_key v ev"]
    by (auto simp: get_delivery_spec_def entry_ok_def exclusive_def split: option.split)
qed

lemma loader_provider_total: "loader_ok l \<Longrightarrow> config_total (loader_provider l)"
proof -
  assume ok: "loader_ok l"
  have x: "result_of r \<noteq> Inr None" if "exclusive r" for r :: "'a option \<times> go_error option"
    using that by (cases r) (auto simp: result_of_def exclusive_def split: option.splits)
  have "\<exists>r. cp_delivery_spec (loader_provider l) v ev = Ret r \<and> r \<noteq> Inr None" for v ev
  proof -
    obtain r where "get_delivery_spec l v ev = Ret r" "exclusive r" using loader_getters(3) [OF ok] by blast
    with x [of r] show ?thesis by (simp add: loader_provider_def)
  qed
  with x [OF loader_getters(1) [OF ok]] show ?thesis by (simp add: config_total_def loader_provider_def)
qed

section \<open>Vendors\<close>

text \<open>What one vendor's file gives, on its own.\<close>

definition vendor_of_file :: "yaml \<Rightarrow> string \<Rightarrow> fs_node option \<Rightarrow> vendor_config option loaded_value" where
  "vendor_of_file y v file =
     (case read_file file of
        Inl e \<Rightarrow> failed None (Errorf ''reading file: %w'' [ArgErr e])
      | Inr data \<Rightarrow>
          (case ym_vendor y data of
             Inl e \<Rightarrow> failed None (Errorf ''parsing YAML: %w'' [ArgErr e])
           | Inr f \<Rightarrow>
               (case (parse_duration_to_ms (rt_base_delay (vf_retry f)), parse_duration_to_ms (rt_max_delay (vf_retry f))) of
                  (Inl e, _) \<Rightarrow> failed None (Errorf ''parsing base_delay: %w'' [ArgErr e])
                | (Inr base, Inl e) \<Rightarrow> failed None (Errorf ''parsing max_delay: %w'' [ArgErr e])
                | (Inr base, Inr limit) \<Rightarrow> loaded (Some
                    \<lparr>vc_vendor_id = v, vc_base_url = vf_base_url f,
                     vc_auth = map_option (\<lambda>a. \<lparr>ac_type = af_type a, ac_config = af_config a\<rparr>) (vf_auth f),
                     vc_retry = convert_retry (vf_retry f) base limit,
                     vc_judgment = convert_response_judgment (vf_judgment f)\<rparr>))))"

lemma load_vendor_put:
  "ld_vendors (load_vendor (parse_yaml_file_at (ym_vendor y) path file [(''vendor'', v)]) l) =
     gm_put v (vendor_of_file y v file) (ld_vendors l)"
  by (auto simp: load_vendor_def parse_yaml_file_at_def vendor_of_file_def var_of_def gm_get_def record_error_def
      Let_def split: sum.split prod.split)

lemma vendor_visits_dir:
  "read_dir node = Inr es \<Longrightarrow>
   vendor_visits y dir node =
     map (\<lambda>(v, n). parse_yaml_file_at (ym_vendor y) (join_path (join_path dir v) ''vendor.yaml'') (child n ''vendor.yaml'')
            [(''vendor'', v)]) (filter (\<lambda>(v, n). entry_is_dir n) es)"
  unfolding vendor_visits_def
  by (simp add: var_seg_def const_seg_def gm_put_def split_def concat_map_singleton)

lemma get_load_vendors:
  assumes "distinct (map fst es)"
  shows "gm_get (ld_vendors (fold load_vendor (map (\<lambda>(v, n). parse_yaml_file_at (ym_vendor y)
             (join_path (join_path dir v) ''vendor.yaml'') (child n ''vendor.yaml'') [(''vendor'', v)]) es) l)) x =
         (case map_of es x of Some n \<Rightarrow> Some (vendor_of_file y x (child n ''vendor.yaml'')) | None \<Rightarrow> gm_get (ld_vendors l) x)"
  using assms
proof (induction es arbitrary: l)
  case (Cons e es)
  obtain v n where e: "e = (v, n)" by (cases e)
  have "map_of es v = None" using Cons.prems by (simp add: e map_of_eq_None_iff)
  then show ?case using Cons by (auto simp: e load_vendor_put split: option.split)
qed simp

lemma load_contract_vendors [simp]: "ld_vendors (load_contract v l) = ld_vendors l"
  by (auto simp: load_contract_def record_error_def Let_def split: prod.split sum.split)

lemma load_event_vendors [simp]: "ld_vendors (load_route v l) = ld_vendors l" "ld_vendors (load_schema s l) = ld_vendors l"
  by (auto simp: load_route_def load_schema_def record_error_def split: prod.split sum.split option.split)

lemma fold_same: "(\<And>v l. g (f v l) = g l) \<Longrightarrow> g (fold f vs l) = g l"
  by (induction vs arbitrary: l) auto

lemma fold_vendors [simp]:
  "ld_vendors (fold load_contract cs l) = ld_vendors l" "ld_vendors (fold load_route rs l) = ld_vendors l"
  "ld_vendors (fold load_schema ss l) = ld_vendors l"
  by (simp_all add: fold_same)

lemma fold_load_vendor_cong:
  "ld_vendors l = ld_vendors l' \<Longrightarrow> ld_vendors (fold load_vendor vs l) = ld_vendors (fold load_vendor vs l')"
proof (induction vs arbitrary: l l')
  case (Cons v vs)
  have "ld_vendors (load_vendor v l) = ld_vendors (load_vendor v l')"
    using Cons.prems by (auto simp: load_vendor_def record_error_def Let_def split: prod.split sum.split)
  from Cons.IH [OF this] show ?case by simp
qed simp

lemma filter_map_of:
  "distinct (map fst es) \<Longrightarrow>
   map_of (filter (\<lambda>(k, n). P n) es) x = (case map_of es x of Some n \<Rightarrow> if P n then Some n else None | None \<Rightarrow> None)"
proof (induction es)
  case (Cons e es)
  obtain k n where e: "e = (k, n)" by (cases e)
  have "map_of es k = None" using Cons.prems by (simp add: e map_of_eq_None_iff)
  then show ?case using Cons by (cases "k = x") (auto simp: e)
qed simp

lemma load_config_vendors:
  assumes "load_config y stat order (new_loader [dir]) = Ret (None, l)" "stat dir = Inr node"
    and "child node ''vendors'' = Some vs" "exists_and_is_dir (Some vs)" "read_dir vs = Inr es" "distinct (map fst es)"
  shows "gm_get (ld_vendors l) v =
           (case map_of es v of
              Some n \<Rightarrow> if entry_is_dir n then Some (vendor_of_file y v (child n ''vendor.yaml'')) else None
            | None \<Rightarrow> None)"
proof -
  have d: "exists_and_is_dir (Some node)" using assms(3) by (auto simp: child_def exists_and_is_dir_def split: fs_node.splits)
  have v: "ld_vendors (validate_cross_config order l) = ld_vendors l" for l
    by (simp add: validate_cross_config_def Let_def)
  have "distinct (map fst (filter (\<lambda>(v, n). entry_is_dir n) es))"
    using assms(6) by (rule distinct_map_filter)
  from get_load_vendors [OF this, of y "join_path dir ''vendors''" "new_loader [dir]" v]
  have g: "gm_get (ld_vendors (fold load_vendor (vendor_visits y (join_path dir ''vendors'') vs) (new_loader [dir]))) v =
      (case map_of es v of
         Some n \<Rightarrow> if entry_is_dir n then Some (vendor_of_file y v (child n ''vendor.yaml'')) else None
       | None \<Rightarrow> None)"
    unfolding vendor_visits_dir [OF assms(5)] filter_map_of [OF assms(6)]
    by (auto simp: new_loader_def split: option.split)
  let ?load = "case child node ''events'' of
        Some n \<Rightarrow> if exists_and_is_dir (child node ''events'')
          then load_events y (join_path dir ''events'') n (new_loader [dir]) else Ret (new_loader [dir])
      | None \<Rightarrow> Ret (new_loader [dir])"
  have "\<exists>l0. ld_vendors l0 = ld_vendors (new_loader [dir]) \<and> ?load = Ret l0"
    by (cases "child node ''events''"; cases "exists_and_is_dir (child node ''events'')") (auto simp: load_events_Ret)
  then obtain l0 where l0: "ld_vendors l0 = ld_vendors (new_loader [dir])" "?load = Ret l0" by blast
  let ?l1 = "fold load_contract (contract_visits y (join_path dir ''vendors'') vs)
      (fold load_vendor (vendor_visits y (join_path dir ''vendors'') vs) l0)"
  have "load_dir y dir node (new_loader [dir]) = Ret (None, ?l1)"
    using assms(3,4) l0(2) by (simp add: load_dir_def Let_def load_vendors_Ret)
  then have l1: "load_paths y stat [dir] (new_loader [dir]) = Ret (None, ?l1)"
    "ld_vendors ?l1 = ld_vendors (fold load_vendor (vendor_visits y (join_path dir ''vendors'') vs) (new_loader [dir]))"
    using assms(2) d fold_load_vendor_cong [OF l0(1)] by simp_all
  then have "l = validate_cross_config order ?l1"
    using assms(1) by (simp add: load_config_def new_loader_def)
  with l1(2) g v show ?thesis by simp
qed

end
