(* ===== verification/Config_Refs.thy ===== *)
theory Config_Refs
  imports Config_Facts
begin

text \<open>
  The loader's scan for payload references (\<open>extractPayloadRefs\<close>) against the engine's resolution of
  templates: two payloads that agree on the fields the scan takes from a template resolve it alike.
\<close>

section \<open>The scan\<close>

declare extract_text_refs.simps(2) [simp del]

definition top_field :: "string \<Rightarrow> string" where
  "top_field p = (case index_byte p (CHR ''.'') of Some d \<Rightarrow> if 0 < d then take d p else p | None \<Rightarrow> p)"

lemma top_field: "hd p \<noteq> CHR ''.'' \<Longrightarrow> p \<noteq> [] \<Longrightarrow> top_field p = hd (split_on (CHR ''.'') p) \<and> top_field p \<noteq> []"
proof -
  assume p: "hd p \<noteq> CHR ''.''" "p \<noteq> []"
  have "top_field p = takeWhile (\<lambda>c. c \<noteq> CHR ''.'') p"
  proof (cases "index_byte p (CHR ''.'')")
    case None
    then have tw: "takeWhile (\<lambda>c. c \<noteq> CHR ''.'') p = p" by (auto simp: index_byte_None takeWhile_eq_all_conv)
    show ?thesis unfolding top_field_def None tw by simp
  next
    case (Some d)
    with p index_byte_take [OF Some] index_byte_Some [OF Some] show ?thesis
      by (cases d; cases p) (auto simp: top_field_def)
  qed
  with p show ?thesis by (cases p) (simp_all only: hd_split_on, simp_all)
qed

lemma drop_take_middle:
  "length h = n \<Longrightarrow> drop n (take (n + length p) (h @ p @ c # t)) = p \<and> drop (n + length p + 1) (h @ p @ c # t) = t"
  by simp

lemma top_field_Nil [simp]: "top_field [] = []"
  by (simp add: top_field_def)

lemma index_byte_append: "c \<notin> set s \<Longrightarrow> index_byte (s @ c # t) c = Some (length s)"
  by (induction s) auto

lemma has_prefix_iff: "has_prefix s p \<longleftrightarrow> (\<exists>r. s = p @ r)"
  by (auto simp: has_prefix_def strip_prefix_Some)

lemma extract_skip:
  "\<not> has_prefix (c # cs) (at_ref ''{payload:'') \<Longrightarrow> extract_text_refs (c # cs) = extract_text_refs cs"
  by (simp add: extract_text_refs.simps(2) Let_def)

lemma extract_lit: "CHR ''@'' \<notin> set s \<Longrightarrow> extract_text_refs (s @ t) = extract_text_refs t"
  by (induction s) (auto simp: extract_skip has_prefix_def)

lemma extract_no_brace: "CHR ''}'' \<notin> set s \<Longrightarrow> extract_text_refs s = []"
proof (induction s)
  case (Cons c cs)
  then have "index_byte (c # cs) (CHR ''}'') = None" by (simp only: index_byte_None) auto
  with Cons show ?case by (simp add: extract_text_refs.simps(2) Let_def del: index_byte.simps)
qed simp

text \<open>A payload reference that is closed: its field is taken and the scan goes on behind it.\<close>

lemma extract_ref:
  assumes "CHR ''}'' \<notin> set p"
  shows "extract_text_refs (at_ref ''{payload:'' @ p @ CHR ''}'' # t) =
         (if top_field p = [] then [] else [top_field p]) @ extract_text_refs t"
proof (cases "p = [] \<and> t = []")
  case True
  then show ?thesis by (simp add: extract_no_brace extract_text_refs.simps(2) Let_def top_field_def has_prefix_def)
next
  case False
  let ?s = "at_ref ''{payload:'' @ p @ CHR ''}'' # t"
  have b: "CHR ''}'' \<notin> set (at_ref ''{payload:'' @ p)" using assms by simp
  have i: "index_byte ?s (CHR ''}'') = Some (10 + length p)"
    using index_byte_append [OF b, of t] by (simp del: index_byte.simps)
  have l: "10 < length ?s" by simp
  have pre: "has_prefix ?s (at_ref ''{payload:'')" by (simp only: has_prefix_def strip_prefix_append) simp
  have d: "drop 10 (take (10 + length p) ?s) = p" "drop (10 + length p + 1) ?s = t"
    using drop_take_middle [of "at_ref ''{payload:''" 10 p "CHR ''}''" t] by simp_all
  obtain cs where cs: "?s = CHR ''@'' # cs" by simp
  show ?thesis
    using l pre i d unfolding cs
    by (simp add: extract_text_refs.simps(2) Let_def top_field_def [symmetric] del: index_byte.simps)
qed

lemma before_brace:
  assumes "CHR ''}'' \<notin> set u" "has_prefix (u @ CHR ''}'' # t) (at_ref ''{payload:'')"
  shows "\<exists>p. u = at_ref ''{payload:'' @ p"
proof -
  obtain r where r: "u @ CHR ''}'' # t = at_ref ''{payload:'' @ r"
    using assms(2) by (auto simp only: has_prefix_iff)
  have "u = takeWhile (\<lambda>x. x \<noteq> CHR ''}'') (at_ref ''{payload:'' @ r)"
    unfolding r [symmetric] using assms(1) by (simp add: takeWhile_sep)
  then show ?thesis by simp
qed

text \<open>What the scan finds behind a closing brace, it finds from anywhere before it.\<close>

lemma extract_behind:
  "CHR ''}'' \<notin> set u \<Longrightarrow> set (extract_text_refs t) \<subseteq> set (extract_text_refs (u @ CHR ''}'' # t))"
proof (induction u)
  case Nil
  then show ?case by (simp add: extract_skip has_prefix_def)
next
  case (Cons c u)
  show ?case
  proof (cases "has_prefix ((c # u) @ CHR ''}'' # t) (at_ref ''{payload:'')")
    case True
    then obtain p where p: "c # u = at_ref ''{payload:'' @ p" using before_brace [OF Cons.prems] by blast
    with Cons.prems have "CHR ''}'' \<notin> set p" by (metis UnI2 set_append)
    from extract_ref [OF this, of t] show ?thesis unfolding p append_assoc by auto
  next
    case False
    with Cons show ?thesis by (simp add: extract_skip)
  qed
qed

section \<open>Texts\<close>

text \<open>
  The scan does not see a reference to the whole payload, and takes a path that begins with a dot for one
  name. A text without these two forms is \<open>plain_text\<close>.
\<close>

fun plain_text :: "string \<Rightarrow> bool" where
  "plain_text [] = True"
| "plain_text (c # cs) =
     (\<not> has_prefix (c # cs) (at_ref ''{payload}'') \<and> \<not> has_prefix (c # cs) (at_ref ''{payload:.'') \<and> plain_text cs)"

fun plain_template :: "gval \<Rightarrow> bool" where
  "plain_template (VStr s) = plain_text s"
| "plain_template (VMap m) = list_all (\<lambda>(k, v). plain_template v) m"
| "plain_template (VList vs) = list_all plain_template vs"
| "plain_template _ = True"

lemma plain_text_append: "plain_text (u @ v) \<Longrightarrow> plain_text v"
  by (induction u) auto

lemma plain_text_starts:
  "\<not> plain_text (at_ref ''{payload}'' @ t)" "\<not> plain_text (at_ref ''{payload:.'' @ t)"
  by (simp_all add: has_prefix_def)

definition agree :: "string list \<Rightarrow> resolve_context \<Rightarrow> resolve_context \<Rightarrow> bool" where
  "agree fs c c' \<longleftrightarrow> rc_item c = rc_item c' \<and>
     (\<forall>f \<in> set fs. gm_get (ctx_lookup c ''payload'') f = gm_get (ctx_lookup c' ''payload'') f)"

lemma agree_mono: "agree fs c c' \<Longrightarrow> set gs \<subseteq> set fs \<Longrightarrow> agree gs c c'"
  by (auto simp: agree_def)

lemma get_nested_top:
  assumes "hd p \<noteq> CHR ''.''" "p \<noteq> []" "gm_get m (top_field p) = gm_get m' (top_field p)"
  shows "get_nested_field m p = get_nested_field m' p"
  using assms top_field [OF assms(1,2)] split_on_nonempty [of "CHR ''.''" p]
  by (cases "split_on (CHR ''.'') p") (simp_all add: get_nested_field_def)

lemma match_tail_Some:
  assumes "match_tail r = Some (p, rest)"
  shows "p = [] \<and> r = CHR ''}'' # rest \<or> p \<noteq> [] \<and> CHR ''}'' \<notin> set p \<and> r = CHR '':'' # p @ CHR ''}'' # rest"
proof (cases r)
  case (Cons c cs)
  let ?d = "dropWhile (\<lambda>x. x \<noteq> CHR ''}'') cs"
  consider "c = CHR ''}''" "p = []" "cs = rest" | "c = CHR '':''" "p = takeWhile (\<lambda>x. x \<noteq> CHR ''}'') cs" "p \<noteq> []" "?d \<noteq> []" "rest = tl ?d"
    using assms by (auto simp: Cons match_tail_def Let_def split: if_splits)
  then show ?thesis
  proof cases
    case 2
    from hd_dropWhile [OF 2(4)] have "hd ?d = CHR ''}''" by simp
    with 2(4,5) have "?d = CHR ''}'' # rest" by (metis list.collapse)
    then have "cs = p @ CHR ''}'' # rest" by (metis 2(2) takeWhile_dropWhile_id)
    moreover have "CHR ''}'' \<notin> set p" unfolding 2(2) by (auto dest: set_takeWhileD)
    ultimately show ?thesis using 2(1,3) Cons by simp
  qed (simp add: Cons)
qed (use assms in \<open>simp add: match_tail_def\<close>)

text \<open>One matched reference, and a byte at which none begins.\<close>

lemma matched_alike:
  assumes "match_ref s = Some (scope, p, rest)" "plain_text s" "agree (extract_text_refs s) c c'"
  shows "ref_value c scope p = ref_value c' scope p \<and> plain_text rest \<and>
    set (extract_text_refs rest) \<subseteq> set (extract_text_refs s)"
proof (cases "strip_prefix (at_ref ''{payload'') s")
  case (Some r)
  with assms(1) have m: "match_tail r = Some (p, rest)" "scope = ''payload''"
    by (auto simp: match_ref_def split: option.splits)
  have s: "s = at_ref ''{payload'' @ r" using Some by (simp only: strip_prefix_Some)
  have "p \<noteq> []"
  proof
    assume "p = []"
    with match_tail_Some [OF m(1)] have "s = at_ref ''{payload}'' @ rest" by (simp add: s)
    with assms(2) plain_text_starts(1) show False by (simp only:)
  qed
  with match_tail_Some [OF m(1)] have b: "CHR ''}'' \<notin> set p" and r: "r = CHR '':'' # p @ CHR ''}'' # rest" by simp_all
  have "hd p \<noteq> CHR ''.''"
  proof
    assume "hd p = CHR ''.''"
    with \<open>p \<noteq> []\<close> have "s = at_ref ''{payload:.'' @ tl p @ CHR ''}'' # rest" by (cases p) (simp_all add: s r)
    with assms(2) plain_text_starts(2) show False by (simp only:)
  qed
  have e: "extract_text_refs s = [top_field p] @ extract_text_refs rest"
    using extract_ref [OF b, of rest] top_field [OF \<open>hd p \<noteq> CHR ''.''\<close> \<open>p \<noteq> []\<close>, THEN conjunct2] by (simp add: s r)
  have "plain_text rest"
    using plain_text_append [of "at_ref ''{payload:'' @ p @ ''}''" rest] assms(2) by (simp add: s r)
  moreover have "gm_get (ctx_lookup c ''payload'') (top_field p) = gm_get (ctx_lookup c' ''payload'') (top_field p)"
    using assms(3) unfolding agree_def e by simp
  from get_nested_top [OF \<open>hd p \<noteq> CHR ''.''\<close> \<open>p \<noteq> []\<close> this] have "ref_value c scope p = ref_value c' scope p"
    using \<open>p \<noteq> []\<close> by (simp add: ref_value_def m(2))
  ultimately show ?thesis unfolding e by auto
next
  case None
  with assms(1) obtain r where r: "strip_prefix (at_ref ''{item'') s = Some r" "match_tail r = Some (p, rest)" "scope = ''item''"
    by (simp add: match_ref_def split: option.splits)
  have "s = at_ref ''{item'' @ r" using r(1) by (simp only: strip_prefix_Some)
  define u where "u = at_ref ''{item'' @ (if p = [] then [] else CHR '':'' # p)"
  have u: "s = u @ CHR ''}'' # rest" "CHR ''}'' \<notin> set u"
    using match_tail_Some [OF r(2)] \<open>s = at_ref ''{item'' @ r\<close> by (auto simp: u_def)
  have "plain_text rest" using plain_text_append [of "u @ ''}''" rest] assms(2) by (simp add: u(1))
  with assms(3) extract_behind [OF u(2), of rest] show ?thesis
    by (simp add: u(1) ref_value_def agree_def r(3) ctx_lookup_def get_scope_value_def)
qed

lemma unmatched_behind:
  assumes "match_ref (c # cs) = None"
  shows "set (extract_text_refs cs) \<subseteq> set (extract_text_refs (c # cs))"
proof (cases "has_prefix (c # cs) (at_ref ''{payload:'')")
  case True
  then obtain r where r: "c # cs = at_ref ''{payload:'' @ r" by (auto simp only: has_prefix_iff)
  show ?thesis
  proof (cases "CHR ''}'' \<in> set r")
    case True
    then obtain p t where p: "r = p @ CHR ''}'' # t" "CHR ''}'' \<notin> set p" by (meson split_list_first)
    have "p = []"
    proof (rule ccontr)
      assume "p \<noteq> []"
      with p have "match_tail (CHR '':'' # r) \<noteq> None"
        by (simp add: match_tail_def Let_def takeWhile_sep dropWhile_sep)
      with assms show False by (auto simp: r match_ref_def)
    qed
    then have "cs = ''{payload:}'' @ t" using r p(1) by simp
    then have "extract_text_refs cs = extract_text_refs t" using extract_lit [of "''{payload:}''" t] by simp
    then show ?thesis using extract_ref [of "[]" t] by (simp add: r p(1) \<open>p = []\<close>)
  next
    case False
    then have "CHR ''}'' \<notin> set cs" using r by auto
    then show ?thesis by (simp add: extract_no_brace)
  qed
qed (simp add: extract_skip)

lemma replaced_alike:
  assumes "plain_text s" "agree (extract_text_refs s) c c'"
  shows "replace_refs (\<lambda>scope p. tostring (ref_value c scope p)) s =
         replace_refs (\<lambda>scope p. tostring (ref_value c' scope p)) s"
  using assms
proof (induction "length s" arbitrary: s rule: less_induct)
  case less
  show ?case
  proof (cases s)
    case (Cons a cs)
    show ?thesis
    proof (cases "match_ref s")
      case None
      with less(2,3) Cons have "plain_text cs" "agree (extract_text_refs cs) c c'"
        by (auto intro: agree_mono [OF _ unmatched_behind])
      with less(1) [of cs] None Cons show ?thesis by (simp add: replace_refs.simps(2))
    next
      case (Some m)
      obtain scope p rest where m: "m = (scope, p, rest)" by (cases m)
      from matched_alike [OF Some [unfolded m] less(2,3)] have
        "ref_value c scope p = ref_value c' scope p" "plain_text rest" "agree (extract_text_refs rest) c c'"
        using less(3) by (auto intro: agree_mono)
      moreover have "length rest < length s" using match_ref_shorter [OF Some [unfolded m]] .
      ultimately show ?thesis using less(1) [of rest] Some m Cons by (simp add: replace_refs.simps(2))
    qed
  qed simp
qed

lemma field_alike:
  assumes "plain_text s" "agree (extract_text_refs s) c c'"
  shows "resolve_field s c = resolve_field s c'"
  using replaced_alike [OF assms] matched_alike [OF _ assms]
  by (auto simp: resolve_field_def split: option.split list.split)

section \<open>Templates\<close>

lemma agree_entry:
  assumes "wf_gval (VMap m)" "gm_get m k = Some v" "\<And>ks. set (order ks) = set ks"
    and "agree (extract_payload_refs order (VMap m)) c c'"
  shows "agree (extract_payload_refs order v) c c'"
proof (rule agree_mono [OF assms(4)])
  have "k \<in> set (order (map fst m))" using assms(2,3) gm_get_Some_in [of m k v] by force
  with assms(2) show "set (extract_payload_refs order v) \<subseteq> set (extract_payload_refs order (VMap m))" by force
qed

lemma source_alike:
  assumes m: "wf_gval (VMap m)" "plain_template (VMap m)" "\<And>ks. set (order ks) = set ks"
    and "agree (extract_payload_refs order (VMap m)) c c'"
    and "Option.bind (gm_get m ''$source'') as_string = Some expr"
  shows "resolve_field expr c = resolve_field expr c'"
proof -
  have g: "gm_get m ''$source'' = Some (VStr expr)" using assms(5) by (auto simp: bind_eq_Some_conv as_string_Some)
  from agree_entry [OF m(1) g m(3) assms(4)] have "agree (extract_text_refs expr) c c'" by simp
  moreover have "plain_text expr" using m(2) gm_get_Some_in [OF g] by (auto simp: list_all_iff)
  ultimately show ?thesis by (intro field_alike)
qed

lemma node_alike:
  assumes "wf_gval v" "plain_template v" "\<And>ks. set (order ks) = set ks" "agree (extract_payload_refs order v) c c'"
  shows "resolve_node v c = resolve_node v c'"
  using assms(1,2,4)
proof (induction "size v" arbitrary: v c c' rule: less_induct)
  case less
  show ?case
  proof (cases v)
    case (VStr s)
    with less show ?thesis by (simp add: field_alike)
  next
    case (VList vs)
    have "resolve_node x c = resolve_node x c'" if x: "x \<in> set vs" for x
    proof (rule less(1))
      show "agree (extract_payload_refs order x) c c'" by (rule agree_mono [OF less(4)]) (use x VList in auto)
    qed (use x VList less(2,3) gval_size_elem [OF x] in \<open>auto simp: list_all_iff\<close>)
    then have "traverse (\<lambda>v. resolve_node v c) vs = traverse (\<lambda>v. resolve_node v c') vs" by (intro traverse_cong) auto
    with VList show ?thesis by simp
  next
    case (VMap m)
    note w = less(2-4) [unfolded VMap]
    have IH: "resolve_node x c = resolve_node x c'" if x: "gm_get m k = Some x" and "agree (extract_payload_refs order x) c c'"
      for k x c c'
      using that gval_size_get [OF x] gm_get_Some_in [OF x] w(1,2)
      by (intro less(1)) (auto simp: VMap list_all_iff)
    have entries: "traverse (\<lambda>(k, v). case resolve_node v c of Inl e \<Rightarrow> Inl e | Inr r \<Rightarrow> Inr (trim_prefix k ''$$'', r)) m =
        traverse (\<lambda>(k, v). case resolve_node v c' of Inl e \<Rightarrow> Inl e | Inr r \<Rightarrow> Inr (trim_prefix k ''$$'', r)) m"
    proof (rule traverse_cong [OF refl])
      fix kx assume "kx \<in> set m"
      moreover obtain k x where kx: "kx = (k, x)" by (cases kx)
      ultimately have g: "gm_get m k = Some x" using w(1) by (auto intro: gm_get_in simp: wf_map_def)
      from IH [OF g agree_entry [OF w(1) g assms(3) w(3)]] show "(case kx of (k, v) \<Rightarrow> case resolve_node v c of
          Inl e \<Rightarrow> Inl e | Inr r \<Rightarrow> Inr (trim_prefix k ''$$'', r)) =
        (case kx of (k, v) \<Rightarrow> case resolve_node v c' of Inl e \<Rightarrow> Inl e | Inr r \<Rightarrow> Inr (trim_prefix k ''$$'', r))"
        by (simp add: kx)
    qed
    note src = source_alike [OF w(1,2) assms(3) w(3)]
    have elems: "resolve_node x \<lparr>rc_payload = rc_payload c, rc_item = i\<rparr> = resolve_node x \<lparr>rc_payload = rc_payload c', rc_item = i\<rparr>"
      if g: "gm_get m ''$each'' = Some x" for x i
      using agree_entry [OF w(1) g assms(3) w(3)] by (intro IH [OF g]) (simp add: agree_def ctx_lookup_def)
    have each: "resolve_each_directive m c = resolve_each_directive m c'"
      using src elems by (auto simp: Let_def split: option.split)
    have "resolve_source_directive m c = resolve_source_directive m c'"
      using src each by (auto split: option.split)
    with entries VMap show ?thesis by simp
  qed simp_all
qed

text \<open>The body of a mapping contract.\<close>

lemma body_alike:
  assumes "bc_type cfg = ''mapping''" "wf_gval (map_value (bc_template cfg))" "plain_template (map_value (bc_template cfg))"
    and "\<And>ks. set (order ks) = set ks"
    and "\<And>f. f \<in> set (extract_payload_refs order (map_value (bc_template cfg))) \<Longrightarrow> gm_get p f = gm_get p' f"
  shows "build_body cfg \<lparr>rc_payload = Some p, rc_item = x\<rparr> = build_body cfg \<lparr>rc_payload = Some p', rc_item = x\<rparr>"
proof -
  have "resolve_node (map_value (bc_template cfg)) \<lparr>rc_payload = Some p, rc_item = x\<rparr> =
      resolve_node (map_value (bc_template cfg)) \<lparr>rc_payload = Some p', rc_item = x\<rparr>"
    by (rule node_alike [OF assms(2-4)]) (simp add: agree_def ctx_lookup_def assms(5))
  with assms(1) show ?thesis by (simp add: build_body_def resolve_mapping_body_def)
qed

end
