(* ===== verification/Config_Props.thy ===== *)
theory Config_Props
  imports Config_Refs Worker
begin

text \<open>
  The properties of the configuration loader: what its getters return after any load, that one vendor's
  file never affects another's entry, and what the checks across files guarantee.
\<close>

section \<open>References in templates\<close>

text \<open>C27
  The fields the cross check takes from a template are all the engine uses: under a mapping contract, two
  payloads that agree on the fields \<open>extractPayloadRefs\<close> finds in the template, in whatever order it visits
  maps, give the same body or the same error, through nested maps and lists, \<open>$source\<close> and \<open>$each\<close>. The
  template's maps have one entry per key, and its texts contain neither of the two forms the scan misreads,
  a reference to the whole payload and a path beginning with a dot.\<close>

theorem references_found:
  assumes "bc_type cfg = ''mapping''" "wf_gval (map_value (bc_template cfg))" "plain_template (map_value (bc_template cfg))"
    and "\<And>ks. set (order ks) = set ks"
    and "\<And>f. f \<in> set (extract_payload_refs order (map_value (bc_template cfg))) \<Longrightarrow> gm_get p f = gm_get p' f"
  shows "build_body cfg \<lparr>rc_payload = Some p, rc_item = x\<rparr> = build_body cfg \<lparr>rc_payload = Some p', rc_item = x\<rparr>"
  using assms by (rule body_alike)

definition demo_template :: "(string, gval) gomap" where
  "demo_template = [(''id'', VStr (''u-'' @ at_ref ''{payload:user.id}'')),
     (''rows'', VMap [(''$source'', VStr (at_ref ''{payload:items}'')), (''$each'', VStr (at_ref ''{item:n}''))])]"

theorem references_found_witness:
  "extract_payload_refs rev (VMap demo_template) = [''items'', ''user''] \<and>
   build_body \<lparr>bc_type = ''mapping'', bc_template = Some demo_template\<rparr>
     \<lparr>rc_payload = Some [(''user'', VMap [(''id'', VInt 7)]), (''items'', VList []), (''x'', VInt 1)], rc_item = VNil\<rparr> =
   build_body \<lparr>bc_type = ''mapping'', bc_template = Some demo_template\<rparr>
     \<lparr>rc_payload = Some [(''items'', VList []), (''user'', VMap [(''id'', VInt 7)])], rc_item = VNil\<rparr>"
proof -
  have e: "extract_payload_refs rev (VMap demo_template) = [''items'', ''user'']" by code_simp
  have w: "wf_gval (VMap demo_template)" "plain_template (VMap demo_template)" by code_simp+
  let ?cfg = "\<lparr>bc_type = ''mapping'', bc_template = Some demo_template\<rparr>"
  have c: "bc_type ?cfg = ''mapping''" "map_value (bc_template ?cfg) = VMap demo_template"
    "\<And>ks. set (rev ks) = set (ks :: string list)" by (simp_all add: map_value_def)
  show ?thesis
    by (rule conjI [OF e], rule references_found [OF c(1) _ _ c(3)], unfold c(2), (rule w)+)
      (unfold e, auto simp: gm_get_def)
qed

section \<open>The getters\<close>

text \<open>C22
  Loading never panics, whatever the file system holds and the YAML decoder returns. After it, for every
  vendor and event, the getters of the vendor's configuration, of the delivery specification and of the
  event's schema return a value or an error, never both and never neither, without a panic, so that no
  client dereferences a nil value. The getter of the routing rules returns no rules beside an error; a file
  without routes gives neither rules nor an error.\<close>

theorem loader_total_sound:
  "\<exists>r l. load_config y stat order (new_loader paths) = Ret (r, l) \<and>
     (\<forall>v. exclusive (get_vendor_config l v)) \<and>
     (\<forall>v ev. \<exists>x. get_delivery_spec l v ev = Ret x \<and> exclusive x) \<and>
     (\<forall>ev. exclusive (get_event_schema l ev)) \<and>
     (\<forall>ev. fst (get_routing_rules l ev) = [] \<or> snd (get_routing_rules l ev) = None)"
proof -
  obtain r l where l: "load_config y stat order (new_loader paths) = Ret (r, l)" "loader_ok l"
    using load_config_ok by blast
  note loader_getters [OF l(2)]
  moreover have "fst (get_routing_rules l ev) = [] \<or> snd (get_routing_rules l ev) = None" for ev
    by (auto simp: get_routing_rules_def split: option.split)
  ultimately show ?thesis using l(1) by blast
qed

text \<open>C23
  Partial availability: a vendor's configuration depends on nothing but \<open>vendors/<vendor>/vendor.yaml\<close>. A
  missing, unreadable or malformed file of one vendor, of a route, schema or contract, never changes what
  the getter returns for another vendor.\<close>

theorem vendor_isolated:
  assumes "load_config y stat order (new_loader [dir]) = Ret (None, l)" "stat dir = Inr node"
    and "child node ''vendors'' = Some vs" "exists_and_is_dir (Some vs)" "read_dir vs = Inr es" "distinct (map fst es)"
  shows "get_vendor_config l v =
     (case map_of es v of
        None \<Rightarrow> (None, Some ErrNotConfigured)
      | Some n \<Rightarrow>
          if \<not> entry_is_dir n then (None, Some ErrNotConfigured)
          else (lv_value (vendor_of_file y v (child n ''vendor.yaml'')),
                lv_error (vendor_of_file y v (child n ''vendor.yaml''))))"
  using load_config_vendors [OF assms, of v] by (auto simp: get_vendor_config_def split: option.split)

definition demo_retry_file :: vendor_retry_file where
  "demo_retry_file = \<lparr>rt_max_attempts = 3, rt_base_delay = ''2s'', rt_max_delay = ''1m'', rt_multiplier = Fin 2,
     rt_jitter = Fin 0\<rparr>"

definition demo_yaml :: yaml where
  "demo_yaml = \<lparr>
     ym_routes = (\<lambda>t. if t = ''routes'' then Inr \<lparr>rf_event_type = ''e'', rf_routes = [''good'', ''ghost'']\<rparr>
                       else Inr \<lparr>rf_event_type = ''f'', rf_routes = [''good'']\<rparr>),
     ym_vendor = (\<lambda>t. if t = ''ok'' then Inr \<lparr>vf_vendor_id = ''x'', vf_base_url = ''http://good'', vf_auth = None,
                          vf_retry = demo_retry_file, vf_judgment = None\<rparr>
                       else Inl (ErrExternal ''yaml: line 1'')),
     ym_contract = (\<lambda>t. Inr \<lparr>cf_event_type = t, cf_method = ''POST'', cf_path = ''/x'', cf_headers = [],
                          cf_body_type = ''mapping'', cf_template = Some [(''id'', VStr (at_ref ''{payload:'' @ t @ ''}''))], cf_retry = None\<rparr>),
     ym_schema = (\<lambda>t. Inr \<lparr>sf_event_type = t, sf_description = [], sf_version = 1,
                        sf_schema = Some [(''properties'', VMap [(''f'', VMap [])])]\<rparr>)\<rparr>"

definition demo_fs :: fs_node where
  "demo_fs = Dir None
     [(''events'', Dir None [(''biz'', Dir None
        [(''routes'', Dir None [(''e.yaml'', File (Inr ''routes'')), (''f.yaml'', File (Inr ''other''))]),
         (''events'', Dir None [(''e.yaml'', File (Inr ''e'')), (''f.yaml'', File (Inr ''f''))])])]),
      (''vendors'', Dir None
        [(''good'', Dir None [(''vendor.yaml'', File (Inr ''ok'')),
            (''biz'', Dir None [(''e.yaml'', File (Inr ''e'')), (''f.yaml'', File (Inr ''f''))])]),
         (''bad'', Dir None [(''vendor.yaml'', File (Inr ''junk''))])])]"

definition demo_loaded :: loader where
  "demo_loaded = (case load_config demo_yaml (\<lambda>_. Inr demo_fs) rev (new_loader [''config'']) of
     Ret (r, l) \<Rightarrow> l | _ \<Rightarrow> new_loader [])"

lemma demo_load: "load_config demo_yaml (\<lambda>_. Inr demo_fs) rev (new_loader [''config'']) = Ret (None, demo_loaded)"
proof -
  obtain r l where e: "load_config demo_yaml (\<lambda>_. Inr demo_fs) rev (new_loader [''config'']) = Ret (r, l)"
    using load_config_ok by blast
  have "(case load_config demo_yaml (\<lambda>_. Inr demo_fs) rev (new_loader [''config'']) of Ret (r, l) \<Rightarrow> r = None | _ \<Rightarrow> False)"
    by code_simp
  with e show ?thesis by (simp add: demo_loaded_def)
qed

theorem vendor_isolated_witness:
  "fst (get_vendor_config demo_loaded ''good'') \<noteq> None \<and>
   get_vendor_config demo_loaded ''bad'' = (None, Some (Errorf ''parsing YAML: %w'' [ArgErr (ErrExternal ''yaml: line 1'')]))"
proof -
  let ?vs = "the (child demo_fs ''vendors'')"
  have vs: "child demo_fs ''vendors'' = Some ?vs" "exists_and_is_dir (Some ?vs)"
    by (simp_all add: demo_fs_def child_def exists_and_is_dir_def)
  obtain es where es: "read_dir ?vs = Inr es" "map fst es = [''bad'', ''good'']"
    "map_of es ''good'' = Some (Dir None [(''vendor.yaml'', File (Inr ''ok'')),
       (''biz'', Dir None [(''e.yaml'', File (Inr ''e'')), (''f.yaml'', File (Inr ''f''))])])"
    "map_of es ''bad'' = Some (Dir None [(''vendor.yaml'', File (Inr ''junk''))])"
    by (simp add: demo_fs_def child_def read_dir_def sort_entries_def)
  from es(2) have d: "distinct (map fst es)" by simp
  note iso = vendor_isolated [OF demo_load refl vs es(1) d]
  have "lv_value (vendor_of_file demo_yaml ''good'' (Some (File (Inr ''ok'')))) \<noteq> None" by code_simp
  with iso [of "''good''"] iso [of "''bad''"] es(3,4) show ?thesis
    by (simp add: child_def vendor_of_file_def read_file_def demo_yaml_def failed_def)
qed

section \<open>Cross checks\<close>

lemma loaded_validated:
  assumes "load_config y stat order (new_loader paths) = Ret (None, l)"
  shows "\<exists>l1. loader_ok l1 \<and> l = validate_cross_config order l1"
proof -
  obtain r l1 where p: "load_paths y stat paths (new_loader paths) = Ret (r, l1)" "loader_ok l1"
    using load_paths_keep [OF visitors_keep_ok, of "new_loader paths" y stat paths] by auto
  with assms show ?thesis by (cases r) (auto simp: load_config_def new_loader_def)
qed

text \<open>C24
  After a successful load, the rules returned for an event are rules for that event, and every vendor they
  name has a configuration entry. An entry may still hold an error: a vendor whose file is broken counts as
  existing.\<close>

theorem routed_vendors_exist:
  assumes "load_config y stat order (new_loader paths) = Ret (None, l)" "\<And>ks. set (order ks) = set ks"
    and "get_routing_rules l ev = (rules, None)" "r \<in> set rules"
  shows "rl_event_type r = ev \<and> rl_vendor_id r \<in> set (get_all_vendor_ids l)"
proof -
  obtain l1 where l1: "loader_ok l1" "l = validate_cross_config order l1" using loaded_validated [OF assms(1)] by blast
  note g = get_validated [where order = order and l = l1, OF assms(2)]
  from assms(3,4) obtain lv where lv: "gm_get (ld_rules l) ev = Some lv" "lv_error lv = None" "lv_value lv = rules"
    by (auto simp: get_routing_rules_def split: option.splits)
  then obtain lv1 where lv1: "gm_get (ld_rules l1) ev = Some lv1" "lv = check_route (ld_vendors l1) lv1"
    using g(1) [of ev] l1(2) by auto
  have "rules_ok ev lv1" using l1(1) lv1(1) by (auto simp: loader_ok_def dest: all_entriesD)
  moreover have "lv1 = lv" "find (\<lambda>r. \<not> gm_has (ld_vendors l1) (rl_vendor_id r)) (lv_value lv1) = None"
    using lv(2) lv1(2) by (auto simp: check_route_def split: if_splits option.splits)
  ultimately have "rl_event_type r = ev" "gm_has (ld_vendors l1) (rl_vendor_id r)"
    using lv assms(4) by (auto simp: rules_ok_def find_None_iff)
  with g(3) l1(2) show ?thesis by (simp add: get_all_vendor_ids_def gm_has_iff_key)
qed

theorem routed_vendors_exist_witness:
  "get_routing_rules demo_loaded ''f'' = ([\<lparr>rl_event_type = ''f'', rl_vendor_id = ''good''\<rparr>], None) \<and>
   fst (get_routing_rules demo_loaded ''e'') = [] \<and> ''good'' \<in> set (get_all_vendor_ids demo_loaded)"
proof -
  have f: "get_routing_rules demo_loaded ''f'' = ([\<lparr>rl_event_type = ''f'', rl_vendor_id = ''good''\<rparr>], None)"
    by code_simp
  have e: "fst (get_routing_rules demo_loaded ''e'') = []" by code_simp
  from routed_vendors_exist [OF demo_load _ f, of "\<lparr>rl_event_type = ''f'', rl_vendor_id = ''good''\<rparr>"] f e
  show ?thesis by simp
qed

lemma declared_refs:
  assumes "load_config y stat order (new_loader paths) = Ret (None, l)" "\<And>ks. set (order ks) = set ks"
    and "get_delivery_spec l v ev = Ret (Some spec, None)"
    and "mc_event_type (ds_mapping spec) \<noteq> []" "get_event_schema l (mc_event_type (ds_mapping spec)) = (Some (a, m), None)"
    and "gm_get m ''properties'' = Some (VMap props)"
    and "f \<in> set (extract_payload_refs order (map_value (bc_template (mc_body (ds_mapping spec)))))"
  shows "f \<in> fst ` set props"
proof -
  obtain l1 where l1: "l = validate_cross_config order l1" using loaded_validated [OF assms(1)] by blast
  note g = get_validated [where order = order and l = l1, OF assms(2)]
  from assms(3) obtain lv s where lv: "gm_get (ld_contracts l) (contract_key v ev) = Some lv" "lv_error lv = None"
    "lv_value lv = Some s" "ds_mapping spec = ds_mapping s"
    by (auto simp: get_delivery_spec_def split: option.splits if_splits)
  then obtain lv1 where "lv = check_contract order (ld_schemas l1) lv1"
    using g(2) [of "contract_key v ev"] l1 by auto
  with lv(2) have c: "lv = check_contract order (ld_schemas l1) lv" by simp
  have d: "declared_fields (ld_schemas l1) (mc_event_type (ds_mapping s)) = Some props"
    using assms(5,6) g(4) l1 lv(4) by (auto simp: declared_fields_def get_event_schema_def split: option.splits)
  have "find (\<lambda>f. \<not> gm_has props f) (extract_payload_refs order (map_value (bc_template (mc_body (ds_mapping s))))) = None"
    using c lv(2,3) d assms(4) lv(4) by (auto simp: check_contract_def Let_def failed_def split: option.splits if_splits)
  with assms(7) lv(4) show ?thesis by (auto simp: find_None_iff gm_has_iff_key)
qed

text \<open>C25
  After a successful load, consider a delivery specification returned without error, for an event whose
  schema was loaded and lists its properties as a map: every payload field that the cross check finds in
  the specification's body template is declared there. Path references are not checked, nor is anything
  where the schema is missing, failed, or has no such map.\<close>

theorem contract_fields_declared:
  assumes "load_config y stat order (new_loader paths) = Ret (None, l)" "\<And>ks. set (order ks) = set ks"
    and "get_delivery_spec l v ev = Ret (Some spec, None)"
    and "mc_event_type (ds_mapping spec) \<noteq> []" "get_event_schema l (mc_event_type (ds_mapping spec)) = (Some (a, m), None)"
    and "gm_get m ''properties'' = Some (VMap props)"
    and "f \<in> set (extract_payload_refs order (map_value (bc_template (mc_body (ds_mapping spec)))))"
  shows "f \<in> fst ` set props"
  using assms by (rule declared_refs)

theorem contract_fields_declared_witness:
  "\<exists>spec. get_delivery_spec demo_loaded ''good'' ''f'' = Ret (Some spec, None) \<and>
     ''f'' \<in> set (extract_payload_refs rev (map_value (bc_template (mc_body (ds_mapping spec))))) \<and>
     ''f'' \<in> fst ` set [(''f'', VMap [])] \<and>
     (case get_delivery_spec demo_loaded ''good'' ''e'' of Ret (s, e) \<Rightarrow> s = None | _ \<Rightarrow> False)"
proof -
  let ?spec = "\<lparr>ds_mapping = \<lparr>mc_event_type = ''f'', mc_request = \<lparr>rq_method = ''POST'', rq_path = ''/x'', rq_headers = []\<rparr>,
      mc_body = \<lparr>bc_type = ''mapping'', bc_template = Some [(''id'', VStr (at_ref ''{payload:f}''))]\<rparr>\<rparr>, ds_judgment = None,
      ds_retry = Some \<lparr>rp_max_attempts = 3, rp_base_delay_ms = 2000, rp_max_delay_ms = 60000, rp_multiplier = Fin 2,
        rp_jitter = Fin 0\<rparr>\<rparr>"
  have s: "(case get_delivery_spec demo_loaded ''good'' ''f'' of Ret (Some s, None) \<Rightarrow> s = ?spec | _ \<Rightarrow> False)"
    "get_event_schema demo_loaded ''f'' = (Some (2, [(''properties'', VMap [(''f'', VMap [])])]), None)"
    "(case get_delivery_spec demo_loaded ''good'' ''e'' of Ret (s, e) \<Rightarrow> s = None | _ \<Rightarrow> False)"
    "''f'' \<in> set (extract_payload_refs rev (map_value (bc_template (mc_body (ds_mapping ?spec)))))"
    by code_simp+
  then have "get_delivery_spec demo_loaded ''good'' ''f'' = Ret (Some ?spec, None)"
    by (auto split: prog.splits option.splits)
  with contract_fields_declared [OF demo_load _ this, of 2 _ "[(''f'', VMap [])]" "''f''"] s
  show ?thesis by (auto simp: gm_get_def)
qed

text \<open>C26
  The two checks together: after a successful load, for a delivery specification with a mapping body whose
  event has a schema that lists its properties, two payloads that agree on the declared fields give the same
  body; what else a payload holds never reaches the vendor in a body. The template's maps have one entry per
  key, and its texts contain neither a reference to the whole payload nor a path beginning with a dot.\<close>

theorem declared_fields_suffice:
  assumes "load_config y stat order (new_loader paths) = Ret (None, l)" "\<And>ks. set (order ks) = set ks"
    and "get_delivery_spec l v ev = Ret (Some spec, None)"
    and "mc_event_type (ds_mapping spec) \<noteq> []" "get_event_schema l (mc_event_type (ds_mapping spec)) = (Some (a, m), None)"
    and "gm_get m ''properties'' = Some (VMap props)"
    and cfg: "cfg = mc_body (ds_mapping spec)" "bc_type cfg = ''mapping''" "wf_gval (map_value (bc_template cfg))"
      "plain_template (map_value (bc_template cfg))"
    and eq: "\<And>f. f \<in> fst ` set props \<Longrightarrow> gm_get p f = gm_get p' f"
  shows "build_body cfg \<lparr>rc_payload = Some p, rc_item = VNil\<rparr> = build_body cfg \<lparr>rc_payload = Some p', rc_item = VNil\<rparr>"
proof (rule body_alike [OF cfg(2-4) assms(2)])
  show "gm_get p f = gm_get p' f" if "f \<in> set (extract_payload_refs order (map_value (bc_template cfg)))" for f
    by (rule eq, rule declared_refs [OF assms(1-6)]) (use that in \<open>simp add: cfg(1)\<close>)
qed

theorem declared_fields_suffice_witness:
  "\<exists>spec. get_delivery_spec demo_loaded ''good'' ''f'' = Ret (Some spec, None) \<and>
     build_body (mc_body (ds_mapping spec)) \<lparr>rc_payload = Some [(''f'', VInt 7), (''secret'', VInt 1)], rc_item = VNil\<rparr> =
     build_body (mc_body (ds_mapping spec)) \<lparr>rc_payload = Some [(''f'', VInt 7)], rc_item = VNil\<rparr>"
proof -
  have g: "(case get_delivery_spec demo_loaded ''good'' ''f'' of Ret (Some s, None) \<Rightarrow>
      mc_event_type (ds_mapping s) = ''f'' \<and> bc_type (mc_body (ds_mapping s)) = ''mapping'' \<and>
      wf_gval (map_value (bc_template (mc_body (ds_mapping s)))) \<and> plain_template (map_value (bc_template (mc_body (ds_mapping s))))
    | _ \<Rightarrow> False)"
    "get_event_schema demo_loaded ''f'' = (Some (2, [(''properties'', VMap [(''f'', VMap [])])]), None)"
    by code_simp+
  then obtain spec where s: "get_delivery_spec demo_loaded ''good'' ''f'' = Ret (Some spec, None)"
    "mc_event_type (ds_mapping spec) = ''f''" "bc_type (mc_body (ds_mapping spec)) = ''mapping''"
    "wf_gval (map_value (bc_template (mc_body (ds_mapping spec))))"
    "plain_template (map_value (bc_template (mc_body (ds_mapping spec))))"
    by (auto split: prog.splits option.splits)
  have o: "set (rev ks) = set (ks :: string list)" for ks by simp
  have e: "mc_event_type (ds_mapping spec) \<noteq> []" using s(2) by simp
  have sch: "get_event_schema demo_loaded (mc_event_type (ds_mapping spec)) = (Some (2, [(''properties'', VMap [(''f'', VMap [])])]), None)"
    unfolding s(2) by (rule g(2))
  have p: "gm_get [(''properties'', VMap [(''f'', VMap [])])] ''properties'' = Some (VMap [(''f'', VMap [])])"
    by (simp add: gm_get_def)
  have "gm_get [(''f'', VInt 7), (''secret'', VInt 1)] f = gm_get [(''f'', VInt 7)] f"
    if "f \<in> fst ` set [(''f'', VMap [])]" for f using that by (simp add: gm_get_def)
  from declared_fields_suffice [OF demo_load o s(1) e sch p refl s(3-5) this] s(1) show ?thesis by blast
qed

text \<open>C28
  Go iterates over a map in an unspecified order: the cross checks over the loaded entries, which they
  replace while they iterate, and over the maps inside a template. Whatever the orders, the loader ends up
  the same: every getter returns the same rules, configuration and schema, and a delivery specification is
  the same, or an error in both cases. The text of a contract's error may name a different one of several
  undeclared fields.\<close>

theorem cross_check_order:
  assumes "\<And>ks. set (order ks) = set ks" "\<And>ks. set (order' ks) = set ks"
  shows "get_routing_rules (validate_cross_config order l) ev = get_routing_rules (validate_cross_config order' l) ev \<and>
         get_vendor_config (validate_cross_config order l) v = get_vendor_config (validate_cross_config order' l) v \<and>
         get_event_schema (validate_cross_config order l) ev = get_event_schema (validate_cross_config order' l) ev \<and>
         bind (get_delivery_spec (validate_cross_config order l) v ev) (\<lambda>(spec, e). Ret (spec, e = None)) =
         bind (get_delivery_spec (validate_cross_config order' l) v ev) (\<lambda>(spec, e). Ret (spec, e = None))"
proof -
  note g = get_validated [where order = order and l = l, OF assms(1)]
  note g' = get_validated [where order = order' and l = l, OF assms(2)]
  have "bind (get_delivery_spec (validate_cross_config order l) v ev) (\<lambda>(spec, e). Ret (spec, e = None)) =
      bind (get_delivery_spec (validate_cross_config order' l) v ev) (\<lambda>(spec, e). Ret (spec, e = None))"
    using check_contract_order [of order order', OF assms, of "ld_schemas l"]
    unfolding get_delivery_spec_def g g' by (auto split: option.split) (metis option.distinct(1))+
  then show ?thesis
    unfolding get_routing_rules_def get_vendor_config_def get_event_schema_def g g' by simp
qed

theorem cross_check_order_witness:
  "get_routing_rules (validate_cross_config rev demo_loaded) ''f'' = get_routing_rules (validate_cross_config id demo_loaded) ''f''"
  using cross_check_order [of rev id demo_loaded] by simp

section \<open>Retry policies\<close>

text \<open>C29
  A delivery specification returned without error always carries a retry policy: the contract's own, or
  else the vendor's. The worker therefore retries by the contract's policy where there is one.\<close>

theorem policy_resolved:
  assumes "load_config y stat order (new_loader paths) = Ret (r, l)" "get_delivery_spec l v ev = Ret (Some spec, None)"
  shows "\<exists>vc stored. get_vendor_config l v = (Some vc, None) \<and> vc_vendor_id vc = v \<and>
     gm_get (ld_contracts l) (contract_key v ev) = Some (loaded (Some stored)) \<and>
     ds_mapping spec = ds_mapping stored \<and>
     effective_policy vc spec = (case ds_retry stored of Some p \<Rightarrow> p | None \<Rightarrow> vc_retry vc)"
proof -
  have ok: "loader_ok l" using load_config_ok [of y stat order paths] assms(1) by auto
  obtain vlv clv stored where d: "gm_get (ld_vendors l) v = Some vlv" "lv_error vlv = None"
    "gm_get (ld_contracts l) (contract_key v ev) = Some clv" "lv_error clv = None" "lv_value clv = Some stored"
    using assms(2) by (auto simp: get_delivery_spec_def split: option.splits if_splits)
  have "entry_ok vlv \<and> (\<forall>x. lv_value vlv = Some x \<longrightarrow> vc_vendor_id x = v)"
    using ok d(1) unfolding loader_ok_def all_entries_def by blast
  then obtain vc where vc: "lv_value vlv = Some vc" "vc_vendor_id vc = v"
    using d(2) by (auto simp: entry_ok_def exclusive_def)
  have c: "clv = loaded (Some stored)" using d(4,5) by (cases clv) (simp add: loaded_def)
  have "spec = stored\<lparr>ds_retry := Some (vc_retry vc)\<rparr> \<and> ds_retry stored = None \<or> spec = stored \<and> ds_retry stored \<noteq> None"
    using assms(2) d vc by (auto simp: get_delivery_spec_def split: if_splits)
  with d vc c show ?thesis by (auto simp: get_vendor_config_def effective_policy_def)
qed

theorem policy_resolved_witness:
  "\<exists>vc spec. get_vendor_config demo_loaded ''good'' = (Some vc, None) \<and>
     get_delivery_spec demo_loaded ''good'' ''f'' = Ret (Some spec, None) \<and> vc_vendor_id vc = ''good''"
proof -
  have "(case get_delivery_spec demo_loaded ''good'' ''f'' of Ret (Some s, None) \<Rightarrow> True | _ \<Rightarrow> False)" by code_simp
  then obtain spec where s: "get_delivery_spec demo_loaded ''good'' ''f'' = Ret (Some spec, None)"
    by (auto split: prog.splits option.splits)
  from policy_resolved [OF demo_load s] s show ?thesis by blast
qed

text \<open>C30
  The error of a contract's retry policy is recorded under the file's name, extension included, not under
  the event. The getter therefore keeps answering as if the file were not there: \<open>ErrNotConfigured\<close>, or an
  older entry, instead of the error.\<close>

theorem contract_error_misfiled:
  assumes "convert_vendor_retry_file (cf_retry file) = Inl e" "var_of vars ''vendor'' = v"
    and "base_name path \<noteq> ev"
  shows "get_delivery_spec (load_contract (Inr file, path, vars) l) v ev = get_delivery_spec l v ev \<and>
         gm_get (ld_contracts (load_contract (Inr file, path, vars) l)) (contract_key v (base_name path)) =
           Some (failed None (Errorf ''contract retry_policy: %w'' [ArgErr e]))"
proof -
  have l: "load_contract (Inr file, path, vars) l = l\<lparr>ld_contracts := gm_put (contract_key v (base_name path))
      (failed None (Errorf ''contract retry_policy: %w'' [ArgErr e])) (ld_contracts l)\<rparr>"
    using assms(1,2) by (simp add: load_contract_def record_error_def Let_def)
  have k: "contract_key v ev \<noteq> contract_key v (base_name path)" using assms(3) by (simp add: contract_key_def)
  then have g: "gm_get (ld_contracts (l\<lparr>ld_contracts := gm_put (contract_key v (base_name path)) lv (ld_contracts l)\<rparr>))
      (contract_key v ev) = gm_get (ld_contracts l) (contract_key v ev)" for lv by simp
  show ?thesis unfolding l get_delivery_spec_def g by simp
qed

theorem contract_error_misfiled_witness:
  "get_delivery_spec (load_contract (Inr \<lparr>cf_event_type = [], cf_method = ''POST'', cf_path = ''/x'', cf_headers = [],
       cf_body_type = ''none'', cf_template = None, cf_retry = Some (demo_retry_file\<lparr>rt_base_delay := ''2 sec''\<rparr>)\<rparr>,
       ''config/vendors/good/biz/g.yaml'', [(''vendor'', ''good''), (''event'', ''g'')]) demo_loaded) ''good'' ''g'' =
   Ret (None, Some ErrNotConfigured)"
proof -
  let ?file = "\<lparr>cf_event_type = [], cf_method = ''POST'', cf_path = ''/x'', cf_headers = [],
       cf_body_type = ''none'', cf_template = None, cf_retry = Some (demo_retry_file\<lparr>rt_base_delay := ''2 sec''\<rparr>)\<rparr>"
  have e: "(case convert_vendor_retry_file (cf_retry ?file) of Inl e \<Rightarrow> e = ErrExternal ''time: unknown unit in duration''
      | Inr _ \<Rightarrow> False)" by code_simp
  have c: "convert_vendor_retry_file (cf_retry ?file) = Inl (ErrExternal ''time: unknown unit in duration'')"
    using e by (auto split: sum.splits)
  have b: "base_name ''config/vendors/good/biz/g.yaml'' \<noteq> ''g''" by code_simp
  have g: "(case get_delivery_spec demo_loaded ''good'' ''g'' of Ret (None, Some e) \<Rightarrow> e = ErrNotConfigured | _ \<Rightarrow> False)"
    by code_simp
  have n: "get_delivery_spec demo_loaded ''good'' ''g'' = Ret (None, Some ErrNotConfigured)"
    using g by (auto split: prog.splits option.splits)
  show ?thesis
    using contract_error_misfiled [OF c _ b, of "[(''vendor'', ''good''), (''event'', ''g'')]" "''good''" demo_loaded] n
    by (simp add: var_of_def gm_get_def)
qed

text \<open>
  Delays written as a whole number and a unit are read exactly, as long as they fit: \<open>n\<close> followed by \<open>ms\<close>,
  \<open>s\<close> or \<open>m\<close> is \<open>n\<close>, \<open>1000 n\<close> or \<open>60000 n\<close> milliseconds.\<close>

theorem durations_exact:
  assumes "0 \<le> n" "(u, k) \<in> {(''ms'', 1), (''s'', 1000), (''m'', 60000)}" "n * k * 1000000 \<le> max_i64"
  shows "parse_duration_to_ms (show_int n @ u) = Inr (n * k)"
proof -
  have k: "unit_ns u = Some (k * 1000000)" using assms(2) by (auto simp: unit_ns_def)
  have "(a * 1000000) sdiv 1000000 = a" if "0 \<le> a" for a :: int
    using that by (cases "a = 0") (simp_all add: signed_divide_int_def)
  moreover have "0 \<le> n * k" using assms(1,2) by auto
  ultimately have "(n * k * 1000000) sdiv 1000000 = n * k" by blast
  with parse_number_unit [OF assms(1) k] assms(3) show ?thesis
    by (simp add: parse_duration_to_ms_def mult.assoc)
qed

theorem durations_exact_witness: "parse_duration_to_ms (show_int 90 @ ''s'') = Inr 90000"
  using durations_exact [of 90 "''s''" 1000] by (simp add: max_i64_def)

end
