(* ===== verification/System_Run.thy ===== *)
theory System_Run
  imports System_Safety Worker_Props
begin

text \<open>
  One run of the service, evaluated: a request is accepted and dispatched, the vendor is busy at first,
  the repetition succeeds, and a redelivery of the same message is sent and refused. The states it passes
  are the witnesses of the properties of \<open>System_Props\<close>.
\<close>

section \<open>The run\<close>

definition life_world :: world where
  "life_world = \<lparr>w_store = \<lparr>st_notifs = [], st_tasks = [], st_schemas = [], st_now = 5,
       st_ids = (\<lambda>k. replicate (Suc k) (CHR ''a'')), st_drawn = 0, st_uuid = Some, st_faults = []\<rparr>,
     w_published = [], w_mq_faults = [],
     w_vendors = [Inr (503, ''busy''), Inr (200, ''OK''), Inr (404, ''gone'')], w_requests = [], w_clock = 0, w_random = []\<rparr>"

text \<open>A request, its trigger message, the delivery message, its delayed repetition, and a redelivery.\<close>

definition life_ingest :: "unit prog" where
  "life_ingest = goroutine (fst (ingest (prod_service demo_config)
     \<lparr>ae_time_text = (\<lambda>_. []), ae_error_text = (\<lambda>_. []), ae_message_text = (\<lambda>_ _. [])\<rparr> [] []
     ''{\"event\":\"user.created\",\"idempotent_key\":\"k\",\"payload\":{\"id\":\"7\"}}''))"

definition life_dispatch :: "unit prog" where
  "life_dispatch = goroutine (dispatch (prod_dispatcher demo_config) ''a'')"

definition life_message :: string where
  "life_message = pb_body (delivery_message ''crm'' ''aa'')"

definition life_deliver :: "unit prog" where
  "life_deliver = goroutine (handle_delivery (prod_worker (\<lambda>_. True) demo_config) life_message)"

definition after :: "unit prog \<Rightarrow> world \<Rightarrow> world" where
  "after p w = snd (run exec_world p w)"

definition bodies :: "world \<Rightarrow> (string \<times> string) list" where
  "bodies w = map (\<lambda>(e, k, m). (e, pb_body m)) (w_published w)"

definition life1 :: world where "life1 = after life_ingest life_world"
definition life2 :: world where "life2 = after life_dispatch life1"
definition life3 :: world where "life3 = after life_deliver life2"
definition life4 :: world where "life4 = after life_deliver life3"
definition life5 :: world where "life5 = after life_deliver life4"

definition statuses :: "world \<Rightarrow> (string \<times> int) list \<times> string list" where
  "statuses w = (map (\<lambda>t. (t_status t, t_retry_count t)) (st_tasks (w_store w)), map n_status (st_notifs (w_store w)))"

definition answers :: "world \<Rightarrow> (unit + int) list" where
  "answers w = map (\<lambda>(req, r). map_sum (\<lambda>_. ()) fst r) (w_requests w)"

lemma life_evaluated:
  "(case run exec_world life_ingest life_world of (r1, w1) \<Rightarrow>
    case run exec_world life_dispatch w1 of (r2, w2) \<Rightarrow>
    case run exec_world life_deliver w2 of (r3, w3) \<Rightarrow>
    case run exec_world life_deliver w3 of (r4, w4) \<Rightarrow>
    case run exec_world life_deliver w4 of (r5, w5) \<Rightarrow>
      ([r1, r2, r3, r4, r5], (bodies w1, bodies w2, bodies w3, bodies w4),
       statuses w2, statuses w3, statuses w4, statuses w5, answers w5)) =
   ([Inr (), Inr (), Inr (), Inr (), Inr ()],
    ([(trigger_exchange, ''a'')],
     [(trigger_exchange, ''a''), (delivery_exchange, life_message)],
     [(trigger_exchange, ''a''), (delivery_exchange, life_message), (dlx_exchange, life_message)],
     [(trigger_exchange, ''a''), (delivery_exchange, life_message), (dlx_exchange, life_message)]),
    ([(''PENDING'', 0)], [''DELIVERING'']), ([(''PENDING'', 1)], [''DELIVERING'']),
    ([(''SUCCEEDED'', 1)], [''SUCCEEDED'']), ([(''DEAD_LETTER'', 1)], [''FAILED'']),
    [Inr 503, Inr 200, Inr 404])"
  by code_simp

lemmas life_facts = life_evaluated [unfolded case_prod_beta, folded after_def,
  folded life1_def, folded life2_def, folded life3_def, folded life4_def, folded life5_def, unfolded prod.inject list.inject]

lemma bodies_in: "(e, b) \<in> set (bodies w) \<Longrightarrow> \<exists>k m. (e, k, m) \<in> set (w_published w) \<and> pb_body m = b"
  by (auto simp: bodies_def)

lemma life_config_ok: "ascii_vendors demo_config"
  by (auto simp: ascii_vendors_def demo_config_def ascii_def)

lemma life_fresh: "fresh_world life_world"
  by (simp add: fresh_world_def life_world_def ids_ok_def ascii_def list_all_iff)

text \<open>One goroutine run to its end takes a reachable state to a reachable state.\<close>

lemma runs_after:
  assumes "runs cfg url_ok w0 s" "starts cfg url_ok (sy_world s) p" "fst (run exec_world p (sy_world s)) = Inr ()"
  shows "\<exists>s'. runs cfg url_ok w0 s' \<and> sy_world s' = after p (sy_world s)"
proof -
  have "run exec_world p (sy_world s) = (Inr (), after p (sy_world s))"
    using assms(3) by (simp add: after_def prod_eq_iff)
  with reachable_run [of exec_world environment "starts cfg url_ok" w0 s p] assms(1,2) show ?thesis
    by (auto simp: runs_def)
qed

lemma runs_deliver:
  assumes "runs demo_config (\<lambda>_. True) life_world s" "(e, life_message) \<in> set (bodies (sy_world s))"
    and "e = delivery_exchange \<or> e = dlx_exchange" "fst (run exec_world life_deliver (sy_world s)) = Inr ()"
  shows "\<exists>s'. runs demo_config (\<lambda>_. True) life_world s' \<and> sy_world s' = after life_deliver (sy_world s)"
proof -
  from bodies_in [OF assms(2)] obtain k m where "(e, k, m) \<in> set (w_published (sy_world s))" "pb_body m = life_message"
    by blast
  with starts.delivery [of e k m "sy_world s" demo_config "\<lambda>_. True"] assms(3)
  have "starts demo_config (\<lambda>_. True) (sy_world s) life_deliver" by (simp add: life_deliver_def)
  from runs_after [OF assms(1) this assms(4)] show ?thesis .
qed

lemma life1_reached: "\<exists>s. runs demo_config (\<lambda>_. True) life_world s \<and> sy_world s = life1"
proof -
  have s0: "runs demo_config (\<lambda>_. True) life_world \<lparr>sy_world = life_world, sy_threads = []\<rparr>"
    by (simp add: runs_def life_config_ok demo_config_total life_fresh reachable.initial)
  have "starts demo_config (\<lambda>_. True) life_world life_ingest"
    unfolding life_ingest_def by (rule starts.ingest_request)
  from runs_after [OF s0] this life_facts show ?thesis by (auto simp: life1_def)
qed

lemma life_reached:
  "\<exists>s. runs demo_config (\<lambda>_. True) life_world s \<and> sy_world s = life2"
  "\<exists>s. runs demo_config (\<lambda>_. True) life_world s \<and> sy_world s = life4"
  "\<exists>s. runs demo_config (\<lambda>_. True) life_world s \<and> sy_world s = life5"
proof -
  let ?R = "runs demo_config (\<lambda>_. True) life_world"
  from life1_reached obtain s1 where s1: "?R s1" "sy_world s1 = life1" by blast
  obtain k m where "(trigger_exchange, k, m) \<in> set (w_published life1)" "pb_body m = ''a''"
    using bodies_in [of trigger_exchange "''a''" life1] life_facts by auto
  with starts.trigger [of k m life1 demo_config "\<lambda>_. True"]
  have "starts demo_config (\<lambda>_. True) (sy_world s1) life_dispatch" by (simp add: life_dispatch_def s1(2))
  from runs_after [OF s1(1) this] life_facts obtain s2 where s2: "?R s2" "sy_world s2 = life2"
    by (auto simp: life2_def s1(2))
  from runs_deliver [OF s2(1), of delivery_exchange] life_facts obtain s3 where s3: "?R s3" "sy_world s3 = life3"
    by (auto simp: life3_def s2(2))
  from runs_deliver [OF s3(1), of dlx_exchange] life_facts obtain s4 where s4: "?R s4" "sy_world s4 = life4"
    by (auto simp: life4_def s3(2))
  from runs_deliver [OF s4(1), of dlx_exchange] life_facts obtain s5 where s5: "?R s5" "sy_world s5 = life5"
    by (auto simp: life5_def s4(2))
  from s2 s4 s5 show
    "\<exists>s. runs demo_config (\<lambda>_. True) life_world s \<and> sy_world s = life2"
    "\<exists>s. runs demo_config (\<lambda>_. True) life_world s \<and> sy_world s = life4"
    "\<exists>s. runs demo_config (\<lambda>_. True) life_world s \<and> sy_world s = life5"
    by blast+
qed

text \<open>A dispatch whose status update is lost leaves a task behind a notification still pending.\<close>

definition life_fault :: world where
  "life_fault = life1\<lparr>w_store := (w_store life1)\<lparr>st_faults := [Healthy, Healthy, Healthy, Lost]\<rparr>\<rparr>"

definition life_stuck :: world where
  "life_stuck = after life_dispatch life_fault"

lemma stuck_evaluated:
  "(case run exec_world life_ingest life_world of (r1, w1) \<Rightarrow>
    case run exec_world life_dispatch (w1\<lparr>w_store := (w_store w1)\<lparr>st_faults := [Healthy, Healthy, Healthy, Lost]\<rparr>\<rparr>)
      of (r2, w2) \<Rightarrow> (r2, statuses w2, map t_notification_id (st_tasks (w_store w2)), map n_id (st_notifs (w_store w2)))) =
   (Inr (), ([(''PENDING'', 0)], [''PENDING'']), [''a''], [''a''])"
  by code_simp

lemmas stuck_facts = stuck_evaluated [unfolded case_prod_beta, folded after_def,
  folded life1_def, folded life_fault_def, folded life_stuck_def, unfolded prod.inject]

lemma environment_fault:
  "environment w (w\<lparr>w_store := (w_store w)\<lparr>st_faults := fs\<rparr>\<rparr>)"
proof -
  let ?w = "w\<lparr>w_store := (w_store w)\<lparr>st_now := st_now (w_store w), st_faults := fs, st_schemas := st_schemas (w_store w)\<rparr>,
    w_mq_faults := w_mq_faults w, w_vendors := w_vendors w, w_clock := w_clock w, w_random := w_random w\<rparr>"
  have "environment w ?w" by (rule environment.intros) simp_all
  moreover have "?w = w\<lparr>w_store := (w_store w)\<lparr>st_faults := fs\<rparr>\<rparr>" by simp
  ultimately show ?thesis by (simp only:)
qed

lemma runs_environment:
  "runs cfg url_ok w0 s \<Longrightarrow> environment (sy_world s) w \<Longrightarrow> runs cfg url_ok w0 (s\<lparr>sy_world := w\<rparr>)"
  unfolding runs_def by (blast intro: reachable.step system_step.environment)

lemma stuck_reached: "\<exists>s. runs demo_config (\<lambda>_. True) life_world s \<and> sy_world s = life_stuck"
proof -
  from life1_reached obtain s1 where s1: "runs demo_config (\<lambda>_. True) life_world s1" "sy_world s1 = life1" by blast
  let ?s = "s1\<lparr>sy_world := life_fault\<rparr>"
  have s: "runs demo_config (\<lambda>_. True) life_world ?s"
    using runs_environment [OF s1(1), of life_fault] s1(2) environment_fault [of life1] by (simp add: life_fault_def)
  obtain k m where "(trigger_exchange, k, m) \<in> set (w_published life1)" "pb_body m = ''a''"
    using bodies_in [of trigger_exchange "''a''" life1] life_facts by auto
  with starts.trigger [of k m life_fault demo_config "\<lambda>_. True"]
  have "starts demo_config (\<lambda>_. True) (sy_world ?s) life_dispatch" by (simp add: life_dispatch_def life_fault_def)
  from runs_after [OF s this] stuck_facts show ?thesis by (auto simp: life_stuck_def)
qed

end
