(* ===== verification/System_Props.thy ===== *)
theory System_Props
  imports System_Run
begin

text \<open>
  What holds in every state the service reaches: whatever requests arrive, however goroutines
  interleave, whichever statements, publications and vendor calls fail, however often a message is
  delivered.
\<close>

text \<open>C1
  No false success: in every reachable state, a task marked \<open>SUCCEEDED\<close> has had its request, the one the
  configuration and the stored payload give for its vendor and event, answered with a 2xx status.\<close>

theorem succeeded_was_delivered:
  assumes "runs cfg url_ok w0 s" "t \<in> set (st_tasks (w_store (sy_world s)))" "t_status t = ''SUCCEEDED''"
  shows "\<exists>n vc spec req code status. n \<in> set (st_notifs (w_store (sy_world s))) \<and> n_id n = t_notification_id t \<and>
     cp_vendor_config cfg (t_vendor_id t) = Inr (Some vc) \<and> cp_delivery_spec cfg (t_vendor_id t) (t_event_type t) = Ret (Inr (Some spec)) \<and>
     build_request url_ok (Some vc) (Some (ds_mapping spec)) (n_payload n) = Inr (Some req) \<and>
     (req, Inr (code, status)) \<in> set (w_requests (sy_world s)) \<and> 200 \<le> code \<and> code < 300"
proof -
  from runs_inv [OF assms(1)] assms(2,3) have "delivered cfg url_ok (sy_world s) t"
    by (auto simp: task_ok_def dest: sys_invD(5))
  then show ?thesis
    unfolding delivered_def request_for_def is_http_success_def
    by (blast dest: notif_row_Some)
qed

theorem succeeded_was_delivered_witness:
  "\<exists>s t. runs demo_config (\<lambda>_. True) life_world s \<and> t \<in> set (st_tasks (w_store (sy_world s))) \<and>
     t_status t = ''SUCCEEDED'' \<and>
     (\<exists>req code status. (req, Inr (code, status)) \<in> set (w_requests (sy_world s)) \<and> 200 \<le> code \<and> code < 300)"
proof -
  obtain s where s: "runs demo_config (\<lambda>_. True) life_world s" "sy_world s = life4" using life_reached by blast
  obtain t where t: "t \<in> set (st_tasks (w_store life4))" "t_status t = ''SUCCEEDED''"
    using life_facts by (auto simp: statuses_def)
  from succeeded_was_delivered [OF s(1)] s t show ?thesis by fastforce
qed

text \<open>C2
  Idempotency: in every reachable state there is at most one notification per caller and idempotency key,
  at most one delivery task per notification and vendor, identifiers are unique, and every task belongs to
  a stored notification.\<close>

theorem no_duplicates:
  assumes "runs cfg url_ok w0 s" "st = w_store (sy_world s)"
  shows "distinct (map (\<lambda>n. (n_caller_id n, n_idempotent_key n)) (st_notifs st)) \<and>
         distinct (map (\<lambda>t. (t_notification_id t, t_vendor_id t)) (st_tasks st)) \<and>
         distinct (map n_id (st_notifs st)) \<and> distinct (map t_id (st_tasks st)) \<and>
         t_notification_id ` set (st_tasks st) \<subseteq> n_id ` set (st_notifs st)"
proof -
  have "notif_key = (\<lambda>n. (n_caller_id n, n_idempotent_key n))" "task_key = (\<lambda>t. (t_notification_id t, t_vendor_id t))"
    by (simp_all add: fun_eq_iff notif_key_def task_key_def)
  with sys_invD(1) [OF runs_inv [OF assms(1)]] assms(2) show ?thesis by (simp add: wf_store_def)
qed

theorem no_duplicates_witness:
  "\<exists>s. runs demo_config (\<lambda>_. True) life_world s \<and> sy_world s = life4 \<and> st_tasks (w_store life4) \<noteq> [] \<and>
     distinct (map t_id (st_tasks (w_store life4)))"
proof -
  obtain s where s: "runs demo_config (\<lambda>_. True) life_world s" "sy_world s = life4" using life_reached by blast
  have "st_tasks (w_store life4) \<noteq> []" using life_facts by (auto simp: statuses_def)
  with no_duplicates [OF s(1) refl] s show ?thesis by auto
qed

text \<open>C4
  In every reachable state a task's retry count is zero or below the maximum of the retry policy in force
  for its vendor and event.\<close>

theorem retries_bounded:
  assumes "runs cfg url_ok w0 s" "t \<in> set (st_tasks (w_store (sy_world s)))"
  shows "t_retry_count t = 0 \<or>
     (0 < t_retry_count t \<and>
      (\<exists>vc spec. cp_vendor_config cfg (t_vendor_id t) = Inr (Some vc) \<and>
         cp_delivery_spec cfg (t_vendor_id t) (t_event_type t) = Ret (Inr (Some spec)) \<and>
         t_retry_count t < rp_max_attempts (effective_policy vc spec)))"
  using sys_invD(5) [OF runs_inv [OF assms(1)] assms(2)] by (auto simp: task_ok_def retries_ok_def)

theorem retries_bounded_witness:
  "\<exists>s t vc spec. runs demo_config (\<lambda>_. True) life_world s \<and> t \<in> set (st_tasks (w_store (sy_world s))) \<and>
     0 < t_retry_count t \<and> cp_vendor_config demo_config (t_vendor_id t) = Inr (Some vc) \<and>
     t_retry_count t < rp_max_attempts (effective_policy vc spec)"
proof -
  obtain s where s: "runs demo_config (\<lambda>_. True) life_world s" "sy_world s = life4" using life_reached by blast
  obtain t where t: "t \<in> set (st_tasks (w_store life4))" "t_retry_count t = 1"
    using life_facts by (auto simp: statuses_def)
  from retries_bounded [OF s(1), of t] s(2) t obtain vc spec where
    "cp_vendor_config demo_config (t_vendor_id t) = Inr (Some vc)" "t_retry_count t < rp_max_attempts (effective_policy vc spec)"
    by auto
  moreover have "0 < t_retry_count t" using t by simp
  ultimately show ?thesis using s t(1) by metis
qed

text \<open>C5
  No delivery before dispatch: as long as a notification is \<open>PENDING\<close>, each of its tasks is \<open>PENDING\<close> too
  and has never been retried.\<close>

theorem pending_untouched:
  assumes "runs cfg url_ok w0 s" "n \<in> set (st_notifs (w_store (sy_world s)))" "n_status n = ''PENDING''"
    and "t \<in> set (st_tasks (w_store (sy_world s)))" "t_notification_id t = n_id n"
  shows "t_status t = ''PENDING'' \<and> t_retry_count t = 0"
  using sys_invD(5) [OF runs_inv [OF assms(1)] assms(4)] notif_row_in [OF sys_invD(1) [OF runs_inv [OF assms(1)]] assms(2)] assms(3,5)
  by (auto simp: task_ok_def untouched_def)

theorem pending_untouched_witness:
  "\<exists>s n t. runs demo_config (\<lambda>_. True) life_world s \<and> n \<in> set (st_notifs (w_store (sy_world s))) \<and>
     n_status n = ''PENDING'' \<and> t \<in> set (st_tasks (w_store (sy_world s))) \<and> t_notification_id t = n_id n \<and>
     t_status t = ''PENDING'' \<and> t_retry_count t = 0"
proof -
  obtain s where s: "runs demo_config (\<lambda>_. True) life_world s" "sy_world s = life_stuck" using stuck_reached by blast
  obtain n t where nt: "st_notifs (w_store (sy_world s)) = [n]" "st_tasks (w_store (sy_world s)) = [t]"
    "n_status n = ''PENDING''" "t_notification_id t = n_id n"
    using stuck_facts by (auto simp: statuses_def s(2))
  with pending_untouched [OF s(1), of n t] have "t_status t = ''PENDING'' \<and> t_retry_count t = 0" by simp
  with nt s(1) show ?thesis by (intro exI [of _ s] exI [of _ n] exI [of _ t]) simp
qed

text \<open>C3
  Every message ever handed to the broker can be acted on: a trigger message names a stored notification;
  a delivery message, fresh or delayed, reads back as a stored task whose notification has left \<open>PENDING\<close>.\<close>

theorem messages_sound:
  assumes "runs cfg url_ok w0 s" "(e, k, m) \<in> set (w_published (sy_world s))"
  shows "(e = trigger_exchange \<longrightarrow> pb_body m \<in> n_id ` set (st_notifs (w_store (sy_world s)))) \<and>
     (e = delivery_exchange \<or> e = dlx_exchange \<longrightarrow>
        (\<exists>t n v. decode_delivery (pb_body m) = Some (t_id t, v) \<and> t \<in> set (st_tasks (w_store (sy_world s))) \<and>
           n \<in> set (st_notifs (w_store (sy_world s))) \<and> n_id n = t_notification_id t \<and> n_status n \<noteq> ''PENDING''))"
proof -
  let ?st = "w_store (sy_world s)"
  have m: "sound_message (sy_world s) (e, k, m)" using sys_invD(6) [OF runs_inv [OF assms(1)] assms(2)] .
  have "\<exists>t n v. decode_delivery (pb_body m) = Some (t_id t, v) \<and> t \<in> set (st_tasks ?st) \<and>
      n \<in> set (st_notifs ?st) \<and> n_id n = t_notification_id t \<and> n_status n \<noteq> ''PENDING''"
    if "e = delivery_exchange \<or> e = dlx_exchange"
  proof -
    from m that obtain i v where d: "decode_delivery (pb_body m) = Some (i, v)" "open_task (sy_world s) i"
      unfolding sound_message_def by blast
    then obtain t n where "task_row ?st i = Some t" "notif_row ?st (t_notification_id t) = Some n"
      "n_status n \<noteq> ''PENDING''" unfolding open_task_def by blast
    with d(1) task_row_Some [of ?st i t] notif_row_Some [of ?st "t_notification_id t" n] show ?thesis by blast
  qed
  with m show ?thesis by (auto simp: sound_message_def notif_row_None)
qed

theorem messages_sound_witness:
  "\<exists>s k m t v. runs demo_config (\<lambda>_. True) life_world s \<and>
     (delivery_exchange, k, m) \<in> set (w_published (sy_world s)) \<and>
     t \<in> set (st_tasks (w_store (sy_world s))) \<and> decode_delivery (pb_body m) = Some (t_id t, v)"
proof -
  obtain s where s: "runs demo_config (\<lambda>_. True) life_world s" "sy_world s = life2" using life_reached by blast
  obtain k m where m: "(delivery_exchange, k, m) \<in> set (w_published (sy_world s))"
    using bodies_in [of delivery_exchange life_message life2] life_facts s(2) by auto
  from messages_sound [OF s(1) m] obtain t v where "t \<in> set (st_tasks (w_store (sy_world s)))"
    "decode_delivery (pb_body m) = Some (t_id t, v)" by blast
  with s(1) m show ?thesis by blast
qed

text \<open>C7
  No goroutine of the service ever panics, in any reachable state: no worker dereferences a nil vendor
  configuration, delivery specification or request, and the number of pages of a listing is never divided
  by zero, whatever page size is asked for. The configuration's getters are supposed to return a value or
  an error and not to panic, as those of a loader do after any load.\<close>

theorem no_panic_reached:
  assumes "runs cfg url_ok w0 s"
  shows "Panic msg \<notin> set (sy_threads s)"
  using runs_safe [OF assms] sys.safe_no_panic by blast

theorem no_panic_reached_witness:
  "\<exists>s. runs demo_config (\<lambda>_. True) life_world s \<and> sy_world s = life5 \<and> Panic [] \<notin> set (sy_threads s)"
  using life_reached(3) no_panic_reached [of demo_config "\<lambda>_. True" life_world _ "[]"] by blast

text \<open>C6
  No step of the service loses or alters what it has accepted: a stored notification keeps its identity,
  its caller, key, event and payload, and never returns to \<open>PENDING\<close>; a stored task keeps its identity,
  notification, vendor and event; nothing is taken back from the broker's or the vendors' record.\<close>

theorem history_kept:
  assumes "runs cfg url_ok w0 s" "system_step exec_world environment (starts cfg url_ok) s s'"
    and "st = w_store (sy_world s)" "st' = w_store (sy_world s')"
  shows "(\<forall>n \<in> set (st_notifs st). \<exists>n' \<in> set (st_notifs st'). n_id n' = n_id n \<and> n_caller_id n' = n_caller_id n \<and>
            n_idempotent_key n' = n_idempotent_key n \<and> n_event_type n' = n_event_type n \<and>
            n_payload n' = n_payload n \<and> (n_status n' = ''PENDING'' \<longrightarrow> n_status n = ''PENDING'')) \<and>
         (\<forall>t \<in> set (st_tasks st). \<exists>t' \<in> set (st_tasks st'). t_id t' = t_id t \<and>
            t_notification_id t' = t_notification_id t \<and> t_vendor_id t' = t_vendor_id t \<and>
            t_event_type t' = t_event_type t) \<and>
         set (w_published (sy_world s)) \<subseteq> set (w_published (sy_world s')) \<and>
         set (w_requests (sy_world s)) \<subseteq> set (w_requests (sy_world s'))"
proof -
  have ev: "evolves (sy_world s) (sy_world s')"
    using assms(1,2) fresh_inv unfolding runs_def
    by (blast intro: sys.reachable_step_guar [OF _ environment_inv start_safe])
  note wf = sys_invD(1) [OF runs_inv [OF assms(1)]]
  have "\<exists>n' \<in> set (st_notifs st'). same_notif n n'" if "n \<in> set (st_notifs st)" for n
    using evolvesD(1) [OF ev notif_row_in [OF wf]] that assms(3,4) notif_row_Some by blast
  moreover have "\<exists>t' \<in> set (st_tasks st'). same_task t t'" if "t \<in> set (st_tasks st)" for t
    using evolvesD(2) [OF ev task_row_in [OF wf]] that assms(3,4) task_row_Some by blast
  ultimately show ?thesis
    using evolvesD(3,4) [OF ev] unfolding same_notif_def same_task_def by blast
qed

theorem history_kept_witness:
  "\<exists>s s'. runs demo_config (\<lambda>_. True) life_world s \<and>
     system_step exec_world environment (starts demo_config (\<lambda>_. True)) s s' \<and>
     w_requests (sy_world s) \<noteq> [] \<and> set (w_requests (sy_world s)) \<subseteq> set (w_requests (sy_world s'))"
proof -
  obtain s where s: "runs demo_config (\<lambda>_. True) life_world s" "sy_world s = life5" using life_reached by blast
  have step: "system_step exec_world environment (starts demo_config (\<lambda>_. True)) s
      (s\<lparr>sy_world := (sy_world s)\<lparr>w_store := (w_store (sy_world s))\<lparr>st_faults := [Lost]\<rparr>\<rparr>\<rparr>)"
    by (rule system_step.environment) (rule environment_fault)
  have "w_requests (sy_world s) \<noteq> []" using life_facts s(2) by (auto simp: answers_def)
  with history_kept [OF s(1) step refl refl] step s(1) show ?thesis by blast
qed

end
