(* ===== verification/Worker_Pool.thy ===== *)
theory Worker_Pool
  imports Worker "HOL-Library.Multiset"
begin

text \<open>
  \<open>WorkerPool\<close> of \<open>internal/delivery/worker.go\<close> as a state machine: the goroutines \<open>Start\<close> launches, the
  consumption loop with its \<open>select\<close>, the two wait groups, and \<open>Stop\<close> with its fallback. What happens
  inside \<open>ProcessMessage\<close> is \<open>process_message\<close>; here it only begins and ends, with any result.
\<close>

section \<open>The pool\<close>

text \<open>A worker waits in the \<open>select\<close>, or is at some point of the loop's body with a message.\<close>

datatype phase =
    Waiting
  | Received string
  | Processing string
  | Processed string "go_error option"
  | Exited

text \<open>\<open>Stop\<close>: not called, in its \<open>select\<close>, waiting after the cancellation, or returned.\<close>

datatype stop_phase = Not_Called | Selecting | Draining | Returned "go_error option"

record pool =
  wp_concurrency :: nat
  wp_events :: "string list option"
  wp_events_closed :: bool
  wp_cancel_set :: bool
  wp_ctx_done :: bool
  wp_close_ch :: bool
  wp_wg :: int
  wp_process_wg :: int
  wp_workers :: "phase list"
  wp_settled :: "(string \<times> settlement) list"
  wp_deadline :: bool
  wp_stop :: stop_phase

definition new_worker_pool :: "nat \<Rightarrow> string list option \<Rightarrow> pool" where
  "new_worker_pool n events =
     \<lparr>wp_concurrency = n, wp_events = events, wp_events_closed = False, wp_cancel_set = False, wp_ctx_done = False,
      wp_close_ch = False, wp_wg = 0, wp_process_wg = 0, wp_workers = [], wp_settled = [], wp_deadline = False,
      wp_stop = Not_Called\<rparr>"

definition start_pool :: "pool \<Rightarrow> go_error + pool" where
  "start_pool p =
     (case wp_events p of
        None \<Rightarrow> Inl (Errorf ''DeliveryEvents channel is nil'' [])
      | Some _ \<Rightarrow>
          Inr (p\<lparr>wp_cancel_set := True, wp_wg := wp_wg p + int (wp_concurrency p),
                 wp_workers := wp_workers p @ replicate (wp_concurrency p) Waiting\<rparr>))"

section \<open>Steps\<close>

definition set_phase :: "nat \<Rightarrow> phase \<Rightarrow> pool \<Rightarrow> pool" where
  "set_phase i ph p = p\<lparr>wp_workers := (wp_workers p)[i := ph]\<rparr>"

definition settle :: "string \<Rightarrow> settlement \<Rightarrow> pool \<Rightarrow> pool" where
  "settle m s p = p\<lparr>wp_settled := wp_settled p @ [(m, s)]\<rparr>"

text \<open>A worker leaves its loop; the deferred \<open>wg.Done()\<close> runs.\<close>

definition leave :: "nat \<Rightarrow> pool \<Rightarrow> pool" where
  "leave i p = (set_phase i Exited p)\<lparr>wp_wg := wp_wg p - 1\<rparr>"

definition is_at :: "pool \<Rightarrow> nat \<Rightarrow> phase \<Rightarrow> bool" where
  "is_at p i ph \<longleftrightarrow> i < length (wp_workers p) \<and> wp_workers p ! i = ph"

inductive pool_step :: "pool \<Rightarrow> pool \<Rightarrow> bool" where
  ctx_done: "is_at p i Waiting \<Longrightarrow> wp_ctx_done p \<Longrightarrow> pool_step p (leave i p)"
| close_signal: "is_at p i Waiting \<Longrightarrow> wp_close_ch p \<Longrightarrow> pool_step p (leave i p)"
| channel_closed: "is_at p i Waiting \<Longrightarrow> wp_events p = Some [] \<Longrightarrow> wp_events_closed p \<Longrightarrow> pool_step p (leave i p)"
| receive: "is_at p i Waiting \<Longrightarrow> wp_events p = Some (m # ms) \<Longrightarrow>
    pool_step p ((set_phase i (Received m) p)\<lparr>wp_events := Some ms\<rparr>)"
| malformed: "is_at p i (Received m) \<Longrightarrow> decode_delivery m = None \<Longrightarrow>
    pool_step p (settle m Nack_Discard (set_phase i Waiting p))"
| process: "is_at p i (Received m) \<Longrightarrow> decode_delivery m = Some tv \<Longrightarrow>
    pool_step p ((set_phase i (Processing m) p)\<lparr>wp_process_wg := wp_process_wg p + 1\<rparr>)"
| processed: "is_at p i (Processing m) \<Longrightarrow>
    pool_step p ((set_phase i (Processed m r) p)\<lparr>wp_process_wg := wp_process_wg p - 1\<rparr>)"
| acknowledge: "is_at p i (Processed m r) \<Longrightarrow>
    pool_step p (settle m (case r of Some e \<Rightarrow> Nack_Discard | None \<Rightarrow> Ack) (set_phase i Waiting p))"
| stop_done: "wp_stop p = Selecting \<Longrightarrow> wp_wg p = 0 \<Longrightarrow> wp_process_wg p = 0 \<Longrightarrow>
    pool_step p (p\<lparr>wp_stop := Returned None\<rparr>)"
| stop_deadline: "wp_stop p = Selecting \<Longrightarrow> wp_deadline p \<Longrightarrow>
    pool_step p (p\<lparr>wp_stop := Draining, wp_ctx_done := wp_ctx_done p \<or> wp_cancel_set p\<rparr>)"
| stop_drained: "wp_stop p = Draining \<Longrightarrow> wp_wg p = 0 \<Longrightarrow> wp_process_wg p = 0 \<Longrightarrow>
    pool_step p (p\<lparr>wp_stop := Returned (Some (ErrExternal ''context deadline exceeded''))\<rparr>)"

text \<open>What happens to the pool from outside: messages, the broker, the contexts, the call of \<open>Stop\<close>.\<close>

inductive pool_event :: "pool \<Rightarrow> string list \<Rightarrow> pool \<Rightarrow> bool" where
  arrives: "wp_events p = Some ms \<Longrightarrow> \<not> wp_events_closed p \<Longrightarrow> pool_event p [m] (p\<lparr>wp_events := Some (ms @ [m])\<rparr>)"
| broker_closes: "pool_event p [] (p\<lparr>wp_events_closed := True\<rparr>)"
| parent_cancelled: "pool_event p [] (p\<lparr>wp_ctx_done := True\<rparr>)"
| deadline_passes: "pool_event p [] (p\<lparr>wp_deadline := True\<rparr>)"
| stop_called: "wp_stop p = Not_Called \<Longrightarrow> pool_event p [] (p\<lparr>wp_close_ch := True, wp_stop := Selecting\<rparr>)"

text \<open>The pools reached from a started one, with the messages that have arrived meanwhile.\<close>

inductive pool_reaches :: "pool \<Rightarrow> string list \<Rightarrow> pool \<Rightarrow> bool" for p0 where
  started: "pool_reaches p0 [] p0"
| internal: "pool_reaches p0 ms p \<Longrightarrow> pool_step p p' \<Longrightarrow> pool_reaches p0 ms p'"
| external: "pool_reaches p0 ms p \<Longrightarrow> pool_event p new p' \<Longrightarrow> pool_reaches p0 (ms @ new) p'"

section \<open>The invariant\<close>

fun held :: "phase \<Rightarrow> string list" where
  "held (Received m) = [m]"
| "held (Processing m) = [m]"
| "held (Processed m r) = [m]"
| "held _ = []"

fun is_processing :: "phase \<Rightarrow> bool" where
  "is_processing (Processing m) = True"
| "is_processing _ = False"

definition in_flight :: "pool \<Rightarrow> string list" where
  "in_flight p = concat (map held (wp_workers p))"

definition pool_ok :: "pool \<Rightarrow> bool" where
  "pool_ok p \<longleftrightarrow>
     wp_wg p = int (length (filter (\<lambda>ph. ph \<noteq> Exited) (wp_workers p))) \<and>
     wp_process_wg p = int (length (filter is_processing (wp_workers p))) \<and>
     (case wp_stop p of
        Not_Called \<Rightarrow> True
      | Returned e \<Rightarrow> wp_close_ch p \<and> wp_wg p = 0
      | _ \<Rightarrow> wp_close_ch p)"

lemma count_update:
  assumes "i < length xs"
  shows "int (length (filter P (xs[i := x]))) =
         int (length (filter P xs)) - (if P (xs ! i) then 1 else 0) + (if P x then 1 else 0)"
  using assms
proof (induction xs arbitrary: i)
  case (Cons y ys)
  show ?case
  proof (cases i)
    case (Suc j)
    with Cons.prems Cons.IH [of j] show ?thesis by (simp split: if_splits)
  qed simp
qed simp

lemma mset_concat_update:
  assumes "i < length xs"
  shows "mset (concat (map f (xs[i := x]))) + mset (f (xs ! i)) = mset (concat (map f xs)) + mset (f x)"
  using assms
proof (induction xs arbitrary: i)
  case (Cons y ys)
  then show ?case by (cases i) (auto simp: ac_simps)
qed simp

lemmas phase_defs = set_phase_def settle_def leave_def is_at_def

lemma pool_step_ok: "pool_step p p' \<Longrightarrow> pool_ok p \<Longrightarrow> pool_ok p'"
  by (induction rule: pool_step.induct)
    (auto simp: pool_ok_def phase_defs count_update filter_empty_conv all_set_conv_all_nth split: stop_phase.splits)

lemma pool_event_ok: "pool_event p new p' \<Longrightarrow> pool_ok p \<Longrightarrow> pool_ok p'"
  by (induction rule: pool_event.induct) (auto simp: pool_ok_def split: stop_phase.splits)

text \<open>Every message is queued, held by one worker, or settled once.\<close>

definition balance :: "pool \<Rightarrow> string multiset" where
  "balance p = mset (map fst (wp_settled p)) + mset (in_flight p) +
     mset (case wp_events p of None \<Rightarrow> [] | Some ms \<Rightarrow> ms)"

lemma in_flight_update:
  "is_at p i ph \<Longrightarrow> mset (in_flight (p\<lparr>wp_workers := (wp_workers p)[i := ph']\<rparr>)) + mset (held ph) =
     mset (in_flight p) + mset (held ph')"
  using mset_concat_update [of i "wp_workers p" held ph'] by (simp add: in_flight_def is_at_def)

lemma in_flight_cong: "wp_workers p = wp_workers q \<Longrightarrow> in_flight p = in_flight q"
  by (simp add: in_flight_def)

lemma pool_step_balance: "pool_step p p' \<Longrightarrow> balance p' = balance p"
proof (induction rule: pool_step.induct)
  case (receive p i m ms)
  with in_flight_update [of p i Waiting "Received m"] show ?case
    by (simp add: balance_def phase_defs in_flight_def)
next
  case (malformed p i m)
  with in_flight_update [of p i "Received m" Waiting] show ?case
    by (simp add: balance_def phase_defs in_flight_def)
next
  case (process p i m tv)
  with in_flight_update [of p i "Received m" "Processing m"] show ?case
    by (simp add: balance_def phase_defs in_flight_def)
next
  case (processed p i m r)
  with in_flight_update [of p i "Processing m" "Processed m r"] show ?case
    by (simp add: balance_def phase_defs in_flight_def)
next
  case (acknowledge p i m r)
  with in_flight_update [of p i "Processed m r" Waiting] show ?case
    by (simp add: balance_def phase_defs in_flight_def)
next
  case (ctx_done p i)
  with in_flight_update [of p i Waiting Exited] show ?case by (simp add: balance_def phase_defs in_flight_def)
next
  case (close_signal p i)
  with in_flight_update [of p i Waiting Exited] show ?case by (simp add: balance_def phase_defs in_flight_def)
next
  case (channel_closed p i)
  with in_flight_update [of p i Waiting Exited] show ?case by (simp add: balance_def phase_defs in_flight_def)
qed (simp_all add: balance_def in_flight_def)

lemma pool_event_balance: "pool_event p new p' \<Longrightarrow> balance p' = balance p + mset new"
  by (induction rule: pool_event.induct) (simp_all add: balance_def in_flight_def)

section \<open>Progress\<close>

text \<open>Every step uses up some of this: a message costs four steps, a waiting worker one more.\<close>

fun phase_weight :: "phase \<Rightarrow> nat" where
  "phase_weight Exited = 0"
| "phase_weight Waiting = 1"
| "phase_weight (Processed m r) = 2"
| "phase_weight (Processing m) = 3"
| "phase_weight (Received m) = 4"

fun stop_weight :: "stop_phase \<Rightarrow> nat" where
  "stop_weight Selecting = 2"
| "stop_weight Draining = 1"
| "stop_weight _ = 0"

definition work_left :: "pool \<Rightarrow> nat" where
  "work_left p = sum_list (map phase_weight (wp_workers p)) + stop_weight (wp_stop p) +
     4 * length (case wp_events p of None \<Rightarrow> [] | Some ms \<Rightarrow> ms)"

lemma weight_update:
  assumes "i < length xs"
  shows "sum_list (map phase_weight (xs[i := x])) + phase_weight (xs ! i) = sum_list (map phase_weight xs) + phase_weight x"
  using assms
proof (induction xs arbitrary: i)
  case (Cons y ys)
  then show ?case by (cases i) (auto simp: ac_simps)
qed simp

lemma work_update:
  "is_at p i ph \<Longrightarrow> sum_list (map phase_weight ((wp_workers p)[i := ph'])) + phase_weight ph =
     sum_list (map phase_weight (wp_workers p)) + phase_weight ph'"
  using weight_update [of i "wp_workers p" ph'] by (simp add: is_at_def)

lemma pool_step_decreases: "pool_step p p' \<Longrightarrow> work_left p' < work_left p"
proof (induction rule: pool_step.induct)
  case (receive p i m ms)
  with work_update [of p i Waiting "Received m"] show ?case by (simp add: work_left_def set_phase_def)
next
  case (malformed p i m)
  with work_update [of p i "Received m" Waiting] show ?case by (simp add: work_left_def set_phase_def settle_def)
next
  case (process p i m tv)
  with work_update [of p i "Received m" "Processing m"] show ?case by (simp add: work_left_def set_phase_def)
next
  case (processed p i m r)
  with work_update [of p i "Processing m" "Processed m r"] show ?case by (simp add: work_left_def set_phase_def)
next
  case (acknowledge p i m r)
  with work_update [of p i "Processed m r" Waiting] show ?case by (simp add: work_left_def set_phase_def settle_def)
next
  case (ctx_done p i)
  with work_update [of p i Waiting Exited] show ?case by (simp add: work_left_def set_phase_def leave_def)
next
  case (close_signal p i)
  with work_update [of p i Waiting Exited] show ?case by (simp add: work_left_def set_phase_def leave_def)
next
  case (channel_closed p i)
  with work_update [of p i Waiting Exited] show ?case by (simp add: work_left_def set_phase_def leave_def)
qed (simp_all add: work_left_def)

lemma stopping_step:
  assumes "pool_ok p" "wp_stop p = Selecting \<or> wp_stop p = Draining"
  shows "\<exists>p'. pool_step p p'"
proof (cases "\<exists>i < length (wp_workers p). wp_workers p ! i \<noteq> Exited")
  case True
  then obtain i where i: "i < length (wp_workers p)" "wp_workers p ! i \<noteq> Exited" by blast
  have c: "wp_close_ch p" using assms by (auto simp: pool_ok_def)
  show ?thesis
  proof (cases "wp_workers p ! i")
    case Waiting
    with i c show ?thesis by (blast intro: close_signal [unfolded is_at_def])
  next
    case (Received m)
    with i show ?thesis
      by (cases "decode_delivery m") (blast intro: malformed [unfolded is_at_def] process [unfolded is_at_def])+
  next
    case (Processing m)
    with i show ?thesis by (blast intro: processed [unfolded is_at_def])
  next
    case (Processed m r)
    with i show ?thesis by (blast intro: acknowledge [unfolded is_at_def])
  qed (use i in simp)
next
  case False
  then have e: "\<forall>ph \<in> set (wp_workers p). ph = Exited" by (auto simp: in_set_conv_nth)
  then have "filter (\<lambda>ph. ph \<noteq> Exited) (wp_workers p) = []" "filter is_processing (wp_workers p) = []"
    by (auto simp: filter_empty_conv)
  with assms have "wp_wg p = 0" "wp_process_wg p = 0" by (simp_all add: pool_ok_def)
  with assms(2) show ?thesis by (blast intro: stop_done stop_drained)
qed

text \<open>A pool of one worker, one malformed message waiting: it starts, settles the message, and is stopped.\<close>

definition demo_pool :: "string list \<Rightarrow> phase \<Rightarrow> (string \<times> settlement) list \<Rightarrow> stop_phase \<Rightarrow> pool" where
  "demo_pool events ph settled stop =
     \<lparr>wp_concurrency = 1, wp_events = Some events, wp_events_closed = False, wp_cancel_set = True, wp_ctx_done = False,
      wp_close_ch = (stop \<noteq> Not_Called), wp_wg = (if ph = Exited then 0 else 1), wp_process_wg = 0, wp_workers = [ph],
      wp_settled = settled, wp_deadline = False, wp_stop = stop\<rparr>"

lemma demo_started: "start_pool (new_worker_pool 1 (Some [''x''])) = Inr (demo_pool [''x''] Waiting [] Not_Called)"
  by (simp add: start_pool_def new_worker_pool_def demo_pool_def)

lemma demo_steps:
  "pool_step (demo_pool [''x''] Waiting [] Not_Called) (demo_pool [] (Received ''x'') [] Not_Called)"
  "pool_step (demo_pool [] (Received ''x'') [] Not_Called) (demo_pool [] Waiting [(''x'', Nack_Discard)] Not_Called)"
  "pool_event (demo_pool [] Waiting done Not_Called) [] (demo_pool [] Waiting done Selecting)"
  "pool_step (demo_pool [] Waiting done Selecting) (demo_pool [] Exited done Selecting)"
  "pool_step (demo_pool [] Exited done Selecting) (demo_pool [] Exited done (Returned None))"
proof -
  show "pool_step (demo_pool [''x''] Waiting [] Not_Called) (demo_pool [] (Received ''x'') [] Not_Called)"
    using receive [of "demo_pool [''x''] Waiting [] Not_Called" 0] by (simp add: demo_pool_def phase_defs)
  have "decode_delivery ''x'' = None" by code_simp
  then show "pool_step (demo_pool [] (Received ''x'') [] Not_Called) (demo_pool [] Waiting [(''x'', Nack_Discard)] Not_Called)"
    using malformed [of "demo_pool [] (Received ''x'') [] Not_Called" 0 "''x''"] by (simp add: demo_pool_def phase_defs)
  show "pool_event (demo_pool [] Waiting done Not_Called) [] (demo_pool [] Waiting done Selecting)"
    using stop_called [of "demo_pool [] Waiting done Not_Called"] by (simp add: demo_pool_def)
  show "pool_step (demo_pool [] Waiting done Selecting) (demo_pool [] Exited done Selecting)"
    using close_signal [of "demo_pool [] Waiting done Selecting" 0] by (simp add: demo_pool_def phase_defs)
  show "pool_step (demo_pool [] Exited done Selecting) (demo_pool [] Exited done (Returned None))"
    using stop_done [of "demo_pool [] Exited done Selecting"] by (simp add: demo_pool_def)
qed

lemma demo_reached:
  "pool_reaches (demo_pool [''x''] Waiting [] Not_Called) [] (demo_pool [] Exited [(''x'', Nack_Discard)] (Returned None))"
  "pool_reaches (demo_pool [''x''] Waiting [] Not_Called) [] (demo_pool [] Waiting [(''x'', Nack_Discard)] Selecting)"
proof -
  have "pool_reaches (demo_pool [''x''] Waiting [] Not_Called) [] (demo_pool [] Waiting [(''x'', Nack_Discard)] Not_Called)"
    by (rule internal [OF internal [OF started demo_steps(1)] demo_steps(2)])
  from external [OF this demo_steps(3)]
  show *: "pool_reaches (demo_pool [''x''] Waiting [] Not_Called) [] (demo_pool [] Waiting [(''x'', Nack_Discard)] Selecting)"
    by simp
  show "pool_reaches (demo_pool [''x''] Waiting [] Not_Called) [] (demo_pool [] Exited [(''x'', Nack_Discard)] (Returned None))"
    by (rule internal [OF internal [OF * demo_steps(4)] demo_steps(5)])
qed

section \<open>Properties\<close>

lemma started_ok:
  "start_pool (new_worker_pool n (Some ms)) = Inr p0 \<Longrightarrow> pool_ok p0 \<and> balance p0 = mset ms \<and> wp_settled p0 = []"
  by (auto simp: start_pool_def new_worker_pool_def pool_ok_def balance_def in_flight_def)

lemma reaches_ok: "pool_reaches p0 ms p \<Longrightarrow> pool_ok p0 \<Longrightarrow> pool_ok p \<and> balance p = balance p0 + mset ms"
  by (induction rule: pool_reaches.induct)
    (auto simp: pool_step_ok pool_event_ok pool_step_balance pool_event_balance)

lemma pool_ok_exited: "pool_ok p \<Longrightarrow> wp_stop p = Returned e \<Longrightarrow> ph \<in> set (wp_workers p) \<Longrightarrow> ph = Exited"
  by (auto simp: pool_ok_def filter_empty_conv)

text \<open>C34
  Graceful shutdown: when \<open>Stop\<close> has returned, with or without the deadline passing, every worker has left
  its loop, none is processing, and each message that ever arrived has been settled exactly once or is
  still in the channel; nothing is lost in flight.\<close>

theorem stop_quiescent:
  assumes "start_pool (new_worker_pool n (Some first)) = Inr p0" "pool_reaches p0 ms p" "wp_stop p = Returned e"
  shows "(\<forall>ph \<in> set (wp_workers p). ph = Exited) \<and>
     mset (map fst (wp_settled p)) + mset (case wp_events p of None \<Rightarrow> [] | Some q \<Rightarrow> q) = mset (first @ ms)"
proof -
  note ok = reaches_ok [OF assms(2)] started_ok [OF assms(1)]
  then have bal: "balance p = mset (first @ ms)" by simp
  have ex: "\<forall>ph \<in> set (wp_workers p). ph = Exited" using ok pool_ok_exited [OF _ assms(3)] by blast
  then have "in_flight p = []" by (auto simp: in_flight_def)
  with bal ex show ?thesis by (simp add: balance_def)
qed

lemma stop_quiescent_witness:
  "wp_workers (demo_pool [] Exited [(''x'', Nack_Discard)] (Returned None)) = [Exited] \<and>
   mset (map fst (wp_settled (demo_pool [] Exited [(''x'', Nack_Discard)] (Returned None)))) + mset [] = mset ([''x''] @ [])"
  using stop_quiescent [OF demo_started demo_reached(1), of None] by (simp add: demo_pool_def)

text \<open>C35
  \<open>Stop\<close> terminates: once it has been called, and as long as nothing arrives from outside, the pool can take
  only a bounded number of steps, and where it can take none, \<open>Stop\<close> has returned.\<close>

theorem stop_returns:
  assumes "start_pool (new_worker_pool n (Some first)) = Inr p0" "pool_reaches p0 ms p" "wp_stop p \<noteq> Not_Called"
    and "(pool_step ^^ k) p p'"
  shows "k \<le> work_left p \<and> ((\<forall>q. \<not> pool_step p' q) \<longrightarrow> (\<exists>e. wp_stop p' = Returned e))"
proof -
  have ok: "pool_ok p" using reaches_ok [OF assms(2)] started_ok [OF assms(1)] by blast
  have "k + work_left p' \<le> work_left p \<and> pool_ok p' \<and> wp_stop p' \<noteq> Not_Called"
    using assms(4)
  proof (induction k arbitrary: p')
    case 0
    then show ?case using ok assms(3) by simp
  next
    case (Suc k)
    then obtain q where q: "(pool_step ^^ k) p q" "pool_step q p'" by auto
    have "wp_stop p' \<noteq> Not_Called" if "wp_stop q \<noteq> Not_Called"
      using q(2) that by cases (auto simp: phase_defs)
    with Suc.IH [OF q(1)] pool_step_decreases [OF q(2)] pool_step_ok [OF q(2)] show ?case by simp
  qed
  then show ?thesis using stopping_step [of p'] by (cases "wp_stop p'") auto
qed

lemma stop_returns_witness:
  "2 \<le> work_left (demo_pool [] Waiting [(''x'', Nack_Discard)] Selecting) \<and>
   wp_stop (demo_pool [] Exited [(''x'', Nack_Discard)] (Returned None)) = Returned None"
proof -
  have "(pool_step ^^ 2) (demo_pool [] Waiting [(''x'', Nack_Discard)] Selecting)
      (demo_pool [] Exited [(''x'', Nack_Discard)] (Returned None))"
    using demo_steps(4,5) by (auto simp: numeral_2_eq_2)
  from stop_returns [OF demo_started demo_reached(2) _ this]
  show ?thesis by (simp add: demo_pool_def)
qed

end
