(* ===== verification/Server_Run.thy ===== *)
theory Server_Run
  imports Server_Main System_Run Config_Props
begin

text \<open>
  One run of a booted server, evaluated: the configuration directory of \<open>Config_Props\<close> is loaded, a request
  for its event is served, the trigger consumer dispatches it, and a worker delivers it.
\<close>

section \<open>Booting\<close>

definition demo_platform :: "unit platform" where
  "demo_platform = \<lparr>pf_pool_new = (\<lambda>_. None), pf_amqp = (\<lambda>_ s. (None, s)), pf_yaml = demo_yaml,
     pf_stat = (\<lambda>_. Inr demo_fs), pf_order = rev, pf_consume = (\<lambda>_ _ _ _. Inr [])\<rparr>"

definition demo_options :: options where
  "demo_options = (flag_defaults (\<lambda>_. []))\<lparr>op_config_dir := ''config''\<rparr>"

definition demo_server :: server where
  "demo_server =
     \<lparr>sr_worker = prod_worker (\<lambda>_. True) (loader_provider demo_loaded),
      sr_pool = (new_worker_pool 5 (Some []))\<lparr>wp_cancel_set := True, wp_wg := 5, wp_workers := replicate 5 Waiting\<rparr>,
      sr_dispatcher = prod_dispatcher (loader_provider demo_loaded), sr_triggers = [],
      sr_service = prod_service (loader_provider demo_loaded), sr_addr = '':8080''\<rparr>"

lemma demo_declared: "declare_all (\<lambda>_ s. (None, s)) ops s = (None, s)"
  by (induction ops) auto

lemma demo_booted: "boot demo_platform (\<lambda>_. True) demo_options () = (Booted demo_server, ())"
proof -
  have "start_pool (new_worker_pool 5 (Some [])) =
      Inr ((new_worker_pool 5 (Some []))\<lparr>wp_cancel_set := True, wp_wg := 5, wp_workers := replicate 5 Waiting\<rparr>)"
    by (simp add: start_pool_def new_worker_pool_def)
  then show ?thesis
    by (simp add: boot_def demo_platform_def demo_options_def pg_new_client_def rmq_new_client_def demo_declared
        demo_load boot_consumers_def rmq_consume_def demo_server_def prod_worker_def prod_dispatcher_def
        prod_service_def flag_defaults_def env_or_default_def)
qed

lemma demo_loaded_value [code]:
  "demo_loaded =
    \<lparr>ld_paths = [''config''],
     ld_rules =
       [(''e'', failed [] (Errorf ''routing rule references non-existent vendor %q'' [ArgStr ''ghost''])),
        (''f'', loaded [\<lparr>rl_event_type = ''f'', rl_vendor_id = ''good''\<rparr>])],
     ld_vendors =
       [(''bad'', failed None (Errorf ''parsing YAML: %w'' [ArgErr (ErrExternal ''yaml: line 1'')])),
        (''good'', loaded (Some \<lparr>vc_vendor_id = ''good'', vc_base_url = ''http://good'', vc_auth = None,
           vc_retry = \<lparr>rp_max_attempts = 3, rp_base_delay_ms = 2000, rp_max_delay_ms = 60000, rp_multiplier = Fin 2,
             rp_jitter = Fin 0\<rparr>,
           vc_judgment = \<lparr>rj_success_rules = [], rj_retryable_rules = []\<rparr>\<rparr>))],
     ld_contracts =
       [(''good/e'', failed None
           (Errorf ''contract references field %q not declared in schema for %q'' [ArgStr ''e'', ArgStr ''e''])),
        (''good/f'', loaded (Some \<lparr>ds_mapping = \<lparr>mc_event_type = ''f'',
             mc_request = \<lparr>rq_method = ''POST'', rq_path = ''/x'', rq_headers = []\<rparr>,
             mc_body = \<lparr>bc_type = ''mapping'', bc_template = Some [(''id'', VStr (at_ref ''{payload:f}''))]\<rparr>\<rparr>,
           ds_judgment = None, ds_retry = None\<rparr>))],
     ld_schemas =
       [(''e'', loaded (Some (1, [(''properties'', VMap [(''f'', VMap [])])]))),
        (''f'', loaded (Some (2, [(''properties'', VMap [(''f'', VMap [])])])))],
     ld_next = 3\<rparr>"
  by code_simp

section \<open>Running\<close>

definition served_world :: world where
  "served_world = life_world\<lparr>w_vendors := [Inr (200, ''OK'')]\<rparr>"

definition served_request :: request where
  "served_request = \<lparr>rs_body = ''{\"event\":\"f\",\"idempotent_key\":\"k\",\"payload\":{\"f\":\"7\"}}'',
     rs_id = [], rs_caller = [], rs_event = [], rs_page = [], rs_size = []\<rparr>"

definition served_ingest :: "unit prog" where
  "served_ingest = goroutine (fst (serve demo_server
     \<lparr>ae_time_text = (\<lambda>_. []), ae_error_text = (\<lambda>_. []), ae_message_text = (\<lambda>_ _. [])\<rparr> [] []
     Create_Notification served_request))"

definition served_dispatch :: "unit prog" where
  "served_dispatch = goroutine (trigger_loop (sr_dispatcher demo_server) [Trigger ''a'', Channel_Closed])"

definition served_message :: string where
  "served_message = pb_body (delivery_message ''good'' ''aa'')"

definition served_deliver :: "unit prog" where
  "served_deliver = goroutine (handle_delivery (sr_worker demo_server) served_message)"

definition served1 :: world where "served1 = after served_ingest served_world"
definition served2 :: world where "served2 = after served_dispatch served1"
definition served3 :: world where "served3 = after served_deliver served2"

lemma served_evaluated:
  "(case run exec_world served_ingest served_world of (r1, w1) \<Rightarrow>
    case run exec_world served_dispatch w1 of (r2, w2) \<Rightarrow>
    case run exec_world served_deliver w2 of (r3, w3) \<Rightarrow>
      ([r1, r2, r3], (bodies w1, bodies w2), statuses w3, answers w3)) =
   ([Inr (), Inr (), Inr ()],
    ([(trigger_exchange, ''a'')], [(trigger_exchange, ''a''), (delivery_exchange, served_message)]),
    ([(''SUCCEEDED'', 0)], [''SUCCEEDED'']), [Inr 200])"
  by code_simp

lemmas served_facts = served_evaluated [unfolded case_prod_beta, folded after_def,
  folded served1_def, folded served2_def, folded served3_def, unfolded prod.inject list.inject]

lemma server_runs_after:
  assumes "server_runs srv w0 s" "server_starts srv (sy_world s) p" "fst (run exec_world p (sy_world s)) = Inr ()"
  shows "\<exists>s'. server_runs srv w0 s' \<and> sy_world s' = after p (sy_world s)"
proof -
  have "run exec_world p (sy_world s) = (Inr (), after p (sy_world s))"
    using assms(3) by (simp add: after_def prod_eq_iff)
  with reachable_run [of exec_world environment "server_starts srv" w0 s p] assms(1,2) show ?thesis
    by (auto simp: server_runs_def)
qed

lemma served_reached: "\<exists>s. server_runs demo_server served_world s \<and> sy_world s = served3"
proof -
  let ?R = "server_runs demo_server served_world"
  have s0: "?R \<lparr>sy_world = served_world, sy_threads = []\<rparr>"
    using life_fresh by (simp add: server_runs_def reachable.initial served_world_def fresh_world_def ids_ok_def)
  have "server_starts demo_server served_world served_ingest"
    unfolding served_ingest_def by (rule server_starts.http_request)
  with server_runs_after [OF s0] served_facts obtain s1 where s1: "?R s1" "sy_world s1 = served1"
    by (auto simp: served1_def)
  have "server_starts demo_server (sy_world s1) served_dispatch"
    unfolding served_dispatch_def
    by (rule server_starts.trigger_consumer) (use bodies_in [of trigger_exchange "''a''" served1] served_facts s1 in auto)
  from server_runs_after [OF s1(1) this] served_facts obtain s2 where s2: "?R s2" "sy_world s2 = served2"
    by (auto simp: served2_def s1(2))
  obtain k m where "(delivery_exchange, k, m) \<in> set (w_published served2)" "pb_body m = served_message"
    using bodies_in [of delivery_exchange served_message served2] served_facts by auto
  with server_starts.worker_iteration [of delivery_exchange k m served2 demo_server]
  have "server_starts demo_server (sy_world s2) served_deliver" by (simp add: served_deliver_def s2(2))
  from server_runs_after [OF s2(1) this] served_facts obtain s3 where "?R s3" "sy_world s3 = served3"
    by (auto simp: served3_def s2(2))
  then show ?thesis by blast
qed

lemma demo_server_ascii: "ascii_vendors (dd_config (sr_dispatcher demo_server))"
  by (auto simp: ascii_vendors_def demo_server_def prod_dispatcher_def loader_provider_def get_routing_rules_def
      demo_loaded_value gm_get_def loaded_def failed_def ascii_def split: if_splits)

end
