(* ===== verification/Server_Props.thy ===== *)
theory Server_Props
  imports Server_Run
begin

text \<open>
  Properties of the server as \<open>main.go\<close> assembles it, and of connecting to the broker.
\<close>

section \<open>A booted server\<close>

lemma result_of_Inr: "result_of r = Inr v \<Longrightarrow> r = (v, None)"
  by (cases r) (auto simp: result_of_def split: option.splits)

lemma loader_provider_vendor: "cp_vendor_config (loader_provider l) v = Inr vc \<Longrightarrow> get_vendor_config l v = (vc, None)"
  by (simp add: loader_provider_def result_of_Inr)

lemma loader_provider_spec:
  "cp_delivery_spec (loader_provider l) v ev = Ret (Inr spec) \<Longrightarrow> get_delivery_spec l v ev = Ret (spec, None)"
  by (cases "get_delivery_spec l v ev") (auto simp: loader_provider_def dest: result_of_Inr)

lemma delivered_by_loader:
  assumes "delivered (loader_provider l) url_ok w t"
  shows "\<exists>n vc spec req code status. n \<in> set (st_notifs (w_store w)) \<and> n_id n = t_notification_id t \<and>
     get_vendor_config l (t_vendor_id t) = (Some vc, None) \<and>
     get_delivery_spec l (t_vendor_id t) (t_event_type t) = Ret (Some spec, None) \<and>
     build_request url_ok (Some vc) (Some (ds_mapping spec)) (n_payload n) = Inr (Some req) \<and>
     (req, Inr (code, status)) \<in> set (w_requests w) \<and> 200 \<le> code \<and> code < 300"
  using assms unfolding delivered_def request_for_def is_http_success_def
  by (blast dest: notif_row_Some loader_provider_vendor loader_provider_spec)

text \<open>C9
  The composition: when \<open>main\<close> has started the server, its configuration was loaded without error; and in
  every state its goroutines reach (requests, trigger consumer, workers, interleaved, with any faults), no
  goroutine has panicked, neither on a nil configuration, delivery specification or request nor in a
  division, and every task marked \<open>SUCCEEDED\<close> belongs to a stored notification whose request, built from
  the loaded vendor file and contract, the vendor has answered 2xx. That the getters give no nil value is
  part of the proof. The vendor identifiers of the routing rules are supposed to be ASCII text.\<close>

theorem booted_server_sound:
  assumes "boot pf url_ok opts s0 = (Booted srv, s1)" "ascii_vendors (dd_config (sr_dispatcher srv))"
    and "server_runs srv w0 s"
  shows "\<exists>l. load_config (pf_yaml pf) (pf_stat pf) (pf_order pf) (new_loader [op_config_dir opts]) = Ret (None, l) \<and>
     (\<forall>m. Panic m \<notin> set (sy_threads s)) \<and>
     (\<forall>t. t \<in> set (st_tasks (w_store (sy_world s))) \<and> t_status t = ''SUCCEEDED'' \<longrightarrow>
        (\<exists>n vc spec req code status. n \<in> set (st_notifs (w_store (sy_world s))) \<and> n_id n = t_notification_id t \<and>
           get_vendor_config l (t_vendor_id t) = (Some vc, None) \<and>
           get_delivery_spec l (t_vendor_id t) (t_event_type t) = Ret (Some spec, None) \<and>
           build_request url_ok (Some vc) (Some (ds_mapping spec)) (n_payload n) = Inr (Some req) \<and>
           (req, Inr (code, status)) \<in> set (w_requests (sy_world s)) \<and> 200 \<le> code \<and> code < 300))"
proof -
  from boot_wired [OF assms(1)] obtain l where
    l: "load_config (pf_yaml pf) (pf_stat pf) (pf_order pf) (new_loader [op_config_dir opts]) = Ret (None, l)"
    "wired url_ok (loader_provider l) srv" "config_total (loader_provider l)" by blast
  have a: "ascii_vendors (loader_provider l)" using assms(2) l(2) by (simp add: wired_def prod_dispatcher_def)
  note safe = server_runs_safe [OF l(2) a l(3) assms(3)]
  have "Panic m \<notin> set (sy_threads s)" for m using safe sys.safe_no_panic by blast
  moreover have "delivered (loader_provider l) url_ok (sy_world s) t"
    if "t \<in> set (st_tasks (w_store (sy_world s)))" "t_status t = ''SUCCEEDED''" for t
    using safe that by (auto simp: task_ok_def dest: sys_invD(5))
  ultimately show ?thesis using l(1) by (intro exI [of _ l] conjI allI impI delivered_by_loader) simp_all
qed

theorem booted_server_sound_witness:
  "\<exists>s t vc req code status. server_runs demo_server served_world s \<and>
     t \<in> set (st_tasks (w_store (sy_world s))) \<and> t_status t = ''SUCCEEDED'' \<and>
     get_vendor_config demo_loaded (t_vendor_id t) = (Some vc, None) \<and>
     (req, Inr (code, status)) \<in> set (w_requests (sy_world s)) \<and> 200 \<le> code \<and> code < 300"
proof -
  obtain s where s: "server_runs demo_server served_world s" "sy_world s = served3" using served_reached by blast
  obtain t where t: "t \<in> set (st_tasks (w_store served3))" "t_status t = ''SUCCEEDED''"
    using served_facts by (auto simp: statuses_def)
  obtain l where l: "load_config demo_yaml (\<lambda>_. Inr demo_fs) rev (new_loader [''config'']) = Ret (None, l)"
    "\<exists>n vc spec req code status. n \<in> set (st_notifs (w_store served3)) \<and> n_id n = t_notification_id t \<and>
       get_vendor_config l (t_vendor_id t) = (Some vc, None) \<and>
       get_delivery_spec l (t_vendor_id t) (t_event_type t) = Ret (Some spec, None) \<and>
       build_request (\<lambda>_. True) (Some vc) (Some (ds_mapping spec)) (n_payload n) = Inr (Some req) \<and>
       (req, Inr (code, status)) \<in> set (w_requests served3) \<and> 200 \<le> code \<and> code < 300"
    using booted_server_sound [OF demo_booted demo_server_ascii s(1)] t s(2)
    by (auto simp: demo_platform_def demo_options_def)
  with demo_load have "l = demo_loaded" by simp
  with l(2) obtain vc req code status where "get_vendor_config demo_loaded (t_vendor_id t) = (Some vc, None)"
    "(req, Inr (code, status)) \<in> set (w_requests served3)" "200 \<le> code \<and> code < 300" by blast
  with s t show ?thesis by metis
qed

section \<open>Connecting to the broker\<close>

text \<open>A broker that records the calls and lets the ones chosen fail.\<close>

definition recording :: "(amqp_op \<Rightarrow> go_error option) \<Rightarrow> amqp_op list amqp" where
  "recording fails op trace = (fails op, trace @ [op])"

lemma declare_all_recording:
  "declare_all (recording fails) ops trace =
     (case find (\<lambda>(op, fmt). fails op \<noteq> None) ops of
        None \<Rightarrow> (None, trace @ map fst ops)
      | Some (op, fmt) \<Rightarrow>
          (Some (Errorf fmt [ArgErr (the (fails op))]),
           trace @ takeWhile (\<lambda>op. fails op = None) (map fst ops) @ [op, Close_Channel, Close_Connection]))"
proof (induction ops arbitrary: trace)
  case (Cons d ops)
  obtain op fmt where d: "d = (op, fmt)" by (cases d)
  show ?case using Cons.IH [of "trace @ [op]"]
    by (auto simp: d recording_def Let_def split: option.splits prod.splits)
qed simp

text \<open>C33
  No half-open broker connection: when connecting fails after the connection was opened, the last call is
  the one that closes it, preceded by the closing of the channel when a channel was open; the error names
  the declaration that failed. When connecting succeeds, all nine declarations were made in order and
  nothing was closed.\<close>

theorem connect_cleanup:
  assumes "rmq_new_client (recording fails) url [] = (result, calls)"
  shows "case result of
      Inr mq \<Rightarrow> calls = [Dial url, Open_Channel] @ map fst declarations \<and> list_all (\<lambda>op. fails op = None) calls
    | Inl e \<Rightarrow>
        (\<exists>x. fails (Dial url) = Some x \<and> e = Errorf ''amqp dial: %w'' [ArgErr x] \<and> calls = [Dial url]) \<or>
        (\<exists>x. fails Open_Channel = Some x \<and> e = Errorf ''amqp channel: %w'' [ArgErr x] \<and>
           calls = [Dial url, Open_Channel, Close_Connection]) \<or>
        (\<exists>op fmt x done. (op, fmt) \<in> set declarations \<and> fails op = Some x \<and> e = Errorf fmt [ArgErr x] \<and>
           calls = [Dial url, Open_Channel] @ done @ [op, Close_Channel, Close_Connection])"
proof (cases "fails (Dial url) = None \<and> fails Open_Channel = None")
  case True
  then have new: "rmq_new_client (recording fails) url [] =
      (case declare_all (recording fails) declarations [Dial url, Open_Channel] of
         (Some e, s3) \<Rightarrow> (Inl e, s3) | (None, s3) \<Rightarrow> (Inr rmq_client, s3))"
    by (simp add: rmq_new_client_def recording_def)
  show ?thesis
  proof (cases "find (\<lambda>(op, fmt). fails op \<noteq> None) declarations")
    case None
    then have "list_all (\<lambda>op. fails op = None) (map fst declarations)"
      by (fastforce simp: find_None_iff list_all_iff)
    with None assms new True show ?thesis by (auto simp: declare_all_recording)
  next
    case (Some d)
    then have "d \<in> set declarations" "case d of (op, fmt) \<Rightarrow> fails op \<noteq> None"
      by (auto simp: find_Some_iff in_set_conv_nth)
    moreover obtain op fmt where "d = (op, fmt)" by (cases d)
    ultimately obtain x where d: "d = (op, fmt)" "(op, fmt) \<in> set declarations" "fails op = Some x" by fastforce
    with Some assms new show ?thesis by (auto simp: declare_all_recording)
  qed
next
  case False
  with assms show ?thesis by (auto simp: rmq_new_client_def recording_def split: option.splits)
qed

theorem connect_cleanup_witness:
  "rmq_new_client (recording (\<lambda>op. if op = Queue_Bind retry_queue ''#'' dlx_exchange then Some (ErrExternal ''closed'') else None))
     ''amqp://mq'' [] =
   (Inl (Errorf ''bind retry queue: %w'' [ArgErr (ErrExternal ''closed'')]),
    [Dial ''amqp://mq'', Open_Channel] @ map fst declarations @ [Close_Channel, Close_Connection]) \<and>
   fst (rmq_new_client (recording (\<lambda>op. Some (ErrExternal ''refused''))) ''amqp://mq'' []) =
     Inl (Errorf ''amqp dial: %w'' [ArgErr (ErrExternal ''refused'')])"
proof -
  let ?f = "\<lambda>op. if op = Queue_Bind retry_queue ''#'' dlx_exchange then Some (ErrExternal ''closed'') else None"
  obtain r c where rc: "rmq_new_client (recording (\<lambda>op. Some (ErrExternal ''refused''))) ''amqp://mq'' [] = (r, c)"
    by (cases "rmq_new_client (recording (\<lambda>op. Some (ErrExternal ''refused''))) ''amqp://mq'' []")
  have "rmq_new_client (recording ?f) ''amqp://mq'' [] =
     (Inl (Errorf ''bind retry queue: %w'' [ArgErr (ErrExternal ''closed'')]),
      [Dial ''amqp://mq'', Open_Channel] @ map fst declarations @ [Close_Channel, Close_Connection])"
    by (simp add: rmq_new_client_def recording_def declarations_def Let_def)
  moreover have "r = Inl (Errorf ''amqp dial: %w'' [ArgErr (ErrExternal ''refused'')])"
    using connect_cleanup [OF rc] rc by (simp add: rmq_new_client_def recording_def)
  ultimately show ?thesis using rc by simp
qed

end
