(* ===== verification/Server_Shutdown.thy ===== *)
theory Server_Shutdown
  imports Server_Run
begin

text \<open>
  The end of \<open>main.go\<close> as a state machine: the signal, the stopping of the worker pool, the cancellation of
  the trigger consumer, the shutdown of the HTTP server, and the deferred closing of the broker and database
  clients, beside the pool, the trigger consumer and the requests in progress.
\<close>

section \<open>States\<close>

datatype main_phase =
    Serving | Stopping_Pool | Pool_Stopped | Cancelled | Http_Closing | Http_Closed | Broker_Closed | Returned_Main

datatype consumer_phase = Consumer_Idle | Dispatching string | Consumer_Gone

record process =
  ps_main :: main_phase
  ps_pool :: pool
  ps_consumer :: consumer_phase
  ps_triggers :: "string list"
  ps_triggers_closed :: bool
  ps_worker_ctx_done :: bool
  ps_listening :: bool
  ps_requests :: nat
  ps_broker_open :: bool
  ps_database_open :: bool

definition serving :: "server \<Rightarrow> process" where
  "serving srv =
     \<lparr>ps_main = Serving, ps_pool = sr_pool srv, ps_consumer = Consumer_Idle, ps_triggers = sr_triggers srv,
      ps_triggers_closed = False, ps_worker_ctx_done = False, ps_listening = True, ps_requests = 0,
      ps_broker_open = True, ps_database_open = True\<rparr>"

section \<open>Steps\<close>

text \<open>
  \<open>main\<close>'s own steps, in its order. \<open>workerCtx\<close> is the parent of the pool's context, so \<open>workerCancel\<close> ends
  both; closing the broker client closes the channels of both consumers. The results of \<open>Stop\<close> and
  \<open>Shutdown\<close> are dropped.
\<close>

inductive main_step :: "process \<Rightarrow> process \<Rightarrow> bool" where
  signal: "ps_main p = Serving \<Longrightarrow> wp_stop (ps_pool p) = Not_Called \<Longrightarrow>
    main_step p (p\<lparr>ps_main := Stopping_Pool, ps_pool := (ps_pool p)\<lparr>wp_close_ch := True, wp_stop := Selecting\<rparr>\<rparr>)"
| pool_returned: "ps_main p = Stopping_Pool \<Longrightarrow> wp_stop (ps_pool p) = Returned e \<Longrightarrow>
    main_step p (p\<lparr>ps_main := Pool_Stopped\<rparr>)"
| worker_cancel: "ps_main p = Pool_Stopped \<Longrightarrow>
    main_step p (p\<lparr>ps_main := Cancelled, ps_worker_ctx_done := True, ps_pool := (ps_pool p)\<lparr>wp_ctx_done := True\<rparr>\<rparr>)"
| http_shutdown: "ps_main p = Cancelled \<Longrightarrow> main_step p (p\<lparr>ps_main := Http_Closing, ps_listening := False\<rparr>)"
| http_returned: "ps_main p = Http_Closing \<Longrightarrow> ps_requests p = 0 \<or> wp_deadline (ps_pool p) \<Longrightarrow>
    main_step p (p\<lparr>ps_main := Http_Closed\<rparr>)"
| close_broker: "ps_main p = Http_Closed \<Longrightarrow>
    main_step p (p\<lparr>ps_main := Broker_Closed, ps_broker_open := False, ps_triggers_closed := True,
      ps_pool := (ps_pool p)\<lparr>wp_events_closed := True\<rparr>\<rparr>)"
| close_database: "ps_main p = Broker_Closed \<Longrightarrow>
    main_step p (p\<lparr>ps_main := Returned_Main, ps_database_open := False\<rparr>)"

text \<open>The other goroutines, and what arrives from outside; all end when \<open>main\<close> returns.\<close>

inductive process_step :: "process \<Rightarrow> process \<Rightarrow> bool" where
  main: "main_step p p' \<Longrightarrow> process_step p p'"
| pool: "ps_main p \<noteq> Returned_Main \<Longrightarrow> pool_step (ps_pool p) q \<Longrightarrow> process_step p (p\<lparr>ps_pool := q\<rparr>)"
| delivery_arrives: "ps_main p \<noteq> Returned_Main \<Longrightarrow> wp_events (ps_pool p) = Some ms \<Longrightarrow> \<not> wp_events_closed (ps_pool p) \<Longrightarrow>
    process_step p (p\<lparr>ps_pool := (ps_pool p)\<lparr>wp_events := Some (ms @ [m])\<rparr>\<rparr>)"
| stop_deadline: "ps_main p \<noteq> Returned_Main \<Longrightarrow> ps_main p \<noteq> Serving \<Longrightarrow>
    process_step p (p\<lparr>ps_pool := (ps_pool p)\<lparr>wp_deadline := True\<rparr>\<rparr>)"
| broker_lost: "ps_main p \<noteq> Returned_Main \<Longrightarrow>
    process_step p (p\<lparr>ps_triggers_closed := True, ps_pool := (ps_pool p)\<lparr>wp_events_closed := True\<rparr>\<rparr>)"
| trigger_arrives: "ps_main p \<noteq> Returned_Main \<Longrightarrow> \<not> ps_triggers_closed p \<Longrightarrow>
    process_step p (p\<lparr>ps_triggers := ps_triggers p @ [m]\<rparr>)"
| consumer_takes: "ps_main p \<noteq> Returned_Main \<Longrightarrow> ps_consumer p = Consumer_Idle \<Longrightarrow> ps_triggers p = m # ms \<Longrightarrow>
    process_step p (p\<lparr>ps_consumer := Dispatching m, ps_triggers := ms\<rparr>)"
| consumer_dispatched: "ps_main p \<noteq> Returned_Main \<Longrightarrow> ps_consumer p = Dispatching m \<Longrightarrow>
    process_step p (p\<lparr>ps_consumer := Consumer_Idle\<rparr>)"
| consumer_cancelled: "ps_main p \<noteq> Returned_Main \<Longrightarrow> ps_consumer p = Consumer_Idle \<Longrightarrow> ps_worker_ctx_done p \<Longrightarrow>
    process_step p (p\<lparr>ps_consumer := Consumer_Gone\<rparr>)"
| consumer_closed: "ps_main p \<noteq> Returned_Main \<Longrightarrow> ps_consumer p = Consumer_Idle \<Longrightarrow> ps_triggers p = [] \<Longrightarrow>
    ps_triggers_closed p \<Longrightarrow> process_step p (p\<lparr>ps_consumer := Consumer_Gone\<rparr>)"
| request_accepted: "ps_main p \<noteq> Returned_Main \<Longrightarrow> ps_listening p \<Longrightarrow>
    process_step p (p\<lparr>ps_requests := Suc (ps_requests p)\<rparr>)"
| request_answered: "ps_main p \<noteq> Returned_Main \<Longrightarrow> ps_requests p = Suc k \<Longrightarrow> process_step p (p\<lparr>ps_requests := k\<rparr>)"

definition process_reaches :: "server \<Rightarrow> process \<Rightarrow> bool" where
  "process_reaches srv p \<longleftrightarrow> process_step\<^sup>*\<^sup>* (serving srv) p"

section \<open>The invariant\<close>

fun progress :: "main_phase \<Rightarrow> nat" where
  "progress Serving = 0"
| "progress Stopping_Pool = 1"
| "progress Pool_Stopped = 2"
| "progress Cancelled = 3"
| "progress Http_Closing = 4"
| "progress Http_Closed = 5"
| "progress Broker_Closed = 6"
| "progress Returned_Main = 7"

definition process_ok :: "process \<Rightarrow> bool" where
  "process_ok p \<longleftrightarrow>
     pool_ok (ps_pool p) \<and>
     (wp_stop (ps_pool p) = Not_Called \<longleftrightarrow> ps_main p = Serving) \<and>
     (2 \<le> progress (ps_main p) \<longrightarrow> (\<exists>e. wp_stop (ps_pool p) = Returned e)) \<and>
     (ps_worker_ctx_done p \<longleftrightarrow> 3 \<le> progress (ps_main p)) \<and>
     (ps_listening p \<longleftrightarrow> progress (ps_main p) < 4) \<and>
     (ps_broker_open p \<longleftrightarrow> progress (ps_main p) < 6) \<and>
     (ps_database_open p \<longleftrightarrow> progress (ps_main p) < 7)"

lemma pool_ok_updates [simp]:
  "pool_ok (q\<lparr>wp_ctx_done := b\<rparr>) = pool_ok q"
  "pool_ok (q\<lparr>wp_events_closed := b\<rparr>) = pool_ok q"
  "pool_ok (q\<lparr>wp_deadline := b\<rparr>) = pool_ok q"
  "pool_ok (q\<lparr>wp_events := es\<rparr>) = pool_ok q"
  by (simp_all add: pool_ok_def split: stop_phase.split)

lemma pool_ok_stop: "pool_ok q \<Longrightarrow> pool_ok (q\<lparr>wp_close_ch := True, wp_stop := Selecting\<rparr>)"
  by (simp add: pool_ok_def)

lemma pool_step_stop:
  "pool_step q q' \<Longrightarrow> (wp_stop q' = Not_Called) = (wp_stop q = Not_Called) \<and>
     (\<forall>e. wp_stop q = Returned e \<longrightarrow> wp_stop q' = Returned e)"
  by (induction rule: pool_step.induct) (auto simp: phase_defs)

lemma main_step_ok: "main_step p p' \<Longrightarrow> process_ok p \<Longrightarrow> process_ok p'"
  by (induction rule: main_step.induct) (auto simp: process_ok_def pool_ok_stop)

lemma process_step_ok: "process_step p p' \<Longrightarrow> process_ok p \<Longrightarrow> process_ok p'"
proof (induction rule: process_step.induct)
  case (main p p')
  then show ?case by (simp add: main_step_ok)
next
  case (pool p q)
  with pool_step_ok pool_step_stop [of "ps_pool p" q] show ?case by (auto simp: process_ok_def)
qed (auto simp: process_ok_def)

lemma booted_pool:
  "boot pf url_ok opts s = (Booted srv, s') \<Longrightarrow> pool_ok (sr_pool srv) \<and> wp_stop (sr_pool srv) = Not_Called"
  by (auto simp: boot_def boot_consumers_def fatal_def start_pool_def new_worker_pool_def pool_ok_def
      split: sum.splits prod.splits prog.splits option.splits)

lemma reached_ok:
  assumes "boot pf url_ok opts s = (Booted srv, s')" "process_reaches srv p"
  shows "process_ok p"
proof -
  have "process_ok (serving srv)" using booted_pool [OF assms(1)] by (simp add: process_ok_def serving_def)
  with assms(2) show ?thesis
    unfolding process_reaches_def by (induction rule: rtranclp_induct) (auto intro: process_step_ok)
qed

section \<open>The pool can always finish\<close>

lemma pool_can_stop:
  "pool_ok q \<Longrightarrow> wp_stop q \<noteq> Not_Called \<Longrightarrow> \<exists>q' e. pool_step\<^sup>*\<^sup>* q q' \<and> wp_stop q' = Returned e"
proof (induction "work_left q" arbitrary: q rule: less_induct)
  case less
  show ?case
  proof (cases "wp_stop q = Selecting \<or> wp_stop q = Draining")
    case True
    from stopping_step [OF less.prems(1) True] obtain r where r: "pool_step q r" by blast
    with less.hyps [OF pool_step_decreases [OF r]] pool_step_ok pool_step_stop [OF r] less.prems
    obtain q' e where "pool_step\<^sup>*\<^sup>* r q'" "wp_stop q' = Returned e" by blast
    with r show ?thesis by (meson converse_rtranclp_into_rtranclp)
  next
    case False
    with less.prems show ?thesis by (cases "wp_stop q") auto
  qed
qed

lemma pool_steps:
  assumes "pool_step\<^sup>*\<^sup>* (ps_pool p) q" "ps_main p \<noteq> Returned_Main"
  shows "process_step\<^sup>*\<^sup>* p (p\<lparr>ps_pool := q\<rparr>)"
  using assms(1)
proof (induction rule: rtranclp_induct)
  case base
  have "p\<lparr>ps_pool := ps_pool p\<rparr> = p" by simp
  then show ?case by (simp only: rtranclp.rtrancl_refl)
next
  case (step r r')
  have "process_step (p\<lparr>ps_pool := r\<rparr>) ((p\<lparr>ps_pool := r\<rparr>)\<lparr>ps_pool := r'\<rparr>)"
    using step assms(2) by (intro process_step.pool) simp_all
  with step show ?case by (simp add: rtranclp.rtrancl_into_rtrancl)
qed

text \<open>\<open>main\<close> can return from here while the trigger consumer stays where it is.\<close>

definition can_end :: "process \<Rightarrow> bool" where
  "can_end p \<longleftrightarrow> (\<exists>p'. process_step\<^sup>*\<^sup>* p p' \<and> ps_main p' = Returned_Main \<and> ps_consumer p' = ps_consumer p)"

lemma can_end_step: "process_step\<^sup>*\<^sup>* p q \<Longrightarrow> ps_consumer q = ps_consumer p \<Longrightarrow> can_end q \<Longrightarrow> can_end p"
  unfolding can_end_def by (metis rtranclp_trans)

lemma can_end_main: "main_step p q \<Longrightarrow> ps_consumer q = ps_consumer p \<Longrightarrow> can_end q \<Longrightarrow> can_end p"
  by (rule can_end_step) (auto intro: process_step.main)

lemma can_end_deferred:
  "ps_main p = Returned_Main \<Longrightarrow> can_end p"
  "ps_main p = Broker_Closed \<Longrightarrow> can_end p"
  "ps_main p = Http_Closed \<Longrightarrow> can_end p"
proof -
  show r: "ps_main p = Returned_Main \<Longrightarrow> can_end p" for p unfolding can_end_def by blast
  show b: "ps_main p = Broker_Closed \<Longrightarrow> can_end p" for p
    by (rule can_end_main [OF close_database]) (simp_all add: r)
  show "ps_main p = Http_Closed \<Longrightarrow> can_end p"
    by (rule can_end_main [OF close_broker]) (simp_all add: b)
qed

lemma can_end_http:
  "ps_main p = Http_Closing \<Longrightarrow> can_end p"
  "ps_main p = Cancelled \<Longrightarrow> can_end p"
  "ps_main p = Pool_Stopped \<Longrightarrow> can_end p"
proof -
  show h: "can_end p" if "ps_main p = Http_Closing" for p
  proof -
    let ?q = "p\<lparr>ps_pool := (ps_pool p)\<lparr>wp_deadline := True\<rparr>\<rparr>"
    have "process_step\<^sup>*\<^sup>* p ?q" using that by (intro r_into_rtranclp process_step.stop_deadline) simp_all
    moreover have "can_end ?q" by (rule can_end_main [OF http_returned]) (simp_all add: that can_end_deferred)
    ultimately show ?thesis by (auto intro: can_end_step)
  qed
  show c: "ps_main p = Cancelled \<Longrightarrow> can_end p" for p
    by (rule can_end_main [OF http_shutdown]) (simp_all add: h)
  show "ps_main p = Pool_Stopped \<Longrightarrow> can_end p"
    by (rule can_end_main [OF worker_cancel]) (simp_all add: c)
qed

lemma can_end_stopping:
  assumes "ps_main p = Stopping_Pool" "pool_ok (ps_pool p)" "wp_stop (ps_pool p) \<noteq> Not_Called"
  shows "can_end p"
proof -
  from pool_can_stop [OF assms(2,3)] obtain q e where q: "pool_step\<^sup>*\<^sup>* (ps_pool p) q" "wp_stop q = Returned e" by blast
  have "process_step\<^sup>*\<^sup>* p (p\<lparr>ps_pool := q\<rparr>)" using pool_steps [OF q(1)] assms(1) by simp
  moreover have "can_end (p\<lparr>ps_pool := q\<rparr>)"
    by (rule can_end_main [OF pool_returned]) (simp_all add: assms(1) q(2) can_end_http)
  ultimately show ?thesis by (auto intro: can_end_step)
qed

lemma always_can_end:
  assumes "process_ok p"
  shows "can_end p"
proof (cases "ps_main p")
  case Serving
  let ?q = "p\<lparr>ps_main := Stopping_Pool, ps_pool := (ps_pool p)\<lparr>wp_close_ch := True, wp_stop := Selecting\<rparr>\<rparr>"
  have "can_end ?q" using assms pool_ok_stop by (intro can_end_stopping) (simp_all add: process_ok_def)
  moreover have "main_step p ?q" using Serving assms by (intro signal) (simp_all add: process_ok_def)
  ultimately show ?thesis by (rule can_end_main [rotated 2]) simp
next
  case Stopping_Pool
  with assms show ?thesis by (auto intro: can_end_stopping simp: process_ok_def)
qed (simp_all add: can_end_deferred can_end_http)

section \<open>Properties\<close>

text \<open>C31
  Orderly shutdown: when the broker or the database client has been closed, every worker has left its
  loop and none holds a message, the trigger consumer's context has been cancelled and the HTTP server no
  longer listens; the database is closed last.\<close>

theorem shutdown_order:
  assumes "boot pf url_ok opts s = (Booted srv, s')" "process_reaches srv p"
    and "\<not> ps_broker_open p \<or> \<not> ps_database_open p"
  shows "(\<forall>ph \<in> set (wp_workers (ps_pool p)). ph = Exited) \<and> in_flight (ps_pool p) = [] \<and>
     ps_worker_ctx_done p \<and> \<not> ps_listening p \<and> \<not> ps_broker_open p"
proof -
  from reached_ok [OF assms(1,2)] assms(3) have ok: "process_ok p" "2 \<le> progress (ps_main p)"
    by (auto simp: process_ok_def)
  then obtain e where e: "pool_ok (ps_pool p)" "wp_stop (ps_pool p) = Returned e" by (auto simp: process_ok_def)
  have x: "\<forall>ph \<in> set (wp_workers (ps_pool p)). ph = Exited" using pool_ok_exited [OF e] by blast
  then have "in_flight (ps_pool p) = []" by (auto simp: in_flight_def)
  with x ok assms(3) show ?thesis by (auto simp: process_ok_def)
qed

theorem shutdown_order_witness:
  "\<exists>p. process_reaches demo_server p \<and> ps_main p = Returned_Main \<and> in_flight (ps_pool p) = [] \<and> \<not> ps_listening p"
proof -
  have "process_reaches demo_server (serving demo_server)" by (simp add: process_reaches_def)
  from always_can_end [OF reached_ok [OF demo_booted this]] obtain p where
    p: "process_reaches demo_server p" "ps_main p = Returned_Main"
    by (auto simp: can_end_def process_reaches_def)
  then have "\<not> ps_database_open p" using reached_ok [OF demo_booted p(1)] by (simp add: process_ok_def)
  with shutdown_order [OF demo_booted p(1)] p show ?thesis by blast
qed

text \<open>C32
  From every state a booted server reaches, \<open>main\<close> can go on to its return, with the trigger consumer
  wherever it was: nothing waits for it. So a \<open>Dispatch\<close> in progress can still be in progress when the
  clients are closed and the process ends; its message was taken from the queue, and the notification may
  be left between two of its statements.\<close>

theorem shutdown_cuts_dispatch:
  assumes "boot pf url_ok opts s = (Booted srv, s')" "process_reaches srv p"
  shows "\<exists>p'. process_step\<^sup>*\<^sup>* p p' \<and> ps_main p' = Returned_Main \<and> \<not> ps_broker_open p' \<and>
     \<not> ps_database_open p' \<and> ps_consumer p' = ps_consumer p"
proof -
  from always_can_end [OF reached_ok [OF assms]] obtain p' where
    p': "process_step\<^sup>*\<^sup>* p p'" "ps_main p' = Returned_Main" "ps_consumer p' = ps_consumer p"
    by (auto simp: can_end_def)
  have "process_reaches srv p'" using assms(2) p'(1) unfolding process_reaches_def by (rule rtranclp_trans)
  with reached_ok [OF assms(1) this] p' show ?thesis by (auto simp: process_ok_def)
qed

theorem shutdown_cuts_dispatch_witness:
  "\<exists>p p'. process_reaches demo_server p \<and> ps_consumer p = Dispatching ''a'' \<and> process_step\<^sup>*\<^sup>* p p' \<and>
     ps_main p' = Returned_Main \<and> \<not> ps_database_open p' \<and> ps_consumer p' = Dispatching ''a''"
proof -
  let ?p = "(serving demo_server)\<lparr>ps_triggers := [''a'']\<rparr>"
  let ?q = "?p\<lparr>ps_consumer := Dispatching ''a'', ps_triggers := []\<rparr>"
  have "process_step (serving demo_server) ((serving demo_server)\<lparr>ps_triggers := ps_triggers (serving demo_server) @ [''a'']\<rparr>)"
    by (rule trigger_arrives) (simp_all add: serving_def)
  then have "process_step (serving demo_server) ?p" by (simp add: serving_def demo_server_def)
  moreover have "process_step ?p ?q" by (rule consumer_takes) (simp_all add: serving_def)
  ultimately have r: "process_reaches demo_server ?q" by (simp add: process_reaches_def)
  have c: "ps_consumer ?q = Dispatching ''a''" by simp
  from shutdown_cuts_dispatch [OF demo_booted r] obtain p' where
    "process_step\<^sup>*\<^sup>* ?q p' \<and> ps_main p' = Returned_Main \<and> \<not> ps_database_open p' \<and> ps_consumer p' = ps_consumer ?q"
    by blast
  with r c show ?thesis by metis
qed

end
