(* ===== verification/Spec2Isabelle.thy ===== *)
theory Spec2Isabelle
  imports Mapping_Props Validator_Props Ingestion_Props Listing_Props Dispatcher_Props Worker_Props Config_Props
    System_Props Worker_Pool Server_Props Server_Shutdown
begin

text \<open>
  A verification library of the notification service under \<open>src/\<close>, a Go program that accepts notifications
  over HTTP, stores them in PostgreSQL, fans each out to vendors by routing rules through RabbitMQ, and
  delivers them to the vendors over HTTP with retries, backoff and dead letters.

  \<^bold>\<open>The parts and how they interact.\<close> \<open>cmd/notification-server/main.go\<close> connects to the database and the broker,
  loads the configuration, and starts five delivery workers, a consumer of trigger messages and an HTTP
  server. \<open>POST /api/v1/notifications\<close> (\<open>internal/api/handler\<close>) validates a payload against the event's schema
  and stores it as a \<open>PENDING\<close> notification, once per caller and key (\<open>internal/ingestion\<close>); for a new one a
  trigger message is published. The consumer runs \<open>Dispatch\<close> (\<open>internal/routing\<close>) on it: one task per vendor of
  the matching rules, the status \<open>DELIVERING\<close>, one delivery message per task. A worker (\<open>internal/delivery\<close>)
  takes a delivery message, builds the vendor's request from the payload by the mapping engine
  (\<open>internal/mapping\<close>) under the loaded configuration (\<open>internal/config\<close>), sends it, and by the answer marks
  the task \<open>SUCCEEDED\<close>, publishes a delayed repetition, or buries it as \<open>DEAD_LETTER\<close>; when all tasks of a
  notification are settled its status follows.

  \<^bold>\<open>Which theory models what.\<close>
  \<^item> \<open>Prelude\<close>: results as sums (\<open>Inl\<close> the error), loops that stop at an error (\<open>traverse\<close>), Go maps as
    association lists (\<open>gm_get\<close>, \<open>gm_put\<close>), the named collections of rewrite rules.
  \<^item> Go's library as far as the program uses it: \<open>Go_Strings\<close> (byte strings, 64-bit wrap-around), \<open>Go_Float\<close> and
    \<open>Go_Float_Text\<close> (\<open>float64\<close> as exact rationals, each operation rounded), \<open>Go_Time\<close>, \<open>Go_Duration\<close>, \<open>Go_Value\<close>
    (values of type \<open>any\<close>, errors, \<open>json.Marshal\<close>), \<open>Go_Json\<close> (\<open>json.Unmarshal\<close>).
  \<^item> \<open>Port_Model\<close>: the records of \<open>internal/port/config.go\<close> and \<open>internal/model\<close>. \<open>Effects\<close>: a handler as a tree of
    calls (\<open>'a prog\<close>): SQL statements, publications, vendor requests, clock, random numbers; \<open>Panic\<close> is a leaf;
    the interface \<open>config_provider\<close>, whose getters may give a nil value or panic as Go's may; \<open>run\<close> executes a
    tree alone. The tree's nodes are where goroutines interleave.
  \<^item> \<open>Store\<close>, \<open>Store_Facts\<close>: the tables and constraints of \<open>migrations/\<close> and the effect of every statement of
    \<open>internal/db/postgres/db.go\<close>; \<open>Postgres\<close>: its methods. \<open>Rabbit_MQ\<close>: \<open>internal/mq/rabbitmq\<close>.
  \<^item> \<open>Mapping_Ref\<close>, \<open>Mapping_Engine\<close>, \<open>Mapping_Facts\<close>, \<open>Mapping_Props\<close>: \<open>internal/mapping/engine.go\<close>.
  \<^item> \<open>Validator\<close>, \<open>Validator_Props\<close>: \<open>internal/ingestion/validator.go\<close>. \<open>Ingestion\<close>: \<open>service.go\<close>, \<open>errors.go\<close>.
    \<open>Api_Handler\<close>: \<open>internal/api/handler/ingestion.go\<close>. \<open>Ingestion_Props\<close>, \<open>Listing_Props\<close>: their properties.
  \<^item> \<open>Dispatcher\<close>, \<open>Dispatcher_Props\<close>: \<open>internal/routing/dispatcher.go\<close>.
  \<^item> \<open>Backoff\<close>: \<open>internal/delivery/backoff.go\<close>. \<open>Worker\<close>, \<open>Worker_Facts\<close>, \<open>Worker_Props\<close>: the handling of one
    message in \<open>internal/delivery/worker.go\<close>. \<open>Worker_Pool\<close>: \<open>Start\<close> and \<open>Stop\<close> of the same file as a state
    machine: goroutines, wait groups, channels, contexts.
  \<^item> \<open>Config_Loader\<close>, \<open>Config_Facts\<close>, \<open>Config_Refs\<close>, \<open>Config_Props\<close>: \<open>internal/config/loader.go\<close>.
  \<^item> \<open>World\<close>: database, broker, vendors, clock and random source as one state, with faults, replies and random
    numbers as arbitrary lists. \<open>Concurrency\<close>: programs interleaving over a world, and rely-guarantee triples.
    \<open>System\<close>, \<open>System_Steps\<close>, \<open>System_Threads\<close>, \<open>System_Safety\<close>, \<open>System_Run\<close>, \<open>System_Props\<close>: the running service.
  \<^item> \<open>Server_Main\<close>, \<open>Server_Run\<close>, \<open>Server_Props\<close>, \<open>Server_Shutdown\<close>: \<open>main.go\<close>: flags, boot sequence, trigger
    consumer, routes; the shutdown as a state machine.

  \<^bold>\<open>Interfaces.\<close> The locale \<open>delivery_env\<close> (\<open>Worker_Facts\<close>) states what a worker relies on while nothing fails;
  \<open>World\<close> interprets it on the PostgreSQL and RabbitMQ clients. The locale \<open>shared_world\<close> (\<open>Concurrency\<close>) is the
  rely-guarantee logic; \<open>System\<close> interprets it on the world with the invariant \<open>sys_inv\<close> and the guarantee
  \<open>evolves\<close>.

  \<^bold>\<open>What the lemmas show.\<close> \<open>System_Props\<close> holds for every reachable state, however requests and goroutines
  interleave, whatever fails and however often a message is delivered: no false success, no duplicates,
  only messages that can be acted on, bounded retries, nothing delivered before it is dispatched, nothing
  accepted lost, no panic. \<open>Server_Props\<close> carries this over to the server that \<open>main\<close> boots, whose getters are
  proved to give no nil value. \<open>Worker_Props\<close>, \<open>Dispatcher_Props\<close>, \<open>Ingestion_Props\<close> and \<open>Listing_Props\<close> give the
  exact effect of one operation on a world without faults, with a specification by decision table
  (\<open>decide\<close>, \<open>settled_by\<close>) that the programs are proved to implement. \<open>Mapping_Props\<close> gives the meaning of
  templates, directives and requests; \<open>Validator_Props\<close> compares the validator with JSON Schema (\<open>admits\<close>);
  \<open>Config_Props\<close> covers loading, isolation of vendors, the checks across files and their relation to the
  engine; \<open>Backoff\<close> bounds the delays; \<open>Worker_Pool\<close> and \<open>Server_Shutdown\<close> show that stopping ends, loses no
  message held by a worker, and closes the clients last.

  \<^bold>\<open>Bounds and termination.\<close> No fuel is used: every function terminates by a measure or by structure. Integers of
  type \<open>int\<close> and \<open>int64\<close> are \<open>int\<close> with \<open>w64\<close> written out where they can wrap; retry counts are 32-bit columns, whose
  overflow is an error of the statement. \<open>Worker_Pool\<close> proves termination of \<open>Stop\<close> by the ranking \<open>work_left\<close>.

  \<^bold>\<open>Parameters.\<close> Code outside \<open>src/\<close> is an argument: \<open>net/url\<close>'s parser (\<open>url_ok\<close>), the YAML decoders, the file
  system, the order of map iteration, the AMQP library's answers, the connection pool's constructor, the
  texts of times and errors in a response. Hypotheses on them: vendor identifiers of the routing rules are
  ASCII where messages are decoded again (\<open>ascii_vendors\<close>), generated identifiers are fresh ASCII texts, and
  an iteration order visits each key.

  \<^bold>\<open>Not modelled.\<close>
  \<^item> \<open>internal/logger\<close> and all log output; the test harness under \<open>test/\<close>; the matching of URLs by chi and the
    transport of net/http (time limits, bodies of vendor answers).
  \<^item> A failing \<open>ListenAndServe\<close> ends the process by \<open>log.Fatalf\<close> in its goroutine (\<open>main.go\<close>); the process
    state machine has no such step. Nothing is closed then, and no property speaks of a state after it.
  \<^item> PostgreSQL rejects the character \<open>\u0000\<close> and invalid UTF-8 in text and JSONB columns and normalises numbers in
    JSONB; a world without faults stores payloads as they are. The properties for all faults cover the
    rejection, as a failing statement.
  \<^item> YAML values without a counterpart in JSON (timestamps, unsigned 64-bit integers, maps with keys that are
    no strings) are outside the type of values.
  \<^item> The order of Go's map iteration is an argument in the loader; elsewhere (a template's maps, a schema's
    properties, headers) the list order of the map stands for it, which decides which of several errors is
    reported first and which of two keys that become equal is kept.
  \<^item> Several broker features: publisher confirms are not used by the program; the delay of a delayed message
    and the lack of a TTL on the retry queue are properties of the broker, and a message may be delivered
    at any time, any number of times, or never.
\<close>

end
